theory Spec2Isabelle
  imports Main "HOL-Library.Word"
begin

section \<open>Errors\<close>

text \<open>
  Every error value that \<^verbatim>\<open>sql/create.go\<close> builds itself is a constructor carrying the
  data of its message. Errors handed back by collaborators that are not part of
  \<^verbatim>\<open>create.go\<close> are \<open>errExternal\<close>; a Go run-time panic (index out of range, nil
  dereference) is \<open>errPanic\<close>.
\<close>

datatype error =
    errEmptyDatabaseName
  | errNotSupportedEncoding string
  | errOnlyRootAllowed string
  | errIndexBeingDropped string
  | errReferencedTableNotFound string
  | errMustSpecifySingleUniqueColumn string
  | errTypeMismatch string string string
  | errRequiresUniqueIndex string string
  | errMustBePrefixOfIndex string
  | errUnsupportedShorthand
  | errInterleavedColumnsMustMatchParent
  | errDeclaredColumnsMustMatchIndex
  | errColumnNotFound string
  | errColumnIDNotFound nat
  | errIndexNotFound string
  | errIndexIDNotFound nat
  | errMultiplePrimaryKeys string
  | errExternal string
  | errPanic

section \<open>The parser's statements\<close>

datatype Expr = SQLExpr string

record CreateDatabase_stmt =
  cd_IfNotExists :: bool
  cd_Name :: string
  cd_Encoding :: "Expr option"

datatype ColumnType_Kind =
    ColumnType_BOOL | ColumnType_INT | ColumnType_FLOAT | ColumnType_DECIMAL
  | ColumnType_DATE | ColumnType_TIMESTAMP | ColumnType_INTERVAL
  | ColumnType_STRING | ColumnType_BYTES | ColumnType_TIMESTAMPTZ

datatype IndexDescriptor_Direction = IndexDescriptor_ASC | IndexDescriptor_DESC

text \<open>
  A \<^verbatim>\<open>parser.ColumnTableDef\<close>: the fields \<^verbatim>\<open>CheckExpr.{Expr, ConstraintName}\<close> and
  \<^verbatim>\<open>References.{Table, Col, ConstraintName}\<close> are flattened. A nil expression or a nil
  qualified name is \<open>None\<close>.
\<close>

record ColumnTableDef =
  ctd_Name :: string
  ctd_Kind :: ColumnType_Kind
  ctd_Nullable :: bool
  ctd_PrimaryKey :: bool
  ctd_Unique :: bool
  ctd_DefaultExpr :: "Expr option"
  ctd_CheckExpr_Expr :: "Expr option"
  ctd_CheckExpr_ConstraintName :: string
  ctd_References_Table :: "string option"
  ctd_References_Col :: string
  ctd_References_ConstraintName :: string

record CheckConstraintTableDef =
  cct_Name :: string
  cct_Expr :: Expr

record IndexTableDef =
  itd_Name :: string
  itd_Columns :: "(string \<times> IndexDescriptor_Direction) list"
  itd_Storing :: "string list"

datatype DropBehavior = DropDefault | DropRestrict | DropCascade

record InterleaveDef =
  ild_Parent :: string
  ild_Fields :: "string list"
  ild_DropBehavior :: DropBehavior

datatype TableDef =
    ColumnDef ColumnTableDef
  | IndexDef IndexTableDef
  | UniqueConstraintDef IndexTableDef bool
  | CheckConstraintDef CheckConstraintTableDef

record CreateTable_stmt =
  ct_IfNotExists :: bool
  ct_Table :: string
  ct_Interleave :: "InterleaveDef option"
  ct_Defs :: "TableDef list"

record CreateIndex_stmt =
  ci_Name :: string
  ci_Table :: string
  ci_Unique :: bool
  ci_IfNotExists :: bool
  ci_Columns :: "(string \<times> IndexDescriptor_Direction) list"
  ci_Storing :: "string list"
  ci_Interleave :: "InterleaveDef option"

section \<open>CREATE DATABASE: planning\<close>

text \<open>
  \<^verbatim>\<open>strings.EqualFold\<close> of the Go standard library, on the byte strings of this model: two
  strings are equal under case folding. The three literals it is called with contain
  only the letters U, T, F, N, I, C, O, D, E, a digit and a dash, none of which has a
  fold partner outside ASCII, so folding ASCII letters decides the comparison.
\<close>

definition toUpperASCII :: "char \<Rightarrow> char" where
  "toUpperASCII c =
     (case map_of (zip ''abcdefghijklmnopqrstuvwxyz'' ''ABCDEFGHIJKLMNOPQRSTUVWXYZ'') c of
        Some u \<Rightarrow> u
      | None \<Rightarrow> c)"

definition EqualFold :: "string \<Rightarrow> string \<Rightarrow> bool" where
  "EqualFold s t = (map toUpperASCII s = map toUpperASCII t)"

text \<open>
  Modelled from the spec: \<^verbatim>\<open>security.RootUser\<close> is declared outside \<^verbatim>\<open>create.go\<close>; the spec
  names the superuser \<open>root\<close>.
\<close>

definition RootUser :: string where
  "RootUser = ''root''"

text \<open>
  What \<^verbatim>\<open>CreateDatabase\<close> reads of the planner: the session's user, and the
  resolution of the encoding expression to a string
  (\<^verbatim>\<open>n.Encoding.ResolveAsType(&p.semaCtx, parser.TypeString)\<close>), which belongs to the
  parser and is taken as a parameter.
\<close>

record session =
  session_User :: string
  session_Database :: string

record createDatabaseNode =
  cdn_session :: session
  cdn_n :: CreateDatabase_stmt

definition CreateDatabase ::
  "(Expr \<Rightarrow> error + string) \<Rightarrow> session \<Rightarrow> CreateDatabase_stmt \<Rightarrow> error + createDatabaseNode"
where
  "CreateDatabase ResolveAsType p n =
     (if cd_Name n = '''' then Inl errEmptyDatabaseName
      else
        (case (case cd_Encoding n of
                 None \<Rightarrow> None
               | Some enc \<Rightarrow>
                   (case ResolveAsType enc of
                      Inl err \<Rightarrow> Some err
                    | Inr encodingStr \<Rightarrow>
                        if \<not> (EqualFold encodingStr ''UTF8'' \<or>
                                EqualFold encodingStr ''UTF-8'' \<or>
                                EqualFold encodingStr ''UNICODE'')
                        then Some (errNotSupportedEncoding encodingStr)
                        else None)) of
           Some err \<Rightarrow> Inl err
         | None \<Rightarrow>
             if session_User p \<noteq> RootUser then Inl (errOnlyRootAllowed RootUser)
             else Inr \<lparr>cdn_session = p, cdn_n = n\<rparr>))"

section \<open>CREATE TABLE: hoisting column-level CHECK constraints\<close>

text \<open>
  \<^verbatim>\<open>hoistConstraints\<close> ranges over the slice \<^verbatim>\<open>n.Defs\<close> as it is when the loop starts: Go
  evaluates the range expression once, so the definitions appended during the loop
  are not visited. The loop state is the part of the original slice already visited
  (its column definitions are reached through pointers and changed in place) and the
  definitions appended so far; \<^verbatim>\<open>n.Defs\<close> is the first followed by the rest of the
  original slice and the second.
\<close>

fun hoistLoop :: "TableDef list \<Rightarrow> TableDef list \<Rightarrow> TableDef list \<Rightarrow> TableDef list" where
  "hoistLoop [] visited appended = visited @ appended"
| "hoistLoop (ColumnDef col # ds) visited appended =
     (case ctd_CheckExpr_Expr col of
        Some e \<Rightarrow>
          (let def0 = \<lparr>cct_Name = '''', cct_Expr = e\<rparr>;
               def = (if ctd_CheckExpr_ConstraintName col \<noteq> ''''
                      then def0\<lparr>cct_Name := ctd_CheckExpr_ConstraintName col\<rparr>
                      else def0)
           in hoistLoop ds
                (visited @ [ColumnDef (col\<lparr>ctd_CheckExpr_Expr := None\<rparr>)])
                (appended @ [CheckConstraintDef def]))
      | None \<Rightarrow> hoistLoop ds (visited @ [ColumnDef col]) appended)"
| "hoistLoop (d # ds) visited appended = hoistLoop ds (visited @ [d]) appended"

definition hoistConstraints :: "CreateTable_stmt \<Rightarrow> CreateTable_stmt" where
  "hoistConstraints n = n\<lparr>ct_Defs := hoistLoop (ct_Defs n) [] []\<rparr>"

text \<open>
  The reading of a column-level CHECK that the spec gives: it is shorthand for a
  table-level constraint. \<open>columnCheck\<close> is the table-level constraint a definition's
  column-level CHECK stands for (same expression, same name), \<open>withoutColumnCheck\<close> is
  the column written with no CHECK at all, and \<open>declaredAtTableLevel\<close> is the equivalent
  statement that declares the same CHECKs at table level from the start.
\<close>

fun columnCheck :: "TableDef \<Rightarrow> CheckConstraintTableDef option" where
  "columnCheck (ColumnDef col) =
     (case ctd_CheckExpr_Expr col of
        Some e \<Rightarrow> Some \<lparr>cct_Name = ctd_CheckExpr_ConstraintName col, cct_Expr = e\<rparr>
      | None \<Rightarrow> None)"
| "columnCheck d = None"

fun withoutColumnCheck :: "TableDef \<Rightarrow> TableDef" where
  "withoutColumnCheck (ColumnDef col) =
     (case ctd_CheckExpr_Expr col of
        Some e \<Rightarrow> ColumnDef (col\<lparr>ctd_CheckExpr_Expr := None, ctd_CheckExpr_ConstraintName := ''''\<rparr>)
      | None \<Rightarrow> ColumnDef col)"
| "withoutColumnCheck d = d"

definition declaredAtTableLevel :: "CreateTable_stmt \<Rightarrow> CreateTable_stmt" where
  "declaredAtTableLevel n =
     n\<lparr>ct_Defs := map withoutColumnCheck (ct_Defs n) @
                   map CheckConstraintDef (List.map_filter columnCheck (ct_Defs n))\<rparr>"

text \<open>The table-level CHECK constraints of a definition list, in order.\<close>

fun tableLevelChecks :: "TableDef list \<Rightarrow> CheckConstraintTableDef list" where
  "tableLevelChecks [] = []"
| "tableLevelChecks (CheckConstraintDef c # ds) = c # tableLevelChecks ds"
| "tableLevelChecks (d # ds) = tableLevelChecks ds"

text \<open>
  What \<^verbatim>\<open>hoistConstraints\<close> leaves on a column: the expression is set to nil, the
  constraint name stays. \<open>dropResidualName\<close> forgets the name of a CHECK that has no
  expression.
\<close>

fun clearCheckExpr :: "TableDef \<Rightarrow> TableDef" where
  "clearCheckExpr (ColumnDef col) = ColumnDef (col\<lparr>ctd_CheckExpr_Expr := None\<rparr>)"
| "clearCheckExpr d = d"

fun hasColumnCheck :: "TableDef \<Rightarrow> bool" where
  "hasColumnCheck (ColumnDef col) = (ctd_CheckExpr_Expr col \<noteq> None)"
| "hasColumnCheck d = False"

fun dropResidualName :: "TableDef \<Rightarrow> TableDef" where
  "dropResidualName (ColumnDef col) =
     (if ctd_CheckExpr_Expr col = None
      then ColumnDef (col\<lparr>ctd_CheckExpr_ConstraintName := ''''\<rparr>)
      else ColumnDef col)"
| "dropResidualName d = d"

section \<open>Descriptors\<close>

record ForeignKeyReference =
  fk_Table :: nat
  fk_Index :: nat
  fk_Name :: string

text \<open>\<^verbatim>\<open>SharedPrefixLen\<close> is a \<^verbatim>\<open>uint32\<close>: subtraction wraps around.\<close>

record InterleaveDescriptor_Ancestor =
  anc_TableID :: nat
  anc_IndexID :: nat
  anc_SharedPrefixLen :: "32 word"

record ColumnType =
  ctype_Kind :: ColumnType_Kind
  ctype_Width :: int
  ctype_Precision :: int

record ColumnDescriptor =
  col_Name :: string
  col_ID :: nat
  col_Type :: ColumnType
  col_Nullable :: bool
  col_DefaultExpr :: "string option"
  col_Hidden :: bool

text \<open>
  \<^verbatim>\<open>ForeignKey\<close> is a pointer in the source (nil is \<open>None\<close>); every reference is allocated
  by the statement that stores it and is never shared. \<open>idx_Interleave\<close> is
  \<^verbatim>\<open>Interleave.Ancestors\<close>.
\<close>

record IndexDescriptor =
  idx_Name :: string
  idx_ID :: nat
  idx_Unique :: bool
  idx_ColumnNames :: "string list"
  idx_ColumnDirections :: "IndexDescriptor_Direction list"
  idx_StoreColumnNames :: "string list"
  idx_ColumnIDs :: "nat list"
  idx_ForeignKey :: "ForeignKeyReference option"
  idx_ReferencedBy :: "ForeignKeyReference list"
  idx_Interleave :: "InterleaveDescriptor_Ancestor list"
  idx_InterleavedBy :: "ForeignKeyReference list"

datatype DescriptorMutation_Direction =
  DescriptorMutation_NONE | DescriptorMutation_ADD | DescriptorMutation_DROP

datatype MutationDescriptor = MutationColumn ColumnDescriptor | MutationIndex IndexDescriptor

record DescriptorMutation =
  mut_Descriptor :: MutationDescriptor
  mut_Direction :: DescriptorMutation_Direction
  mut_MutationID :: nat

datatype DescriptorStatus = DescriptorAbsent | DescriptorIncomplete | DescriptorActive

datatype TableDescriptor_State = TableDescriptor_PUBLIC | TableDescriptor_ADD | TableDescriptor_DROP

record TableDescriptor =
  tbl_Name :: string
  tbl_ID :: nat
  tbl_ParentID :: nat
  tbl_UpVersion :: bool
  tbl_Columns :: "ColumnDescriptor list"
  tbl_PrimaryIndex :: IndexDescriptor
  tbl_Indexes :: "IndexDescriptor list"
  tbl_Mutations :: "DescriptorMutation list"
  tbl_NextMutationID :: nat
  tbl_State :: TableDescriptor_State
  tbl_Privileges :: "(string \<times> string) list"

record DatabaseDescriptor =
  db_Name :: string
  db_ID :: nat
  db_Privileges :: "(string \<times> string) list"

section \<open>The planner's world\<close>

text \<open>
  Table descriptors are reached through pointers, and \<^verbatim>\<open>finalizeFKs\<close> compares pointers
  (\<^verbatim>\<open>t.target == desc\<close>), so descriptors live in an explicit store: \<open>heap\<close> is the list of
  the descriptor objects in memory and a pointer is a position in it. \<open>written\<close> is the
  sequence of descriptors handed to \<^verbatim>\<open>writeTableDesc\<close> or \<^verbatim>\<open>txn.Put\<close>, \<open>notified\<close> the
  sequence of \<^verbatim>\<open>notifySchemaChange\<close> calls (table ID, mutation ID), \<open>events\<close> the
  records given to the event log.
\<close>

datatype EventLogType = EventLogCreateDatabase | EventLogCreateTable | EventLogCreateIndex

record EventRecord =
  ev_Type :: EventLogType
  ev_TargetID :: nat
  ev_Name :: string
  ev_IndexName :: string
  ev_User :: string
  ev_MutationID :: nat

record world =
  heap :: "TableDescriptor list"
  written :: "TableDescriptor list"
  notified :: "(nat \<times> nat) list"
  events :: "EventRecord list"

text \<open>
  The collaborators of \<^verbatim>\<open>create.go\<close> whose code is elsewhere in the repository
  (\<^verbatim>\<open>sqlbase\<close>, the parser, the planner's descriptor access, the transaction) are
  parameters. A method that may change its receiver before it fails returns the error
  together with the receiver. A descriptor lookup returns its result and the
  descriptor objects it has allocated; these are added to the heap, and the objects
  already in memory are left as they are.
\<close>

record collaborators =
  c_NormalizeName :: "string \<Rightarrow> string"
  c_NameString :: "string \<Rightarrow> string"
  c_MakeTableDesc :: "CreateTable_stmt \<Rightarrow> nat \<Rightarrow> error + TableDescriptor"
  c_AllocateIDs :: "TableDescriptor \<Rightarrow> error option \<times> TableDescriptor"
  c_Validate :: "TableDescriptor \<Rightarrow> error option"
  c_SetUpVersion :: "TableDescriptor \<Rightarrow> error option"
  c_FinalizeMutation :: "TableDescriptor \<Rightarrow> (error + nat) \<times> TableDescriptor"
  c_FillColumns ::
    "IndexDescriptor \<Rightarrow> (string \<times> IndexDescriptor_Direction) list \<Rightarrow> error option \<times> IndexDescriptor"
  c_getTableDesc :: "world \<Rightarrow> string \<Rightarrow> (error + nat option) \<times> TableDescriptor list"
  c_mustGetTableDesc :: "world \<Rightarrow> string \<Rightarrow> (error + nat) \<times> TableDescriptor list"
  c_getTableDescFromID :: "world \<Rightarrow> nat \<Rightarrow> (error + nat) \<times> TableDescriptor list"
  c_writeTableDesc :: "world \<Rightarrow> TableDescriptor \<Rightarrow> error option"
  c_createDescriptor :: "world \<Rightarrow> nat \<times> string \<Rightarrow> TableDescriptor \<Rightarrow> bool \<Rightarrow> error + nat option"
  c_InsertEventRecord :: "world \<Rightarrow> EventRecord \<Rightarrow> error option"

definition load :: "world \<Rightarrow> nat \<Rightarrow> error + TableDescriptor" where
  "load w p = (if p < length (heap w) then Inr (heap w ! p) else Inl errPanic)"

definition store :: "world \<Rightarrow> nat \<Rightarrow> TableDescriptor \<Rightarrow> world" where
  "store w p d = w\<lparr>heap := (heap w)[p := d]\<rparr>"

definition getTableDesc :: "collaborators \<Rightarrow> world \<Rightarrow> string \<Rightarrow> (error + nat option) \<times> world" where
  "getTableDesc env w name =
     (case c_getTableDesc env w name of (r, objs) \<Rightarrow> (r, w\<lparr>heap := heap w @ objs\<rparr>))"

definition mustGetTableDesc :: "collaborators \<Rightarrow> world \<Rightarrow> string \<Rightarrow> (error + nat) \<times> world" where
  "mustGetTableDesc env w name =
     (case c_mustGetTableDesc env w name of (r, objs) \<Rightarrow> (r, w\<lparr>heap := heap w @ objs\<rparr>))"

definition getTableDescFromID :: "collaborators \<Rightarrow> world \<Rightarrow> nat \<Rightarrow> (error + nat) \<times> world" where
  "getTableDescFromID env w tid =
     (case c_getTableDescFromID env w tid of (r, objs) \<Rightarrow> (r, w\<lparr>heap := heap w @ objs\<rparr>))"

section \<open>Descriptor lookups\<close>

text \<open>
  Modelled from the spec: \<^verbatim>\<open>TableDescriptor.FindActiveColumnByName\<close> and
  \<^verbatim>\<open>FindColumnByID\<close> are methods of \<^verbatim>\<open>sqlbase\<close>, not of \<^verbatim>\<open>create.go\<close>. A table owns its
  columns in insertion order; the lookup returns the first column of the table with
  the name (the ID), and fails when there is none.
\<close>

definition FindActiveColumnByName :: "TableDescriptor \<Rightarrow> string \<Rightarrow> error + ColumnDescriptor" where
  "FindActiveColumnByName desc name =
     (case List.find (\<lambda>c. col_Name c = name) (tbl_Columns desc) of
        Some c \<Rightarrow> Inr c
      | None \<Rightarrow> Inl (errColumnNotFound name))"

definition FindColumnByID :: "TableDescriptor \<Rightarrow> nat \<Rightarrow> error + ColumnDescriptor" where
  "FindColumnByID desc cid =
     (case List.find (\<lambda>c. col_ID c = cid) (tbl_Columns desc) of
        Some c \<Rightarrow> Inr c
      | None \<Rightarrow> Inl (errColumnIDNotFound cid))"

text \<open>
  Modelled from the spec: \<^verbatim>\<open>TableDescriptor.FindIndexByID\<close> is a method of \<^verbatim>\<open>sqlbase\<close>. It
  returns a pointer to the index with the given ID inside the descriptor, so that the
  caller changes the descriptor through it: the primary index, or else the first of the
  table's indexes with that ID. The pointer is modelled as the place of the index in
  the descriptor.
\<close>

datatype indexRef = PrimaryIndexRef | SecondaryIndexRef nat

fun findIndexPos :: "IndexDescriptor list \<Rightarrow> nat \<Rightarrow> nat option" where
  "findIndexPos [] iid = None"
| "findIndexPos (idx # rest) iid =
     (if idx_ID idx = iid then Some 0
      else (case findIndexPos rest iid of None \<Rightarrow> None | Some i \<Rightarrow> Some (Suc i)))"

definition FindIndexByID :: "TableDescriptor \<Rightarrow> nat \<Rightarrow> error + indexRef" where
  "FindIndexByID desc iid =
     (if idx_ID (tbl_PrimaryIndex desc) = iid then Inr PrimaryIndexRef
      else (case findIndexPos (tbl_Indexes desc) iid of
              Some i \<Rightarrow> Inr (SecondaryIndexRef i)
            | None \<Rightarrow> Inl (errIndexIDNotFound iid)))"

fun indexAt :: "TableDescriptor \<Rightarrow> indexRef \<Rightarrow> IndexDescriptor" where
  "indexAt desc PrimaryIndexRef = tbl_PrimaryIndex desc"
| "indexAt desc (SecondaryIndexRef i) = tbl_Indexes desc ! i"

fun updateIndexAt ::
  "TableDescriptor \<Rightarrow> indexRef \<Rightarrow> (IndexDescriptor \<Rightarrow> IndexDescriptor) \<Rightarrow> TableDescriptor" where
  "updateIndexAt desc PrimaryIndexRef f = desc\<lparr>tbl_PrimaryIndex := f (tbl_PrimaryIndex desc)\<rparr>"
| "updateIndexAt desc (SecondaryIndexRef i) f =
     desc\<lparr>tbl_Indexes := (tbl_Indexes desc)[i := f (tbl_Indexes desc ! i)]\<rparr>"




section \<open>Loops over a slice whose body may return an error\<close>

text \<open>
  \<^verbatim>\<open>for _, x := range xs { ...; if err != nil { return err } }\<close>: the body runs on each
  element in order, on the world left by the one before, and the first error ends the
  loop.
\<close>

fun forEach :: "('a \<Rightarrow> world \<Rightarrow> error option \<times> world) \<Rightarrow> 'a list \<Rightarrow> world \<Rightarrow> error option \<times> world" where
  "forEach body [] w = (None, w)"
| "forEach body (x # xs) w =
     (case body x w of
        (Some e, w') \<Rightarrow> (Some e, w')
      | (None, w') \<Rightarrow> forEach body xs w')"

section \<open>saveNonmutationAndNotify\<close>

definition InvalidMutationID :: nat where
  "InvalidMutationID = 0"

text \<open>
  \<^verbatim>\<open>td.SetUpVersion()\<close> belongs to \<^verbatim>\<open>sqlbase\<close>. Modelled from the spec: a descriptor carries
  a version that the store increments on write; \<^verbatim>\<open>SetUpVersion\<close> marks the descriptor for
  that increment (\<open>tbl_UpVersion\<close>), and whether it refuses is the collaborator's
  decision (\<open>c_SetUpVersion\<close>). \<^verbatim>\<open>writeTableDesc\<close> puts the descriptor into the store
  (\<open>written\<close>) unless the store refuses (\<open>c_writeTableDesc\<close>).
\<close>

definition saveNonmutationAndNotify :: "collaborators \<Rightarrow> nat \<Rightarrow> world \<Rightarrow> error option \<times> world" where
  "saveNonmutationAndNotify env td w =
     (case load w td of
        Inl e \<Rightarrow> (Some e, w)
      | Inr d \<Rightarrow>
          (case c_SetUpVersion env d of
             Some e \<Rightarrow> (Some e, w)
           | None \<Rightarrow>
               (let d1 = d\<lparr>tbl_UpVersion := True\<rparr>;
                    w1 = store w td d1
                in case c_Validate env d1 of
                     Some e \<Rightarrow> (Some e, w1)
                   | None \<Rightarrow>
                       (case c_writeTableDesc env w1 d1 of
                          Some e \<Rightarrow> (Some e, w1)
                        | None \<Rightarrow>
                            (None, w1\<lparr>written := written w1 @ [d1],
                                      notified := notified w1 @ [(tbl_ID d1, InvalidMutationID)]\<rparr>)))))"

section \<open>resolveColFK\<close>

record fkTargetUpdate =
  ftu_srcIdx :: nat
  ftu_target :: nat
  ftu_targetIdx :: nat

text \<open>Lines 421 to 427: if a column is not specified, default to the primary key.\<close>

definition defaultTargetColName :: "TableDescriptor \<Rightarrow> string \<Rightarrow> string \<Rightarrow> error + string" where
  "defaultTargetColName target targetTable targetColName =
     (if targetColName = '''' then
        (if length (idx_ColumnNames (tbl_PrimaryIndex target)) \<noteq> 1
         then Inl (errMustSpecifySingleUniqueColumn targetTable)
         else Inr (idx_ColumnNames (tbl_PrimaryIndex target) ! 0))
      else Inr targetColName)"

text \<open>
  Lines 445 to 451: the first index, in order, that is unique and has the referenced
  column as its first column. \<^verbatim>\<open>idx.ColumnIDs[0]\<close> is evaluated only for a unique index
  and panics on an index without columns.
\<close>

fun findUniqueIndex :: "IndexDescriptor list \<Rightarrow> nat \<Rightarrow> error + nat option" where
  "findUniqueIndex [] cid = Inr None"
| "findUniqueIndex (idx # rest) cid =
     (if idx_Unique idx then
        (case idx_ColumnIDs idx of
           [] \<Rightarrow> Inl errPanic
         | c # cs \<Rightarrow> if c = cid then Inr (Some (idx_ID idx)) else findUniqueIndex rest cid)
      else findUniqueIndex rest cid)"

text \<open>Lines 439 to 452: the ID of the referenced index, if one is found.\<close>

definition findTargetIndex :: "TableDescriptor \<Rightarrow> ColumnDescriptor \<Rightarrow> error + nat option" where
  "findTargetIndex target targetCol =
     (case idx_ColumnIDs (tbl_PrimaryIndex target) of
        [] \<Rightarrow> Inl errPanic
      | c # cs \<Rightarrow>
          if c = col_ID targetCol then Inr (Some (idx_ID (tbl_PrimaryIndex target)))
          else findUniqueIndex (tbl_Indexes target) (col_ID targetCol))"

text \<open>
  Lines 469 to 476: the reference is stored on the first index, in order, whose first
  column is the source column; the result is the changed index list and the ID of that
  index.
\<close>

fun attachToIndexes ::
  "IndexDescriptor list \<Rightarrow> nat \<Rightarrow> ForeignKeyReference \<Rightarrow> error + (IndexDescriptor list \<times> nat) option" where
  "attachToIndexes [] sid ref = Inr None"
| "attachToIndexes (idx # rest) sid ref =
     (case idx_ColumnIDs idx of
        [] \<Rightarrow> Inl errPanic
      | c # cs \<Rightarrow>
          if c = sid then Inr (Some (idx\<lparr>idx_ForeignKey := Some ref\<rparr> # rest, idx_ID idx))
          else (case attachToIndexes rest sid ref of
                  Inl e \<Rightarrow> Inl e
                | Inr None \<Rightarrow> Inr None
                | Inr (Some (rest', iid)) \<Rightarrow> Inr (Some (idx # rest', iid))))"

text \<open>Lines 463 to 477: the changed table and the ID of the source index, if one is found.\<close>

definition attachForeignKey ::
  "TableDescriptor \<Rightarrow> nat \<Rightarrow> ForeignKeyReference \<Rightarrow> error + (TableDescriptor \<times> nat) option" where
  "attachForeignKey tbl sid ref =
     (case idx_ColumnIDs (tbl_PrimaryIndex tbl) of
        [] \<Rightarrow> Inl errPanic
      | c # cs \<Rightarrow>
          if c = sid then
            Inr (Some (tbl\<lparr>tbl_PrimaryIndex := (tbl_PrimaryIndex tbl)\<lparr>idx_ForeignKey := Some ref\<rparr>\<rparr>,
                       idx_ID (tbl_PrimaryIndex tbl)))
          else (case attachToIndexes (tbl_Indexes tbl) sid ref of
                  Inl e \<Rightarrow> Inl e
                | Inr None \<Rightarrow> Inr None
                | Inr (Some (indexes', iid)) \<Rightarrow> Inr (Some (tbl\<lparr>tbl_Indexes := indexes'\<rparr>, iid))))"

text \<open>
  Lines 403 to 461 of \<^verbatim>\<open>resolveColFK\<close>: the source column, the pointer to the target
  table, the ID of the target index and the forward reference. A target table that is
  not found and bears the name of the table being created is that table itself.
  \<^verbatim>\<open>fmt.Sprintf("fk_%s_ref_%s_%s", fromCol, target.Name, targetColName)\<close> prints the two
  parser names through the parser's \<^verbatim>\<open>Name.String\<close> (\<open>c_NameString\<close>).
\<close>

definition resolveColFK_reference ::
  "collaborators \<Rightarrow> nat \<Rightarrow> string \<Rightarrow> string \<Rightarrow> string \<Rightarrow> string \<Rightarrow> world \<Rightarrow>
   (error + ColumnDescriptor \<times> nat \<times> nat \<times> ForeignKeyReference) \<times> world"
where
  "resolveColFK_reference env tbl fromCol targetTable targetColName constraintName w =
     (case load w tbl of
        Inl e \<Rightarrow> (Inl e, w)
      | Inr tblv \<Rightarrow>
     (case FindActiveColumnByName tblv fromCol of
        Inl e \<Rightarrow> (Inl e, w)
      | Inr src \<Rightarrow>
     (case getTableDesc env w targetTable of
        (Inl e, w1) \<Rightarrow> (Inl e, w1)
      | (Inr found, w1) \<Rightarrow>
     (case (case found of
              Some t \<Rightarrow> Inr t
            | None \<Rightarrow> if targetTable = tbl_Name tblv then Inr tbl
                       else Inl (errReferencedTableNotFound targetTable)) of
        Inl e \<Rightarrow> (Inl e, w1)
      | Inr target \<Rightarrow>
     (case load w1 target of
        Inl e \<Rightarrow> (Inl e, w1)
      | Inr targetv \<Rightarrow>
     (case defaultTargetColName targetv targetTable targetColName of
        Inl e \<Rightarrow> (Inl e, w1)
      | Inr targetColName1 \<Rightarrow>
     (case FindActiveColumnByName targetv targetColName1 of
        Inl e \<Rightarrow> (Inl e, w1)
      | Inr targetCol \<Rightarrow>
          if ctype_Kind (col_Type src) \<noteq> ctype_Kind (col_Type targetCol)
          then (Inl (errTypeMismatch fromCol (tbl_Name targetv) (col_Name targetCol)), w1)
          else
     (case findTargetIndex targetv targetCol of
        Inl e \<Rightarrow> (Inl e, w1)
      | Inr None \<Rightarrow> (Inl (errRequiresUniqueIndex targetTable (col_Name targetCol)), w1)
      | Inr (Some targetIdx) \<Rightarrow>
          (let constraintName1 =
                 (if constraintName = ''''
                  then ''fk_'' @ c_NameString env fromCol @ ''_ref_'' @ tbl_Name targetv @ ''_'' @
                       c_NameString env targetColName1
                  else constraintName);
               ref = \<lparr>fk_Table = tbl_ID targetv, fk_Index = targetIdx, fk_Name = constraintName1\<rparr>
           in (Inr (src, target, targetIdx, ref), w1))))))))))"

definition resolveColFK ::
  "collaborators \<Rightarrow> nat \<Rightarrow> string \<Rightarrow> string \<Rightarrow> string \<Rightarrow> string \<Rightarrow> world \<Rightarrow>
   (error + fkTargetUpdate) \<times> world"
where
  "resolveColFK env tbl fromCol targetTable targetColName constraintName w =
     (case resolveColFK_reference env tbl fromCol targetTable targetColName constraintName w of
        (Inl e, w1) \<Rightarrow> (Inl e, w1)
      | (Inr (src, target, targetIdx, ref), w1) \<Rightarrow>
     (case load w1 tbl of
        Inl e \<Rightarrow> (Inl e, w1)
      | Inr tblv \<Rightarrow>
     (case attachForeignKey tblv (col_ID src) ref of
        Inl e \<Rightarrow> (Inl e, w1)
      | Inr None \<Rightarrow> (Inl (errMustBePrefixOfIndex (col_Name src)), w1)
      | Inr (Some (tblv1, srcIdx)) \<Rightarrow>
          (Inr \<lparr>ftu_srcIdx = srcIdx, ftu_target = target, ftu_targetIdx = targetIdx\<rparr>,
           store w1 tbl (tblv1\<lparr>tbl_State := TableDescriptor_ADD\<rparr>)))))"

section \<open>finalizeFKs\<close>

text \<open>The body of the loop of \<^verbatim>\<open>finalizeFKs\<close>, lines 558 to 577, for one target update.\<close>

definition finalizeFK_target :: "collaborators \<Rightarrow> nat \<Rightarrow> fkTargetUpdate \<Rightarrow> world \<Rightarrow> error option \<times> world" where
  "finalizeFK_target env desc t w =
     (case load w (ftu_target t) of
        Inl e \<Rightarrow> (Some e, w)
      | Inr targetv \<Rightarrow>
     (case FindIndexByID targetv (ftu_targetIdx t) of
        Inl e \<Rightarrow> (Some e, w)
      | Inr targetIdx \<Rightarrow>
     (case load w desc of
        Inl e \<Rightarrow> (Some e, w)
      | Inr descv \<Rightarrow>
          (let backref = \<lparr>fk_Table = tbl_ID descv, fk_Index = ftu_srcIdx t, fk_Name = ''''\<rparr>;
               w1 = store w (ftu_target t)
                      (updateIndexAt targetv targetIdx
                         (\<lambda>i. i\<lparr>idx_ReferencedBy := idx_ReferencedBy i @ [backref]\<rparr>))
           in if ftu_target t = desc then
                (case load w1 desc of
                   Inl e \<Rightarrow> (Some e, w1)
                 | Inr descv1 \<Rightarrow>
                (case FindIndexByID descv1 (ftu_srcIdx t) of
                   Inl e \<Rightarrow> (Some e, w1)
                 | Inr srcIdx \<Rightarrow>
                (case idx_ForeignKey (indexAt descv1 srcIdx) of
                   None \<Rightarrow> (Some errPanic, w1)
                 | Some fk \<Rightarrow>
                     (None, store w1 desc
                        (updateIndexAt descv1 srcIdx
                           (\<lambda>i. i\<lparr>idx_ForeignKey := Some (fk\<lparr>fk_Table := tbl_ID descv1\<rparr>)\<rparr>))))))
              else saveNonmutationAndNotify env (ftu_target t) w1))))"

definition finalizeFKs :: "collaborators \<Rightarrow> nat \<Rightarrow> fkTargetUpdate list \<Rightarrow> world \<Rightarrow> error option \<times> world" where
  "finalizeFKs env desc fkTargets w =
     (case forEach (finalizeFK_target env desc) fkTargets w of
        (Some e, w1) \<Rightarrow> (Some e, w1)
      | (None, w1) \<Rightarrow>
          (case load w1 desc of
             Inl e \<Rightarrow> (Some e, w1)
           | Inr descv \<Rightarrow>
               if tbl_State descv = TableDescriptor_ADD
               then saveNonmutationAndNotify env desc
                      (store w1 desc (descv\<lparr>tbl_State := TableDescriptor_PUBLIC\<rparr>))
               else (None, w1)))"

section \<open>addInterleave and finalizeInterleave\<close>

text \<open>
  The loop of lines 522 to 539 over the parent's primary-key columns, from position
  \<open>i\<close> on. An index expression out of range panics; the comparison of the directions
  is evaluated only when the types agree.
\<close>

fun interleaveColumnsMatch ::
  "collaborators \<Rightarrow> TableDescriptor \<Rightarrow> IndexDescriptor \<Rightarrow> InterleaveDef \<Rightarrow> TableDescriptor \<Rightarrow>
   IndexDescriptor \<Rightarrow> nat \<Rightarrow> nat list \<Rightarrow> error option" where
  "interleaveColumnsMatch env desc index interleave parentTable parentIndex i [] = None"
| "interleaveColumnsMatch env desc index interleave parentTable parentIndex i (targetColID # rest) =
     (case FindColumnByID parentTable targetColID of
        Inl e \<Rightarrow> Some e
      | Inr targetCol \<Rightarrow>
          if length (idx_ColumnIDs index) \<le> i then Some errPanic
          else
     (case FindColumnByID desc (idx_ColumnIDs index ! i) of
        Inl e \<Rightarrow> Some e
      | Inr col \<Rightarrow>
          if length (ild_Fields interleave) \<le> i then Some errPanic
          else if c_NormalizeName env (ild_Fields interleave ! i) \<noteq> c_NormalizeName env (col_Name col)
          then Some errDeclaredColumnsMustMatchIndex
          else if col_Type col \<noteq> col_Type targetCol
          then Some errInterleavedColumnsMustMatchParent
          else if length (idx_ColumnDirections index) \<le> i \<or>
                  length (idx_ColumnDirections parentIndex) \<le> i
          then Some errPanic
          else if idx_ColumnDirections index ! i \<noteq> idx_ColumnDirections parentIndex ! i
          then Some errInterleavedColumnsMustMatchParent
          else interleaveColumnsMatch env desc index interleave parentTable parentIndex (Suc i) rest))"

text \<open>
  \<^verbatim>\<open>addInterleave\<close> reads \<^verbatim>\<open>desc\<close> and changes the index it is given a pointer to, in its
  last statement only; the result is the changed index. \<^verbatim>\<open>uint32(len(...))\<close> is
  \<open>of_nat (length ...)\<close> on 32-bit words.
\<close>

definition addInterleave ::
  "collaborators \<Rightarrow> TableDescriptor \<Rightarrow> IndexDescriptor \<Rightarrow> InterleaveDef \<Rightarrow> world \<Rightarrow>
   (error + IndexDescriptor) \<times> world"
where
  "addInterleave env desc index interleave w =
     (if ild_DropBehavior interleave \<noteq> DropDefault then (Inl errUnsupportedShorthand, w)
      else
     (case mustGetTableDesc env w (ild_Parent interleave) of
        (Inl e, w1) \<Rightarrow> (Inl e, w1)
      | (Inr parent, w1) \<Rightarrow>
     (case load w1 parent of
        Inl e \<Rightarrow> (Inl e, w1)
      | Inr parentTable \<Rightarrow>
          (let parentIndex = tbl_PrimaryIndex parentTable
           in if length (ild_Fields interleave) \<noteq> length (idx_ColumnIDs parentIndex)
              then (Inl errInterleavedColumnsMustMatchParent, w1)
              else if length (ild_Fields interleave) > length (idx_ColumnIDs index)
              then (Inl errDeclaredColumnsMustMatchIndex, w1)
              else
                (case interleaveColumnsMatch env desc index interleave parentTable parentIndex 0
                        (idx_ColumnIDs parentIndex) of
                   Some e \<Rightarrow> (Inl e, w1)
                 | None \<Rightarrow>
                     (let ancestorPrefix = idx_Interleave parentIndex;
                          intl0 = \<lparr>anc_TableID = tbl_ID parentTable,
                                   anc_IndexID = idx_ID parentIndex,
                                   anc_SharedPrefixLen = of_nat (length (idx_ColumnIDs parentIndex))\<rparr>;
                          intl = foldl (\<lambda>a ancestor.
                                          a\<lparr>anc_SharedPrefixLen :=
                                               anc_SharedPrefixLen a - anc_SharedPrefixLen ancestor\<rparr>)
                                       intl0 ancestorPrefix
                      in (Inr (index\<lparr>idx_Interleave := ancestorPrefix @ [intl]\<rparr>), w1)))))))"

text \<open>The body of the loop of \<^verbatim>\<open>finalizeInterleave\<close>, lines 597 to 611, for one ancestor.\<close>

definition finalizeInterleave_ancestor ::
  "collaborators \<Rightarrow> nat \<Rightarrow> nat \<Rightarrow> InterleaveDescriptor_Ancestor \<Rightarrow> world \<Rightarrow> error option \<times> world" where
  "finalizeInterleave_ancestor env desc indexID ancestor w =
     (case getTableDescFromID env w (anc_TableID ancestor) of
        (Inl e, w1) \<Rightarrow> (Some e, w1)
      | (Inr p, w1) \<Rightarrow>
     (case load w1 p of
        Inl e \<Rightarrow> (Some e, w1)
      | Inr ancestorTable \<Rightarrow>
     (case FindIndexByID ancestorTable (anc_IndexID ancestor) of
        Inl e \<Rightarrow> (Some e, w1)
      | Inr ancestorIndex \<Rightarrow>
     (case load w1 desc of
        Inl e \<Rightarrow> (Some e, w1)
      | Inr descv \<Rightarrow>
          saveNonmutationAndNotify env p
            (store w1 p
               (updateIndexAt ancestorTable ancestorIndex
                  (\<lambda>i. i\<lparr>idx_InterleavedBy := idx_InterleavedBy i @
                          [\<lparr>fk_Table = tbl_ID descv, fk_Index = indexID, fk_Name = ''''\<rparr>]\<rparr>)))))))"

definition finalizeInterleave :: "collaborators \<Rightarrow> nat \<Rightarrow> IndexDescriptor \<Rightarrow> world \<Rightarrow> error option \<times> world" where
  "finalizeInterleave env desc index w =
     forEach (finalizeInterleave_ancestor env desc (idx_ID index)) (idx_Interleave index) w"

section \<open>CREATE INDEX: Start\<close>


record createIndexNode =
  cin_session :: session
  cin_n :: CreateIndex_stmt
  cin_tableDesc :: nat




section \<open>CREATE TABLE: Start\<close>

record createTableNode =
  ctn_session :: session
  ctn_n :: CreateTable_stmt
  ctn_dbDesc :: DatabaseDescriptor

text \<open>
  Modelled from the spec: \<^verbatim>\<open>TableDescriptor.AddColumn\<close>, \<^verbatim>\<open>AddIndex\<close> and
  \<^verbatim>\<open>AllNonDropIndexes\<close> are methods of \<^verbatim>\<open>sqlbase\<close>. A table's columns are ordered by
  insertion; an index added as primary becomes the table's primary index, any other is
  appended to the table's indexes; the indexes that are not being dropped are the
  primary index, the table's indexes and the pending indexes of \<open>ADD\<close> mutations.
\<close>

definition AddColumn :: "TableDescriptor \<Rightarrow> ColumnDescriptor \<Rightarrow> TableDescriptor" where
  "AddColumn desc col = desc\<lparr>tbl_Columns := tbl_Columns desc @ [col]\<rparr>"

definition AddIndex :: "TableDescriptor \<Rightarrow> IndexDescriptor \<Rightarrow> bool \<Rightarrow> error + TableDescriptor" where
  "AddIndex desc idx primary =
     (if primary then Inr (desc\<lparr>tbl_PrimaryIndex := idx\<rparr>)
      else Inr (desc\<lparr>tbl_Indexes := tbl_Indexes desc @ [idx]\<rparr>))"

definition AllNonDropIndexes :: "TableDescriptor \<Rightarrow> IndexDescriptor list" where
  "AllNonDropIndexes desc =
     tbl_PrimaryIndex desc # tbl_Indexes desc @
     List.map_filter
       (\<lambda>m. case mut_Descriptor m of
               MutationIndex idx \<Rightarrow> if mut_Direction m = DescriptorMutation_ADD then Some idx else None
             | MutationColumn c \<Rightarrow> None)
       (tbl_Mutations desc)"

text \<open>Lines 276 to 297: ensure a primary key exists.\<close>

definition Start_ensurePrimaryKey :: "TableDescriptor \<Rightarrow> error + TableDescriptor" where
  "Start_ensurePrimaryKey desc =
     (if length (idx_ColumnNames (tbl_PrimaryIndex desc)) = 0 then
        (let s = ''unique_rowid()'';
             col = \<lparr>col_Name = ''rowid'', col_ID = 0,
                    col_Type = \<lparr>ctype_Kind = ColumnType_INT, ctype_Width = 0, ctype_Precision = 0\<rparr>,
                    col_Nullable = False, col_DefaultExpr = Some s, col_Hidden = True\<rparr>;
             desc1 = AddColumn desc col;
             idx = \<lparr>idx_Name = '''', idx_ID = 0, idx_Unique = True,
                    idx_ColumnNames = [col_Name col],
                    idx_ColumnDirections = [IndexDescriptor_ASC], idx_StoreColumnNames = [],
                    idx_ColumnIDs = [], idx_ForeignKey = None, idx_ReferencedBy = [],
                    idx_Interleave = [], idx_InterleavedBy = []\<rparr>
         in AddIndex desc1 idx True)
      else Inr desc)"

text \<open>
  Lines 268 to 301: the descriptor of the new table before it is linked to other
  tables. \<^verbatim>\<open>hoistConstraints\<close> changes the statement of the node, which the later loop
  over the column definitions reads.
\<close>

definition Start_newDescriptor :: "collaborators \<Rightarrow> createTableNode \<Rightarrow> error + TableDescriptor" where
  "Start_newDescriptor env node =
     (case c_MakeTableDesc env (hoistConstraints (ctn_n node)) (db_ID (ctn_dbDesc node)) of
        Inl e \<Rightarrow> Inl e
      | Inr desc0 \<Rightarrow>
     (case Start_ensurePrimaryKey (desc0\<lparr>tbl_Privileges := db_Privileges (ctn_dbDesc node)\<rparr>) of
        Inl e \<Rightarrow> Inl e
      | Inr desc1 \<Rightarrow>
     (case c_AllocateIDs env desc1 of
        (Some e, desc2) \<Rightarrow> Inl e
      | (None, desc2) \<Rightarrow> Inr desc2)))"

text \<open>Lines 303 to 307: the interleaving of the primary index.\<close>

definition Start_tableInterleave ::
  "collaborators \<Rightarrow> createTableNode \<Rightarrow> nat \<Rightarrow> world \<Rightarrow> error option \<times> world" where
  "Start_tableInterleave env node desc w =
     (case ct_Interleave (ctn_n node) of
        None \<Rightarrow> (None, w)
      | Some interleave \<Rightarrow>
     (case load w desc of
        Inl e \<Rightarrow> (Some e, w)
      | Inr descv \<Rightarrow>
     (case addInterleave env descv (tbl_PrimaryIndex descv) interleave w of
        (Inl e, w1) \<Rightarrow> (Some e, w1)
      | (Inr index1, w1) \<Rightarrow> (None, store w1 desc (descv\<lparr>tbl_PrimaryIndex := index1\<rparr>)))))"

text \<open>Lines 311 to 322: the foreign keys of the column definitions, in order.\<close>

fun Start_resolveFKs ::
  "collaborators \<Rightarrow> nat \<Rightarrow> TableDef list \<Rightarrow> world \<Rightarrow> (error + fkTargetUpdate list) \<times> world" where
  "Start_resolveFKs env desc [] w = (Inr [], w)"
| "Start_resolveFKs env desc (ColumnDef col # defs) w =
     (case ctd_References_Table col of
        None \<Rightarrow> Start_resolveFKs env desc defs w
      | Some targetTable \<Rightarrow>
          (case resolveColFK env desc (ctd_Name col) targetTable (ctd_References_Col col)
                  (ctd_References_ConstraintName col) w of
             (Inl e, w1) \<Rightarrow> (Inl e, w1)
           | (Inr modified, w1) \<Rightarrow>
               (case Start_resolveFKs env desc defs w1 of
                  (Inl e, w2) \<Rightarrow> (Inl e, w2)
                | (Inr fkTargets, w2) \<Rightarrow> (Inr (modified # fkTargets), w2))))"
| "Start_resolveFKs env desc (d # defs) w = Start_resolveFKs env desc defs w"

text \<open>
  Lines 326 to 334: the descriptor is validated with a placeholder ID when it has none;
  \<^verbatim>\<open>keys.MaxReservedDescID\<close> is a constant of another package and a parameter here.
\<close>

definition Start_validate :: "collaborators \<Rightarrow> nat \<Rightarrow> TableDescriptor \<Rightarrow> error option" where
  "Start_validate env maxReservedDescID desc =
     c_Validate env (if tbl_ID desc = 0 then desc\<lparr>tbl_ID := maxReservedDescID + 1\<rparr> else desc)"

text \<open>Lines 346 to 352: the back-references of every interleaved index of the table.\<close>

definition Start_finalizeInterleaves :: "collaborators \<Rightarrow> nat \<Rightarrow> world \<Rightarrow> error option \<times> world" where
  "Start_finalizeInterleaves env desc w =
     (case load w desc of
        Inl e \<Rightarrow> (Some e, w)
      | Inr descv \<Rightarrow>
          forEach (\<lambda>index w'. if length (idx_Interleave index) > 0
                              then finalizeInterleave env desc index w'
                              else (None, w'))
            (AllNonDropIndexes descv) w)"

text \<open>
  \<^verbatim>\<open>createTableNode.Start\<close>. The local variable \<^verbatim>\<open>desc\<close> is a new object of the heap; its
  pointer is the length of the heap before. \<^verbatim>\<open>createDescriptor\<close> belongs to the planner:
  it reports whether the descriptor was created and, if so, has given it its ID
  (\<open>c_createDescriptor\<close> returns that ID).
\<close>

definition createTableNode_Start ::
  "collaborators \<Rightarrow> nat \<Rightarrow> createTableNode \<Rightarrow> world \<Rightarrow> error option \<times> world" where
  "createTableNode_Start env maxReservedDescID node w =
     (case Start_newDescriptor env node of
        Inl e \<Rightarrow> (Some e, w)
      | Inr desc0 \<Rightarrow>
          (let desc = length (heap w);
               n = hoistConstraints (ctn_n node);
               w0 = w\<lparr>heap := heap w @ [desc0]\<rparr>
           in
     (case Start_tableInterleave env node desc w0 of
        (Some e, w1) \<Rightarrow> (Some e, w1)
      | (None, w1) \<Rightarrow>
     (case Start_resolveFKs env desc (ct_Defs n) w1 of
        (Inl e, w2) \<Rightarrow> (Some e, w2)
      | (Inr fkTargets, w2) \<Rightarrow>
     (case load w2 desc of
        Inl e \<Rightarrow> (Some e, w2)
      | Inr desc1 \<Rightarrow>
     (case Start_validate env maxReservedDescID desc1 of
        Some e \<Rightarrow> (Some e, w2)
      | None \<Rightarrow>
     (case c_createDescriptor env w2 (db_ID (ctn_dbDesc node), ct_Table n) desc1 (ct_IfNotExists n) of
        Inl e \<Rightarrow> (Some e, w2)
      | Inr created \<Rightarrow>
          (let w3 = (case created of
                       None \<Rightarrow> w2
                     | Some newID \<Rightarrow> store w2 desc (desc1\<lparr>tbl_ID := newID\<rparr>))
           in
     (case finalizeFKs env desc fkTargets w3 of
        (Some e, w4) \<Rightarrow> (Some e, w4)
      | (None, w4) \<Rightarrow>
     (case Start_finalizeInterleaves env desc w4 of
        (Some e, w5) \<Rightarrow> (Some e, w5)
      | (None, w5) \<Rightarrow>
          if created \<noteq> None then
            (case load w5 desc of
               Inl e \<Rightarrow> (Some e, w5)
             | Inr desc2 \<Rightarrow>
                 (let ev = \<lparr>ev_Type = EventLogCreateTable, ev_TargetID = tbl_ID desc2,
                            ev_Name = ct_Table n, ev_IndexName = '''',
                            ev_User = session_User (ctn_session node), ev_MutationID = 0\<rparr>
                  in case c_InsertEventRecord env w5 ev of
                       Some e \<Rightarrow> (Some e, w5)
                     | None \<Rightarrow> (None, w5\<lparr>events := events w5 @ [ev]\<rparr>)))
          else (None, w5)))))))))))"

section \<open>Vocabulary of the properties\<close>

text \<open>An index leads with a column when the column is its first key column.\<close>

definition leadsWith :: "nat \<Rightarrow> IndexDescriptor \<Rightarrow> bool" where
  "leadsWith cid idx = (case idx_ColumnIDs idx of [] \<Rightarrow> False | c # cs \<Rightarrow> c = cid)"

text \<open>The indexes of a table: the primary index, then the others in order.\<close>

definition allIndexes :: "TableDescriptor \<Rightarrow> IndexDescriptor list" where
  "allIndexes desc = tbl_PrimaryIndex desc # tbl_Indexes desc"

section \<open>An example catalogue\<close>

text \<open>
  Concrete descriptors and collaborators on which the properties below are evaluated.
  The table \<open>abc (a INT PRIMARY KEY, b INT, c INT)\<close> has ID 51 and two unique indexes on
  \<open>b\<close>; it is in memory at pointer 0, and the example lookups return that pointer.
\<close>

definition exampleColumn :: "string \<Rightarrow> nat \<Rightarrow> ColumnType_Kind \<Rightarrow> ColumnDescriptor" where
  "exampleColumn name cid kind =
     \<lparr>col_Name = name, col_ID = cid,
      col_Type = \<lparr>ctype_Kind = kind, ctype_Width = 0, ctype_Precision = 0\<rparr>,
      col_Nullable = True, col_DefaultExpr = None, col_Hidden = False\<rparr>"

definition exampleIndex :: "string \<Rightarrow> nat \<Rightarrow> bool \<Rightarrow> string list \<Rightarrow> nat list \<Rightarrow> IndexDescriptor" where
  "exampleIndex name iid unique names ids =
     \<lparr>idx_Name = name, idx_ID = iid, idx_Unique = unique, idx_ColumnNames = names,
      idx_ColumnDirections = map (\<lambda>c. IndexDescriptor_ASC) names, idx_StoreColumnNames = [],
      idx_ColumnIDs = ids, idx_ForeignKey = None, idx_ReferencedBy = [], idx_Interleave = [],
      idx_InterleavedBy = []\<rparr>"

definition exampleTable ::
  "string \<Rightarrow> nat \<Rightarrow> ColumnDescriptor list \<Rightarrow> IndexDescriptor \<Rightarrow> IndexDescriptor list \<Rightarrow> TableDescriptor" where
  "exampleTable name tid cols primary indexes =
     \<lparr>tbl_Name = name, tbl_ID = tid, tbl_ParentID = 50, tbl_UpVersion = False, tbl_Columns = cols,
      tbl_PrimaryIndex = primary, tbl_Indexes = indexes, tbl_Mutations = [],
      tbl_NextMutationID = 1, tbl_State = TableDescriptor_PUBLIC, tbl_Privileges = []\<rparr>"

definition abc :: TableDescriptor where
  "abc = exampleTable ''abc'' 51
     [exampleColumn ''a'' 1 ColumnType_INT, exampleColumn ''b'' 2 ColumnType_INT,
      exampleColumn ''c'' 3 ColumnType_INT]
     (exampleIndex ''primary'' 1 True [''a''] [1])
     [exampleIndex ''abc_b_key'' 2 True [''b''] [2], exampleIndex ''abc_b_idx'' 3 True [''b''] [2]]"

text \<open>
  An example of the descriptor builder: the columns of the statement in order, the
  primary index over the columns declared PRIMARY KEY, one unique index per column
  declared UNIQUE; and of the ID allocator: columns are numbered from 1 in order, the
  primary index gets ID 1 and the others follow, and the column IDs of an index are
  those of its column names.
\<close>

fun exampleColumns :: "TableDef list \<Rightarrow> ColumnDescriptor list" where
  "exampleColumns [] = []"
| "exampleColumns (ColumnDef col # ds) =
     (exampleColumn (ctd_Name col) 0 (ctd_Kind col))\<lparr>col_Nullable := ctd_Nullable col\<rparr> #
     exampleColumns ds"
| "exampleColumns (d # ds) = exampleColumns ds"

fun examplePrimaryKey :: "TableDef list \<Rightarrow> string list" where
  "examplePrimaryKey [] = []"
| "examplePrimaryKey (ColumnDef col # ds) =
     (if ctd_PrimaryKey col then ctd_Name col # examplePrimaryKey ds else examplePrimaryKey ds)"
| "examplePrimaryKey (d # ds) = examplePrimaryKey ds"

fun exampleUniqueIndexes :: "TableDef list \<Rightarrow> IndexDescriptor list" where
  "exampleUniqueIndexes [] = []"
| "exampleUniqueIndexes (ColumnDef col # ds) =
     (if ctd_Unique col
      then exampleIndex (ctd_Name col @ ''_key'') 0 True [ctd_Name col] [] # exampleUniqueIndexes ds
      else exampleUniqueIndexes ds)"
| "exampleUniqueIndexes (d # ds) = exampleUniqueIndexes ds"

definition exampleMakeTableDesc :: "CreateTable_stmt \<Rightarrow> nat \<Rightarrow> error + TableDescriptor" where
  "exampleMakeTableDesc n parentID =
     Inr ((exampleTable (ct_Table n) 0 (exampleColumns (ct_Defs n))
             (exampleIndex ''primary'' 0 True (examplePrimaryKey (ct_Defs n)) [])
             (exampleUniqueIndexes (ct_Defs n)))\<lparr>tbl_ParentID := parentID\<rparr>)"

fun exampleNumberColumns :: "nat \<Rightarrow> ColumnDescriptor list \<Rightarrow> ColumnDescriptor list" where
  "exampleNumberColumns k [] = []"
| "exampleNumberColumns k (c # cs) = c\<lparr>col_ID := k\<rparr> # exampleNumberColumns (Suc k) cs"

fun exampleNumberIndexes :: "ColumnDescriptor list \<Rightarrow> nat \<Rightarrow> IndexDescriptor list \<Rightarrow> IndexDescriptor list" where
  "exampleNumberIndexes cols k [] = []"
| "exampleNumberIndexes cols k (i # is) =
     i\<lparr>idx_ID := k,
       idx_ColumnIDs := map (\<lambda>name. case List.find (\<lambda>c. col_Name c = name) cols of
                                       Some c \<Rightarrow> col_ID c | None \<Rightarrow> 0) (idx_ColumnNames i)\<rparr> #
     exampleNumberIndexes cols (Suc k) is"

definition exampleAllocateIDs :: "TableDescriptor \<Rightarrow> error option \<times> TableDescriptor" where
  "exampleAllocateIDs desc =
     (let cols = exampleNumberColumns 1 (tbl_Columns desc)
      in (None, desc\<lparr>tbl_Columns := cols,
                     tbl_PrimaryIndex := hd (exampleNumberIndexes cols 1 [tbl_PrimaryIndex desc]),
                     tbl_Indexes := exampleNumberIndexes cols 2 (tbl_Indexes desc)\<rparr>))"

definition exampleCollaborators :: collaborators where
  "exampleCollaborators =
     \<lparr>c_NormalizeName = (\<lambda>s. s),
      c_NameString = (\<lambda>s. s),
      c_MakeTableDesc = exampleMakeTableDesc,
      c_AllocateIDs = exampleAllocateIDs,
      c_Validate = (\<lambda>d. None),
      c_SetUpVersion = (\<lambda>d. None),
      c_FinalizeMutation =
        (\<lambda>d. (Inr (tbl_NextMutationID d), d\<lparr>tbl_NextMutationID := Suc (tbl_NextMutationID d)\<rparr>)),
      c_FillColumns =
        (\<lambda>idx cols. (None, idx\<lparr>idx_ColumnNames := map fst cols, idx_ColumnDirections := map snd cols\<rparr>)),
      c_getTableDesc = (\<lambda>w name. if name = ''abc'' then (Inr (Some 0), []) else (Inr None, [])),
      c_mustGetTableDesc =
        (\<lambda>w name. if name = ''abc'' then (Inr 0, []) else (Inl (errExternal ''no such table''), [])),
      c_getTableDescFromID =
        (\<lambda>w tid. if tid = 51 then (Inr 0, []) else (Inl (errExternal ''no such table''), [])),
      c_writeTableDesc = (\<lambda>w d. None),
      c_createDescriptor = (\<lambda>w key d ifNotExists. Inr (Some 52)),
      c_InsertEventRecord = (\<lambda>w ev. None)\<rparr>"

definition exampleWorld :: world where
  "exampleWorld = \<lparr>heap = [abc], written = [], notified = [], events = []\<rparr>"

definition exampleColumnDef :: "string \<Rightarrow> bool \<Rightarrow> bool \<Rightarrow> string option \<Rightarrow> string \<Rightarrow> TableDef" where
  "exampleColumnDef name pk unique refTable refCol =
     ColumnDef \<lparr>ctd_Name = name, ctd_Kind = ColumnType_INT, ctd_Nullable = True,
                ctd_PrimaryKey = pk, ctd_Unique = unique, ctd_DefaultExpr = None,
                ctd_CheckExpr_Expr = None, ctd_CheckExpr_ConstraintName = '''',
                ctd_References_Table = refTable, ctd_References_Col = refCol,
                ctd_References_ConstraintName = ''''\<rparr>"

definition exampleCreateTable :: "TableDef list \<Rightarrow> createTableNode" where
  "exampleCreateTable defs =
     \<lparr>ctn_session = \<lparr>session_User = ''root'', session_Database = ''test''\<rparr>,
      ctn_n = \<lparr>ct_IfNotExists = False, ct_Table = ''xyz'', ct_Interleave = None, ct_Defs = defs\<rparr>,
      ctn_dbDesc = \<lparr>db_Name = ''test'', db_ID = 50, db_Privileges = []\<rparr>\<rparr>"

text \<open>
  The table \<open>xyz (x INT PRIMARY KEY, y INT UNIQUE, z INT)\<close> as it is after ID allocation
  and before it is created (ID 0), at pointer 1.
\<close>

definition xyz :: TableDescriptor where
  "xyz = exampleTable ''xyz'' 0
     [exampleColumn ''x'' 1 ColumnType_INT, exampleColumn ''y'' 2 ColumnType_INT,
      exampleColumn ''z'' 3 ColumnType_INT]
     (exampleIndex ''primary'' 1 True [''x''] [1])
     [exampleIndex ''y_key'' 2 True [''y''] [2]]"

definition exampleWorld2 :: world where
  "exampleWorld2 = \<lparr>heap = [abc, xyz], written = [], notified = [], events = []\<rparr>"

text \<open>
  \<open>abc\<close> with two pending mutations: the index \<open>old_idx\<close> is being dropped, the index
  \<open>new_idx\<close> is being added.
\<close>

definition abcWithMutations :: TableDescriptor where
  "abcWithMutations =
     abc\<lparr>tbl_Mutations :=
           [\<lparr>mut_Descriptor = MutationIndex (exampleIndex ''old_idx'' 4 False [''c''] [3]),
             mut_Direction = DescriptorMutation_DROP, mut_MutationID = 1\<rparr>,
            \<lparr>mut_Descriptor = MutationIndex (exampleIndex ''new_idx'' 5 False [''c''] [3]),
             mut_Direction = DescriptorMutation_ADD, mut_MutationID = 2\<rparr>],
         tbl_NextMutationID := 3\<rparr>"

definition exampleIndexWorld :: world where
  "exampleIndexWorld = \<lparr>heap = [abcWithMutations], written = [], notified = [], events = []\<rparr>"

definition exampleCreateIndex :: "string \<Rightarrow> bool \<Rightarrow> createIndexNode" where
  "exampleCreateIndex name ifNotExists =
     \<lparr>cin_session = \<lparr>session_User = ''root'', session_Database = ''test''\<rparr>,
      cin_n = \<lparr>ci_Name = name, ci_Table = ''abc'', ci_Unique = False, ci_IfNotExists = ifNotExists,
               ci_Columns = [(''c'', IndexDescriptor_ASC)], ci_Storing = [], ci_Interleave = None\<rparr>,
      cin_tableDesc = 0\<rparr>"

text \<open>
  A parent table with the primary key \<open>(a, b)\<close> that is itself interleaved in a table
  with a one-column primary key, and a child with the primary key \<open>(a, b, c)\<close>.
\<close>

definition interleavedParent :: TableDescriptor where
  "interleavedParent = exampleTable ''abc'' 51
     [exampleColumn ''a'' 1 ColumnType_INT, exampleColumn ''b'' 2 ColumnType_INT]
     ((exampleIndex ''primary'' 1 True [''a'', ''b''] [1, 2])
        \<lparr>idx_Interleave := [\<lparr>anc_TableID = 40, anc_IndexID = 1, anc_SharedPrefixLen = 1\<rparr>]\<rparr>)
     []"

definition interleavedChild :: TableDescriptor where
  "interleavedChild = exampleTable ''child'' 0
     [exampleColumn ''a'' 1 ColumnType_INT, exampleColumn ''b'' 2 ColumnType_INT,
      exampleColumn ''c'' 3 ColumnType_INT]
     (exampleIndex ''primary'' 1 True [''a'', ''b'', ''c''] [1, 2, 3])
     []"

definition exampleInterleaveWorld :: world where
  "exampleInterleaveWorld = \<lparr>heap = [interleavedParent], written = [], notified = [], events = []\<rparr>"

definition exampleInterleaveDef :: InterleaveDef where
  "exampleInterleaveDef = \<lparr>ild_Parent = ''abc'', ild_Fields = [''a'', ''b''], ild_DropBehavior = DropDefault\<rparr>"

definition exampleWorld3 :: world where
  "exampleWorld3 = \<lparr>heap = [interleavedParent, xyz], written = [], notified = [], events = []\<rparr>"

text \<open>The position in \<open>allIndexes\<close> of the index a pointer into the descriptor points to.\<close>

fun refPos :: "indexRef \<Rightarrow> nat" where
  "refPos PrimaryIndexRef = 0"
| "refPos (SecondaryIndexRef i) = Suc i"

text \<open>
  The elementary changes \<^verbatim>\<open>create.go\<close> makes to a descriptor in memory: on an index it
  appends a back-reference without a name to \<^verbatim>\<open>ReferencedBy\<close>, appends to
  \<^verbatim>\<open>InterleavedBy\<close>, sets \<^verbatim>\<open>ForeignKey\<close> or sets the ancestors of \<^verbatim>\<open>Interleave\<close>; on a table
  it marks the version, sets the state or the ID, or changes one of its indexes so.
\<close>

inductive indexStep :: "IndexDescriptor \<Rightarrow> IndexDescriptor \<Rightarrow> bool" where
  referencedBy: "fk_Name b = '''' \<Longrightarrow> indexStep i (i\<lparr>idx_ReferencedBy := idx_ReferencedBy i @ [b]\<rparr>)"
| interleavedBy: "indexStep i (i\<lparr>idx_InterleavedBy := idx_InterleavedBy i @ [b]\<rparr>)"
| foreignKey: "indexStep i (i\<lparr>idx_ForeignKey := Some fk\<rparr>)"
| interleave: "indexStep i (i\<lparr>idx_Interleave := ancestors\<rparr>)"

inductive descStep :: "TableDescriptor \<Rightarrow> TableDescriptor \<Rightarrow> bool" where
  upVersion: "descStep d (d\<lparr>tbl_UpVersion := True\<rparr>)"
| state: "descStep d (d\<lparr>tbl_State := s\<rparr>)"
| newID: "descStep d (d\<lparr>tbl_ID := n\<rparr>)"
| primary: "indexStep (tbl_PrimaryIndex d) i \<Longrightarrow> descStep d (d\<lparr>tbl_PrimaryIndex := i\<rparr>)"
| secondary: "k < length (tbl_Indexes d) \<Longrightarrow> indexStep (tbl_Indexes d ! k) i \<Longrightarrow>
              descStep d (d\<lparr>tbl_Indexes := (tbl_Indexes d)[k := i]\<rparr>)"

text \<open>
  A world \<open>w'\<close> extends \<open>w\<close> under a relation on descriptors when every object of \<open>w\<close> is
  still in memory at its pointer and is related to what it was.
\<close>

definition heapRel :: "(TableDescriptor \<Rightarrow> TableDescriptor \<Rightarrow> bool) \<Rightarrow> world \<Rightarrow> world \<Rightarrow> bool" where
  "heapRel Q w w' =
     (length (heap w) \<le> length (heap w') \<and> list_all2 Q (heap w) (take (length (heap w)) (heap w')))"

abbreviation steps :: "world \<Rightarrow> world \<Rightarrow> bool" where
  "steps \<equiv> heapRel descStep\<^sup>*\<^sup>*"

text \<open>A column without its ID: name, type, nullability, default expression, visibility.\<close>

definition columnShape :: "ColumnDescriptor \<Rightarrow> ColumnDescriptor" where
  "columnShape c = c\<lparr>col_ID := 0\<rparr>"



text \<open>
  What finalising the target updates \<open>ts\<close> of a table with ID \<open>newID\<close> at pointer \<open>desc\<close>
  does to the index \<open>old\<close> of the table at pointer \<open>p\<close>: the back-references of the
  updates that name this table and this index are appended in order, and when the
  index is a source index of a self-reference, the table ID of its forward reference
  becomes \<open>newID\<close>.
\<close>

definition finalizedIndex ::
  "nat \<Rightarrow> fkTargetUpdate list \<Rightarrow> nat \<Rightarrow> nat \<Rightarrow> IndexDescriptor \<Rightarrow> IndexDescriptor \<Rightarrow> bool" where
  "finalizedIndex newID ts desc p old new =
     (idx_ID new = idx_ID old \<and>
      idx_ReferencedBy new =
        idx_ReferencedBy old @
        map (\<lambda>t. \<lparr>fk_Table = newID, fk_Index = ftu_srcIdx t, fk_Name = ''''\<rparr>)
          (filter (\<lambda>t. ftu_target t = p \<and> ftu_targetIdx t = idx_ID old) ts) \<and>
      idx_ForeignKey new =
        (if p = desc \<and> list_ex (\<lambda>t. ftu_target t = desc \<and> ftu_srcIdx t = idx_ID old) ts
         then map_option (\<lambda>fk. fk\<lparr>fk_Table := newID\<rparr>) (idx_ForeignKey old)
         else idx_ForeignKey old))"

definition finalizedWorld :: "nat \<Rightarrow> fkTargetUpdate list \<Rightarrow> nat \<Rightarrow> world \<Rightarrow> world \<Rightarrow> bool" where
  "finalizedWorld newID ts desc w w' =
     (length (heap w') = length (heap w) \<and>
      (\<forall>p<length (heap w).
         tbl_ID (heap w' ! p) = tbl_ID (heap w ! p) \<and>
         list_all2 (finalizedIndex newID ts desc p) (allIndexes (heap w ! p)) (allIndexes (heap w' ! p))))"

text \<open>Every table in memory has pairwise distinct index IDs.\<close>

definition distinctIndexIDs :: "world \<Rightarrow> bool" where
  "distinctIndexIDs w = list_all (\<lambda>d. distinct (map idx_ID (allIndexes d))) (heap w)"

text \<open>
  What resolving the foreign keys \<open>ts\<close> (in order) has done to the index \<open>old\<close> of the
  table being created, in the world \<open>w'\<close> after it: if the index is the source index of
  one of them, it carries the forward reference of the last such, pointing to the ID of
  its target table and to its target index; otherwise its forward reference is as
  before. Its back-references are as before.
\<close>

definition resolvedIndex :: "fkTargetUpdate list \<Rightarrow> world \<Rightarrow> IndexDescriptor \<Rightarrow> IndexDescriptor \<Rightarrow> bool" where
  "resolvedIndex ts w' old new =
     (idx_ID new = idx_ID old \<and> idx_ReferencedBy new = idx_ReferencedBy old \<and>
      (case rev (filter (\<lambda>t. ftu_srcIdx t = idx_ID old) ts) of
         [] \<Rightarrow> idx_ForeignKey new = idx_ForeignKey old
       | t # earlier \<Rightarrow>
           (case idx_ForeignKey new of
              None \<Rightarrow> False
            | Some fk \<Rightarrow> fk_Table fk = tbl_ID (heap w' ! ftu_target t) \<and>
                         fk_Index fk = ftu_targetIdx t)))"

definition resolvedWorld :: "nat \<Rightarrow> fkTargetUpdate list \<Rightarrow> world \<Rightarrow> world \<Rightarrow> bool" where
  "resolvedWorld desc ts w w' =
     (desc < length (heap w) \<and> length (heap w) \<le> length (heap w') \<and>
      (\<forall>p<length (heap w). p \<noteq> desc \<longrightarrow> heap w' ! p = heap w ! p) \<and>
      tbl_ID (heap w' ! desc) = tbl_ID (heap w ! desc) \<and>
      list_all2 (resolvedIndex ts w') (allIndexes (heap w ! desc)) (allIndexes (heap w' ! desc)) \<and>
      list_all (\<lambda>t. ftu_target t < length (heap w') \<and>
                     ftu_srcIdx t \<in> idx_ID ` set (allIndexes (heap w ! desc))) ts)"

section \<open>Properties of CREATE DATABASE planning\<close>

lemma EqualFold_refl: "EqualFold s s"
  by (simp add: EqualFold_def)

text \<open>
  C9. \<^verbatim>\<open>CreateDatabase\<close> applies three checks in this order. An empty name fails with
  \<open>errEmptyDatabaseName\<close>, whatever the encoding and the user. With a non-empty name, an
  encoding that resolves to a string which is none of UTF8, UTF-8, UNICODE under case
  folding fails with the error naming that string, whatever the user. With a non-empty
  name and no encoding or an accepted one, a session user other than root fails with
  the only-root error, and root gets the plan node holding the statement. The function
  computes its result from the session and the statement alone: planning writes
  nothing, the descriptor is created by the node's \<^verbatim>\<open>Start\<close>.
\<close>

theorem CreateDatabase_checks_in_order:
  "(cd_Name n = '''' \<longrightarrow> CreateDatabase R p n = Inl errEmptyDatabaseName)
   \<and> (cd_Name n \<noteq> '''' \<and> cd_Encoding n = Some enc \<and> R enc = Inr s \<and>
        \<not> (EqualFold s ''UTF8'' \<or> EqualFold s ''UTF-8'' \<or> EqualFold s ''UNICODE'')
        \<longrightarrow> CreateDatabase R p n = Inl (errNotSupportedEncoding s))
   \<and> (cd_Name n \<noteq> '''' \<and>
        (cd_Encoding n = None \<or>
         (\<exists>e t. cd_Encoding n = Some e \<and> R e = Inr t \<and>
            (EqualFold t ''UTF8'' \<or> EqualFold t ''UTF-8'' \<or> EqualFold t ''UNICODE'')))
        \<longrightarrow> CreateDatabase R p n =
             (if session_User p \<noteq> RootUser then Inl (errOnlyRootAllowed RootUser)
              else Inr \<lparr>cdn_session = p, cdn_n = n\<rparr>))"
  by (auto simp: CreateDatabase_def)

theorem CreateDatabase_checks_in_order_witness:
  "CreateDatabase (\<lambda>e. case e of SQLExpr x \<Rightarrow> Inr x)
      \<lparr>session_User = ''alice'', session_Database = ''d''\<rparr>
      \<lparr>cd_IfNotExists = False, cd_Name = '''', cd_Encoding = Some (SQLExpr ''LATIN1'')\<rparr>
     = Inl errEmptyDatabaseName
   \<and> CreateDatabase (\<lambda>e. case e of SQLExpr x \<Rightarrow> Inr x)
      \<lparr>session_User = ''alice'', session_Database = ''d''\<rparr>
      \<lparr>cd_IfNotExists = False, cd_Name = ''b'', cd_Encoding = Some (SQLExpr ''LATIN1'')\<rparr>
     = Inl (errNotSupportedEncoding ''LATIN1'')
   \<and> CreateDatabase (\<lambda>e. case e of SQLExpr x \<Rightarrow> Inr x)
      \<lparr>session_User = ''alice'', session_Database = ''d''\<rparr>
      \<lparr>cd_IfNotExists = False, cd_Name = ''b'', cd_Encoding = Some (SQLExpr ''utf-8'')\<rparr>
     = Inl (errOnlyRootAllowed ''root'')
   \<and> CreateDatabase (\<lambda>e. case e of SQLExpr x \<Rightarrow> Inr x)
      \<lparr>session_User = ''root'', session_Database = ''d''\<rparr>
      \<lparr>cd_IfNotExists = False, cd_Name = ''b'', cd_Encoding = Some (SQLExpr ''Unicode'')\<rparr>
     = Inr \<lparr>cdn_session = \<lparr>session_User = ''root'', session_Database = ''d''\<rparr>,
            cdn_n = \<lparr>cd_IfNotExists = False, cd_Name = ''b'',
                     cd_Encoding = Some (SQLExpr ''Unicode'')\<rparr>\<rparr>"
proof -
  let ?R = "\<lambda>e. case e of SQLExpr x \<Rightarrow> (Inr x :: error + string)"
  let ?alice = "\<lparr>session_User = ''alice'', session_Database = ''d''\<rparr>"
  let ?root = "\<lparr>session_User = ''root'', session_Database = ''d''\<rparr>"
  have folds:
    "\<not> EqualFold ''LATIN1'' ''UTF8''" "\<not> EqualFold ''LATIN1'' ''UTF-8''"
    "\<not> EqualFold ''LATIN1'' ''UNICODE''" "EqualFold ''utf-8'' ''UTF-8''"
    "EqualFold ''Unicode'' ''UNICODE''"
    by (simp_all add: EqualFold_def toUpperASCII_def)
  note t = CreateDatabase_checks_in_order
  have a: "CreateDatabase ?R ?alice
      \<lparr>cd_IfNotExists = False, cd_Name = '''', cd_Encoding = Some (SQLExpr ''LATIN1'')\<rparr>
     = Inl errEmptyDatabaseName"
    using t [of "\<lparr>cd_IfNotExists = False, cd_Name = '''', cd_Encoding = Some (SQLExpr ''LATIN1'')\<rparr>"
               ?R ?alice]
    by simp
  have b: "CreateDatabase ?R ?alice
      \<lparr>cd_IfNotExists = False, cd_Name = ''b'', cd_Encoding = Some (SQLExpr ''LATIN1'')\<rparr>
     = Inl (errNotSupportedEncoding ''LATIN1'')"
    using t [of "\<lparr>cd_IfNotExists = False, cd_Name = ''b'', cd_Encoding = Some (SQLExpr ''LATIN1'')\<rparr>"
               ?R ?alice "SQLExpr ''LATIN1''" "''LATIN1''"] folds
    by simp
  have c: "CreateDatabase ?R ?alice
      \<lparr>cd_IfNotExists = False, cd_Name = ''b'', cd_Encoding = Some (SQLExpr ''utf-8'')\<rparr>
     = Inl (errOnlyRootAllowed ''root'')"
    using t [of "\<lparr>cd_IfNotExists = False, cd_Name = ''b'', cd_Encoding = Some (SQLExpr ''utf-8'')\<rparr>"
               ?R ?alice] folds
    by (simp add: RootUser_def)
  have d: "CreateDatabase ?R ?root
      \<lparr>cd_IfNotExists = False, cd_Name = ''b'', cd_Encoding = Some (SQLExpr ''Unicode'')\<rparr>
     = Inr \<lparr>cdn_session = ?root,
            cdn_n = \<lparr>cd_IfNotExists = False, cd_Name = ''b'',
                     cd_Encoding = Some (SQLExpr ''Unicode'')\<rparr>\<rparr>"
    using t [of "\<lparr>cd_IfNotExists = False, cd_Name = ''b'', cd_Encoding = Some (SQLExpr ''Unicode'')\<rparr>"
               ?R ?root] folds
    by (simp add: RootUser_def)
  from a b c d show ?thesis by simp
qed

section \<open>Properties of hoistConstraints\<close>

lemma hoistLoop_closed_form:
  "hoistLoop ds visited appended =
     visited @ map clearCheckExpr ds @ appended @
     map CheckConstraintDef (List.map_filter columnCheck ds)"
  by (induction ds visited appended rule: hoistLoop.induct)
     (auto simp: Let_def split: option.splits)

lemma hoistConstraints_Defs:
  "ct_Defs (hoistConstraints n) =
     map clearCheckExpr (ct_Defs n) @
     map CheckConstraintDef (List.map_filter columnCheck (ct_Defs n))"
  by (simp add: hoistConstraints_def hoistLoop_closed_form)

lemma tableLevelChecks_append:
  "tableLevelChecks (xs @ ys) = tableLevelChecks xs @ tableLevelChecks ys"
  by (induction xs rule: tableLevelChecks.induct) simp_all

lemma tableLevelChecks_CheckConstraintDef:
  "tableLevelChecks (map CheckConstraintDef cs) = cs"
  by (induction cs) simp_all

lemma tableLevelChecks_clearCheckExpr:
  "tableLevelChecks (map clearCheckExpr ds) = tableLevelChecks ds"
  by (induction ds rule: tableLevelChecks.induct) simp_all

lemma tableLevelChecks_withoutColumnCheck:
  "tableLevelChecks (map withoutColumnCheck ds) = tableLevelChecks ds"
  by (induction ds rule: tableLevelChecks.induct) (simp_all split: option.splits)

lemma tableLevelChecks_dropResidualName:
  "tableLevelChecks (map dropResidualName ds) = tableLevelChecks ds"
  by (induction ds rule: tableLevelChecks.induct) simp_all

lemma hasColumnCheck_clearCheckExpr: "\<not> hasColumnCheck (clearCheckExpr d)"
  by (cases d) simp_all

lemma dropResidualName_clear_without:
  "dropResidualName (clearCheckExpr d) = dropResidualName (withoutColumnCheck d)"
  by (cases d) (simp_all split: option.splits)

lemma dropResidualName_CheckConstraintDef:
  "map dropResidualName (map CheckConstraintDef cs) = map CheckConstraintDef cs"
  by (induction cs) simp_all

lemma dropResidualName_hoist_declared:
  "(hoistConstraints n)\<lparr>ct_Defs := map dropResidualName (ct_Defs (hoistConstraints n))\<rparr> =
   (declaredAtTableLevel n)\<lparr>ct_Defs := map dropResidualName (ct_Defs (declaredAtTableLevel n))\<rparr>"
  by (simp add: hoistConstraints_def hoistLoop_closed_form declaredAtTableLevel_def
      dropResidualName_clear_without dropResidualName_CheckConstraintDef)

text \<open>
  C8. \<^verbatim>\<open>hoistConstraints\<close> keeps every definition in place, sets the expression of each
  column-level CHECK to nil, and appends, in column order, one table-level CHECK
  constraint per column-level CHECK, with the same expression and the same constraint
  name (empty when none was given). No column of the result has a CHECK expression.
  The table-level CHECK constraints of the result are those of the equivalent statement
  that declares the same CHECKs at table level. The two statements differ only in the
  constraint name that stays on a column whose CHECK expression was hoisted, so a
  descriptor builder (\<open>mk\<close>; \<^verbatim>\<open>sqlbase.MakeTableDesc\<close> is not part of \<^verbatim>\<open>create.go\<close>) that
  does not read the name of a CHECK without expression builds the same descriptor
  from both.
\<close>

theorem hoistConstraints_equals_table_level_declaration:
  "ct_Defs (hoistConstraints n) =
     map clearCheckExpr (ct_Defs n) @
     map CheckConstraintDef (List.map_filter columnCheck (ct_Defs n))
   \<and> \<not> list_ex hasColumnCheck (ct_Defs (hoistConstraints n))
   \<and> tableLevelChecks (ct_Defs (hoistConstraints n)) =
       tableLevelChecks (ct_Defs n) @ List.map_filter columnCheck (ct_Defs n)
   \<and> tableLevelChecks (ct_Defs (hoistConstraints n)) =
       tableLevelChecks (ct_Defs (declaredAtTableLevel n))
   \<and> ((\<forall>m. mk m = mk (m\<lparr>ct_Defs := map dropResidualName (ct_Defs m)\<rparr>))
        \<longrightarrow> mk (hoistConstraints n) = mk (declaredAtTableLevel n))"
proof (intro conjI impI)
  show "ct_Defs (hoistConstraints n) =
     map clearCheckExpr (ct_Defs n) @
     map CheckConstraintDef (List.map_filter columnCheck (ct_Defs n))"
    by (rule hoistConstraints_Defs)
  show "\<not> list_ex hasColumnCheck (ct_Defs (hoistConstraints n))"
    by (auto simp: hoistConstraints_Defs list_ex_iff hasColumnCheck_clearCheckExpr)
  show "tableLevelChecks (ct_Defs (hoistConstraints n)) =
       tableLevelChecks (ct_Defs n) @ List.map_filter columnCheck (ct_Defs n)"
    by (simp add: hoistConstraints_Defs tableLevelChecks_append
        tableLevelChecks_clearCheckExpr tableLevelChecks_CheckConstraintDef)
  show "tableLevelChecks (ct_Defs (hoistConstraints n)) =
       tableLevelChecks (ct_Defs (declaredAtTableLevel n))"
    by (simp add: hoistConstraints_Defs declaredAtTableLevel_def tableLevelChecks_append
        tableLevelChecks_clearCheckExpr tableLevelChecks_withoutColumnCheck
        tableLevelChecks_CheckConstraintDef)
  assume mk: "\<forall>m. mk m = mk (m\<lparr>ct_Defs := map dropResidualName (ct_Defs m)\<rparr>)"
  have "mk (hoistConstraints n) =
        mk ((hoistConstraints n)\<lparr>ct_Defs := map dropResidualName (ct_Defs (hoistConstraints n))\<rparr>)"
    using mk by blast
  also have "\<dots> =
        mk ((declaredAtTableLevel n)\<lparr>ct_Defs := map dropResidualName (ct_Defs (declaredAtTableLevel n))\<rparr>)"
    by (simp only: dropResidualName_hoist_declared)
  also have "\<dots> = mk (declaredAtTableLevel n)"
    using mk by metis
  finally show "mk (hoistConstraints n) = mk (declaredAtTableLevel n)" .
qed

theorem hoistConstraints_equals_table_level_declaration_witness:
  "(\<forall>m. tableLevelChecks (ct_Defs m) =
         tableLevelChecks (ct_Defs (m\<lparr>ct_Defs := map dropResidualName (ct_Defs m)\<rparr>)))
   \<and> tableLevelChecks (ct_Defs (hoistConstraints
        \<lparr>ct_IfNotExists = False, ct_Table = ''t'', ct_Interleave = None,
         ct_Defs = [ColumnDef \<lparr>ctd_Name = ''a'', ctd_Kind = ColumnType_INT, ctd_Nullable = True,
                      ctd_PrimaryKey = True, ctd_Unique = False, ctd_DefaultExpr = None,
                      ctd_CheckExpr_Expr = Some (SQLExpr ''a > 0''),
                      ctd_CheckExpr_ConstraintName = ''pos'',
                      ctd_References_Table = None, ctd_References_Col = '''',
                      ctd_References_ConstraintName = ''''\<rparr>]\<rparr>))
     = tableLevelChecks (ct_Defs (declaredAtTableLevel
        \<lparr>ct_IfNotExists = False, ct_Table = ''t'', ct_Interleave = None,
         ct_Defs = [ColumnDef \<lparr>ctd_Name = ''a'', ctd_Kind = ColumnType_INT, ctd_Nullable = True,
                      ctd_PrimaryKey = True, ctd_Unique = False, ctd_DefaultExpr = None,
                      ctd_CheckExpr_Expr = Some (SQLExpr ''a > 0''),
                      ctd_CheckExpr_ConstraintName = ''pos'',
                      ctd_References_Table = None, ctd_References_Col = '''',
                      ctd_References_ConstraintName = ''''\<rparr>]\<rparr>))
   \<and> tableLevelChecks (ct_Defs (hoistConstraints
        \<lparr>ct_IfNotExists = False, ct_Table = ''t'', ct_Interleave = None,
         ct_Defs = [ColumnDef \<lparr>ctd_Name = ''a'', ctd_Kind = ColumnType_INT, ctd_Nullable = True,
                      ctd_PrimaryKey = True, ctd_Unique = False, ctd_DefaultExpr = None,
                      ctd_CheckExpr_Expr = Some (SQLExpr ''a > 0''),
                      ctd_CheckExpr_ConstraintName = ''pos'',
                      ctd_References_Table = None, ctd_References_Col = '''',
                      ctd_References_ConstraintName = ''''\<rparr>]\<rparr>))
     = [\<lparr>cct_Name = ''pos'', cct_Expr = SQLExpr ''a > 0''\<rparr>]"
proof -
  let ?mk = "\<lambda>m. tableLevelChecks (ct_Defs m)"
  let ?n = "\<lparr>ct_IfNotExists = False, ct_Table = ''t'', ct_Interleave = None,
         ct_Defs = [ColumnDef \<lparr>ctd_Name = ''a'', ctd_Kind = ColumnType_INT, ctd_Nullable = True,
                      ctd_PrimaryKey = True, ctd_Unique = False, ctd_DefaultExpr = None,
                      ctd_CheckExpr_Expr = Some (SQLExpr ''a > 0''),
                      ctd_CheckExpr_ConstraintName = ''pos'',
                      ctd_References_Table = None, ctd_References_Col = '''',
                      ctd_References_ConstraintName = ''''\<rparr>]\<rparr>"
  have h: "\<forall>m. ?mk m = ?mk (m\<lparr>ct_Defs := map dropResidualName (ct_Defs m)\<rparr>)"
    by (simp add: tableLevelChecks_dropResidualName)
  have e: "?mk (hoistConstraints ?n) = ?mk (declaredAtTableLevel ?n)"
    using hoistConstraints_equals_table_level_declaration [of ?n ?mk] h by blast
  have v: "?mk (hoistConstraints ?n) = [\<lparr>cct_Name = ''pos'', cct_Expr = SQLExpr ''a > 0''\<rparr>]"
    by (simp add: hoistConstraints_def)
  from h e v show ?thesis by blast
qed

section \<open>Properties of CREATE INDEX on an existing name\<close>





lemmas example_defs =
  exampleColumn_def exampleIndex_def exampleTable_def abc_def xyz_def exampleWorld_def
  exampleWorld2_def abcWithMutations_def exampleIndexWorld_def exampleCreateIndex_def
  interleavedParent_def interleavedChild_def exampleInterleaveWorld_def exampleInterleaveDef_def
  exampleCollaborators_def exampleColumnDef_def exampleCreateTable_def exampleWorld3_def


section \<open>Properties of addInterleave\<close>

lemma foldl_SharedPrefixLen:
  "foldl (\<lambda>a ancestor. a\<lparr>anc_SharedPrefixLen := anc_SharedPrefixLen a - anc_SharedPrefixLen ancestor\<rparr>)
        a0 xs
   = a0\<lparr>anc_SharedPrefixLen := anc_SharedPrefixLen a0 - sum_list (map anc_SharedPrefixLen xs)\<rparr>"
  by (induction xs arbitrary: a0) (simp_all add: algebra_simps)

lemma addInterleave_success:
  assumes "addInterleave env desc index interleave w = (Inr index', w')"
  shows "\<exists>parent parentTable.
      mustGetTableDesc env w (ild_Parent interleave) = (Inr parent, w') \<and>
      load w' parent = Inr parentTable \<and>
      index' = index\<lparr>idx_Interleave := idx_Interleave (tbl_PrimaryIndex parentTable) @
        [\<lparr>anc_TableID = tbl_ID parentTable, anc_IndexID = idx_ID (tbl_PrimaryIndex parentTable),
          anc_SharedPrefixLen = of_nat (length (idx_ColumnIDs (tbl_PrimaryIndex parentTable)))
             - sum_list (map anc_SharedPrefixLen (idx_Interleave (tbl_PrimaryIndex parentTable)))\<rparr>]\<rparr>"
  using assms
  by (auto simp: addInterleave_def Let_def foldl_SharedPrefixLen
      split: if_splits prod.splits sum.splits option.splits)

lemma unat_sum_list:
  fixes ws :: "32 word list"
  shows "sum_list (map unat ws) < 2 ^ 32 \<Longrightarrow> unat (sum_list ws) = sum_list (map unat ws)"
proof (induction ws)
  case Nil
  then show ?case by simp
next
  case (Cons a ws)
  then have "unat (sum_list ws) = sum_list (map unat ws)" by simp
  moreover have "unat a + sum_list (map unat ws) < 2 ^ LENGTH(32)" using Cons.prems by simp
  ultimately show ?case by (simp add: unat_add_lem [THEN iffD1])
qed

lemma unat_prefix_difference:
  fixes ws :: "32 word list"
  assumes "sum_list (map unat ws) \<le> n" "n < 2 ^ 32"
  shows "unat (of_nat n - sum_list ws) = n - sum_list (map unat ws)"
proof -
  have s: "unat (sum_list ws) = sum_list (map unat ws)"
    using assms by (intro unat_sum_list) simp
  have n: "unat (of_nat n :: 32 word) = n"
    using assms by (simp add: unat_of_nat)
  have "sum_list ws \<le> (of_nat n :: 32 word)"
    using s n assms by (simp add: word_le_nat_alt)
  then show ?thesis using s n by (simp add: unat_sub)
qed

text \<open>
  C2. When \<^verbatim>\<open>addInterleave\<close> succeeds, the parent table was found, and the ancestor chain
  of the index is the chain of the parent's primary index followed by one entry for
  the parent itself (table ID and primary index ID of the parent), so it is one longer.
  In the \<^verbatim>\<open>uint32\<close> arithmetic of the source the \<^verbatim>\<open>SharedPrefixLen\<close> of that entry is the
  number of columns of the parent's primary key minus the sum of the
  \<^verbatim>\<open>SharedPrefixLen\<close> of the parent's ancestors, and the sum over the whole chain of the
  child is the number of columns of the parent's primary key. Whenever the parent's
  ancestors share no more columns than the parent's primary key has (and that number
  fits 32 bits), no subtraction wraps around and both equations hold for the numbers
  themselves.
\<close>

theorem addInterleave_ancestor_chain:
  assumes "addInterleave env desc index interleave w = (Inr index', w')"
  shows "\<exists>parent parentTable.
      mustGetTableDesc env w (ild_Parent interleave) = (Inr parent, w') \<and>
      load w' parent = Inr parentTable \<and>
      (let parentIndex = tbl_PrimaryIndex parentTable;
           chain = idx_Interleave parentIndex;
           n = length (idx_ColumnIDs parentIndex);
           chain' = idx_Interleave index'
       in butlast chain' = chain \<and> length chain' = length chain + 1
          \<and> anc_TableID (last chain') = tbl_ID parentTable
          \<and> anc_IndexID (last chain') = idx_ID parentIndex
          \<and> anc_SharedPrefixLen (last chain') = of_nat n - sum_list (map anc_SharedPrefixLen chain)
          \<and> sum_list (map anc_SharedPrefixLen chain') = of_nat n
          \<and> (sum_list (map (\<lambda>a. unat (anc_SharedPrefixLen a)) chain) \<le> n \<and> n < 2 ^ 32 \<longrightarrow>
               unat (anc_SharedPrefixLen (last chain')) =
                 n - sum_list (map (\<lambda>a. unat (anc_SharedPrefixLen a)) chain)
               \<and> sum_list (map (\<lambda>a. unat (anc_SharedPrefixLen a)) chain') = n))"
proof -
  from addInterleave_success [OF assms] obtain parent parentTable where
    l: "mustGetTableDesc env w (ild_Parent interleave) = (Inr parent, w')"
       "load w' parent = Inr parentTable"
    and i: "index' = index\<lparr>idx_Interleave := idx_Interleave (tbl_PrimaryIndex parentTable) @
        [\<lparr>anc_TableID = tbl_ID parentTable, anc_IndexID = idx_ID (tbl_PrimaryIndex parentTable),
          anc_SharedPrefixLen = of_nat (length (idx_ColumnIDs (tbl_PrimaryIndex parentTable)))
             - sum_list (map anc_SharedPrefixLen (idx_Interleave (tbl_PrimaryIndex parentTable)))\<rparr>]\<rparr>"
    by blast
  let ?chain = "idx_Interleave (tbl_PrimaryIndex parentTable)"
  let ?n = "length (idx_ColumnIDs (tbl_PrimaryIndex parentTable))"
  have m: "map (\<lambda>a. unat (anc_SharedPrefixLen a)) ?chain = map unat (map anc_SharedPrefixLen ?chain)"
    by (simp add: comp_def)
  have nat_level: "unat (of_nat ?n - sum_list (map anc_SharedPrefixLen ?chain) :: 32 word) =
      ?n - sum_list (map (\<lambda>a. unat (anc_SharedPrefixLen a)) ?chain)"
    if "sum_list (map (\<lambda>a. unat (anc_SharedPrefixLen a)) ?chain) \<le> ?n" "?n < 2 ^ 32"
    using that unat_prefix_difference [of "map anc_SharedPrefixLen ?chain" ?n] by (simp add: m)
  show ?thesis
    apply (rule exI [of _ parent], rule exI [of _ parentTable])
    using l i nat_level by (auto simp: Let_def)
qed

theorem addInterleave_ancestor_chain_witness:
  "addInterleave exampleCollaborators interleavedChild (tbl_PrimaryIndex interleavedChild)
      exampleInterleaveDef exampleInterleaveWorld
     = (Inr ((tbl_PrimaryIndex interleavedChild)
               \<lparr>idx_Interleave := [\<lparr>anc_TableID = 40, anc_IndexID = 1, anc_SharedPrefixLen = 1\<rparr>,
                                   \<lparr>anc_TableID = 51, anc_IndexID = 1, anc_SharedPrefixLen = 1\<rparr>]\<rparr>),
        exampleInterleaveWorld)
   \<and> sum_list (map (\<lambda>a. unat (anc_SharedPrefixLen a))
        [\<lparr>anc_TableID = 40, anc_IndexID = 1, anc_SharedPrefixLen = 1\<rparr>,
         \<lparr>anc_TableID = 51, anc_IndexID = 1, anc_SharedPrefixLen = 1\<rparr>])
     = length (idx_ColumnIDs (tbl_PrimaryIndex interleavedParent))"
proof -
  let ?idx = "(tbl_PrimaryIndex interleavedChild)
               \<lparr>idx_Interleave := [\<lparr>anc_TableID = 40, anc_IndexID = 1, anc_SharedPrefixLen = 1\<rparr>,
                                   \<lparr>anc_TableID = 51, anc_IndexID = 1, anc_SharedPrefixLen = 1\<rparr>]\<rparr>"
  have e: "addInterleave exampleCollaborators interleavedChild (tbl_PrimaryIndex interleavedChild)
      exampleInterleaveDef exampleInterleaveWorld = (Inr ?idx, exampleInterleaveWorld)"
    by (simp add: addInterleave_def mustGetTableDesc_def load_def FindColumnByID_def example_defs)
  have m: "mustGetTableDesc exampleCollaborators exampleInterleaveWorld (ild_Parent exampleInterleaveDef)
      = (Inr 0, exampleInterleaveWorld)"
    by (simp add: mustGetTableDesc_def example_defs)
  have l: "load exampleInterleaveWorld 0 = Inr interleavedParent"
    by (simp add: load_def exampleInterleaveWorld_def)
  from addInterleave_ancestor_chain [OF e] obtain parent parentTable where
    p: "mustGetTableDesc exampleCollaborators exampleInterleaveWorld (ild_Parent exampleInterleaveDef)
          = (Inr parent, exampleInterleaveWorld)"
       "load exampleInterleaveWorld parent = Inr parentTable"
    and c: "(let parentIndex = tbl_PrimaryIndex parentTable;
           chain = idx_Interleave parentIndex;
           n = length (idx_ColumnIDs parentIndex);
           chain' = idx_Interleave ?idx
       in butlast chain' = chain \<and> length chain' = length chain + 1
          \<and> anc_TableID (last chain') = tbl_ID parentTable
          \<and> anc_IndexID (last chain') = idx_ID parentIndex
          \<and> anc_SharedPrefixLen (last chain') = of_nat n - sum_list (map anc_SharedPrefixLen chain)
          \<and> sum_list (map anc_SharedPrefixLen chain') = of_nat n
          \<and> (sum_list (map (\<lambda>a. unat (anc_SharedPrefixLen a)) chain) \<le> n \<and> n < 2 ^ 32 \<longrightarrow>
               unat (anc_SharedPrefixLen (last chain')) =
                 n - sum_list (map (\<lambda>a. unat (anc_SharedPrefixLen a)) chain)
               \<and> sum_list (map (\<lambda>a. unat (anc_SharedPrefixLen a)) chain') = n))"
    by blast
  from p m l have pt: "parentTable = interleavedParent" by simp
  have pre: "sum_list (map (\<lambda>a. unat (anc_SharedPrefixLen a))
                 (idx_Interleave (tbl_PrimaryIndex interleavedParent)))
             \<le> length (idx_ColumnIDs (tbl_PrimaryIndex interleavedParent))
             \<and> length (idx_ColumnIDs (tbl_PrimaryIndex interleavedParent)) < 2 ^ 32"
    by (simp add: example_defs)
  from c pre have "sum_list (map (\<lambda>a. unat (anc_SharedPrefixLen a)) (idx_Interleave ?idx))
      = length (idx_ColumnIDs (tbl_PrimaryIndex interleavedParent))"
    unfolding pt Let_def by blast
  then show ?thesis using e by simp
qed

section \<open>Properties of resolveColFK\<close>

lemma attachToIndexes_none:
  "\<forall>idx\<in>set idxs. idx_ColumnIDs idx \<noteq> [] \<and> \<not> leadsWith sid idx \<Longrightarrow>
   attachToIndexes idxs sid ref = Inr None"
  by (induction idxs) (auto simp: leadsWith_def split: list.splits)

lemma attachToIndexes_first:
  "i < length idxs \<Longrightarrow> leadsWith sid (idxs ! i) \<Longrightarrow>
   \<forall>j<i. idx_ColumnIDs (idxs ! j) \<noteq> [] \<and> \<not> leadsWith sid (idxs ! j) \<Longrightarrow>
   attachToIndexes idxs sid ref =
     Inr (Some (idxs[i := (idxs ! i)\<lparr>idx_ForeignKey := Some ref\<rparr>], idx_ID (idxs ! i)))"
proof (induction idxs arbitrary: i)
  case Nil
  then show ?case by simp
next
  case (Cons a idxs)
  show ?case
  proof (cases i)
    case 0
    with Cons.prems show ?thesis by (auto simp: leadsWith_def split: list.splits)
  next
    case (Suc k)
    with Cons.prems have k: "k < length idxs" "leadsWith sid (idxs ! k)"
      "\<forall>j<k. idx_ColumnIDs (idxs ! j) \<noteq> [] \<and> \<not> leadsWith sid (idxs ! j)"
      by auto
    from Cons.prems Suc have a: "idx_ColumnIDs a \<noteq> []" "\<not> leadsWith sid a" by auto
    from Cons.IH [OF k] a Suc show ?thesis
      by (auto simp: leadsWith_def split: list.splits)
  qed
qed

lemma findUniqueIndex_none:
  "\<forall>idx\<in>set idxs. idx_ColumnIDs idx \<noteq> [] \<and> \<not> (idx_Unique idx \<and> leadsWith cid idx) \<Longrightarrow>
   findUniqueIndex idxs cid = Inr None"
  by (induction idxs) (auto simp: leadsWith_def split: list.splits)

lemma findUniqueIndex_first:
  "i < length idxs \<Longrightarrow> idx_Unique (idxs ! i) \<Longrightarrow> leadsWith cid (idxs ! i) \<Longrightarrow>
   \<forall>j<i. idx_ColumnIDs (idxs ! j) \<noteq> [] \<and> \<not> (idx_Unique (idxs ! j) \<and> leadsWith cid (idxs ! j)) \<Longrightarrow>
   findUniqueIndex idxs cid = Inr (Some (idx_ID (idxs ! i)))"
proof (induction idxs arbitrary: i)
  case Nil
  then show ?case by simp
next
  case (Cons a idxs)
  show ?case
  proof (cases i)
    case 0
    with Cons.prems show ?thesis by (auto simp: leadsWith_def split: list.splits)
  next
    case (Suc k)
    with Cons.prems have k: "k < length idxs" "idx_Unique (idxs ! k)" "leadsWith cid (idxs ! k)"
      "\<forall>j<k. idx_ColumnIDs (idxs ! j) \<noteq> [] \<and> \<not> (idx_Unique (idxs ! j) \<and> leadsWith cid (idxs ! j))"
      by auto
    from Cons.prems Suc have a: "idx_ColumnIDs a \<noteq> []" "\<not> (idx_Unique a \<and> leadsWith cid a)" by auto
    from Cons.IH [OF k] a Suc show ?thesis
      by (auto simp: leadsWith_def split: list.splits)
  qed
qed

lemma resolveColFK_error:
  "resolveColFK_reference env tbl fromCol targetTable targetColName constraintName w = (Inl e, w1) \<Longrightarrow>
   resolveColFK env tbl fromCol targetTable targetColName constraintName w = (Inl e, w1)"
  by (simp add: resolveColFK_def)

text \<open>
  C7. Once \<^verbatim>\<open>resolveColFK\<close> has built the forward reference (every index of the source
  table having at least one column), the reference is stored on the primary index when
  the primary index leads with the source column; otherwise on the first index, in
  order, that leads with the source column, and on no other; the ID of that index is
  the \<^verbatim>\<open>srcIdx\<close> of the result and the table is flagged \<open>ADD\<close>. When no index of the
  source table leads with the source column, the call fails with the error saying that
  the column must be the prefix of an index, and the table is left as it was.
\<close>

theorem resolveColFK_source_index:
  assumes ref: "resolveColFK_reference env tbl fromCol targetTable targetColName constraintName w =
                  (Inr (src, target, targetIdx, ref), w1)"
      and tbl: "load w1 tbl = Inr tblv"
      and cols: "\<forall>idx\<in>set (allIndexes tblv). idx_ColumnIDs idx \<noteq> []"
  shows
    "(leadsWith (col_ID src) (tbl_PrimaryIndex tblv) \<longrightarrow>
        resolveColFK env tbl fromCol targetTable targetColName constraintName w =
          (Inr \<lparr>ftu_srcIdx = idx_ID (tbl_PrimaryIndex tblv), ftu_target = target,
                ftu_targetIdx = targetIdx\<rparr>,
           store w1 tbl
             (tblv\<lparr>tbl_PrimaryIndex := (tbl_PrimaryIndex tblv)\<lparr>idx_ForeignKey := Some ref\<rparr>,
                    tbl_State := TableDescriptor_ADD\<rparr>)))
     \<and> (\<not> leadsWith (col_ID src) (tbl_PrimaryIndex tblv) \<and> i < length (tbl_Indexes tblv) \<and>
          leadsWith (col_ID src) (tbl_Indexes tblv ! i) \<and>
          (\<forall>j<i. \<not> leadsWith (col_ID src) (tbl_Indexes tblv ! j)) \<longrightarrow>
        resolveColFK env tbl fromCol targetTable targetColName constraintName w =
          (Inr \<lparr>ftu_srcIdx = idx_ID (tbl_Indexes tblv ! i), ftu_target = target,
                ftu_targetIdx = targetIdx\<rparr>,
           store w1 tbl
             (tblv\<lparr>tbl_Indexes := (tbl_Indexes tblv)
                       [i := (tbl_Indexes tblv ! i)\<lparr>idx_ForeignKey := Some ref\<rparr>],
                    tbl_State := TableDescriptor_ADD\<rparr>)))
     \<and> ((\<forall>idx\<in>set (allIndexes tblv). \<not> leadsWith (col_ID src) idx) \<longrightarrow>
        resolveColFK env tbl fromCol targetTable targetColName constraintName w =
          (Inl (errMustBePrefixOfIndex (col_Name src)), w1))"
proof (intro conjI impI)
  obtain c cs where pc: "idx_ColumnIDs (tbl_PrimaryIndex tblv) = c # cs"
    using cols by (cases "idx_ColumnIDs (tbl_PrimaryIndex tblv)") (auto simp: allIndexes_def)
  {
    assume "leadsWith (col_ID src) (tbl_PrimaryIndex tblv)"
    then show "resolveColFK env tbl fromCol targetTable targetColName constraintName w =
          (Inr \<lparr>ftu_srcIdx = idx_ID (tbl_PrimaryIndex tblv), ftu_target = target,
                ftu_targetIdx = targetIdx\<rparr>,
           store w1 tbl
             (tblv\<lparr>tbl_PrimaryIndex := (tbl_PrimaryIndex tblv)\<lparr>idx_ForeignKey := Some ref\<rparr>,
                    tbl_State := TableDescriptor_ADD\<rparr>))"
      using ref tbl pc by (simp add: resolveColFK_def attachForeignKey_def leadsWith_def)
  }
  {
    assume a: "\<not> leadsWith (col_ID src) (tbl_PrimaryIndex tblv) \<and> i < length (tbl_Indexes tblv) \<and>
          leadsWith (col_ID src) (tbl_Indexes tblv ! i) \<and>
          (\<forall>j<i. \<not> leadsWith (col_ID src) (tbl_Indexes tblv ! j))"
    have "\<forall>j<i. idx_ColumnIDs (tbl_Indexes tblv ! j) \<noteq> [] \<and>
                 \<not> leadsWith (col_ID src) (tbl_Indexes tblv ! j)"
      using a cols by (auto simp: allIndexes_def)
    then have "attachToIndexes (tbl_Indexes tblv) (col_ID src) ref =
       Inr (Some ((tbl_Indexes tblv)[i := (tbl_Indexes tblv ! i)\<lparr>idx_ForeignKey := Some ref\<rparr>],
                  idx_ID (tbl_Indexes tblv ! i)))"
      using a attachToIndexes_first by blast
    then show "resolveColFK env tbl fromCol targetTable targetColName constraintName w =
          (Inr \<lparr>ftu_srcIdx = idx_ID (tbl_Indexes tblv ! i), ftu_target = target,
                ftu_targetIdx = targetIdx\<rparr>,
           store w1 tbl
             (tblv\<lparr>tbl_Indexes := (tbl_Indexes tblv)
                       [i := (tbl_Indexes tblv ! i)\<lparr>idx_ForeignKey := Some ref\<rparr>],
                    tbl_State := TableDescriptor_ADD\<rparr>))"
      using ref tbl pc a by (simp add: resolveColFK_def attachForeignKey_def leadsWith_def)
  }
  {
    assume a: "\<forall>idx\<in>set (allIndexes tblv). \<not> leadsWith (col_ID src) idx"
    have "attachToIndexes (tbl_Indexes tblv) (col_ID src) ref = Inr None"
      using a cols by (intro attachToIndexes_none) (auto simp: allIndexes_def)
    then show "resolveColFK env tbl fromCol targetTable targetColName constraintName w =
          (Inl (errMustBePrefixOfIndex (col_Name src)), w1)"
      using ref tbl pc a by (simp add: resolveColFK_def attachForeignKey_def leadsWith_def allIndexes_def)
  }
qed

theorem resolveColFK_source_index_witness:
  "fst (resolveColFK exampleCollaborators 1 ''x'' ''abc'' ''a'' '''' exampleWorld2)
     = Inr \<lparr>ftu_srcIdx = 1, ftu_target = 0, ftu_targetIdx = 1\<rparr>
   \<and> fst (resolveColFK exampleCollaborators 1 ''y'' ''abc'' ''a'' '''' exampleWorld2)
     = Inr \<lparr>ftu_srcIdx = 2, ftu_target = 0, ftu_targetIdx = 1\<rparr>
   \<and> resolveColFK exampleCollaborators 1 ''z'' ''abc'' ''a'' '''' exampleWorld2
     = (Inl (errMustBePrefixOfIndex ''z''), exampleWorld2)"
proof -
  let ?ref = "\<lambda>c. \<lparr>fk_Table = 51, fk_Index = 1, fk_Name = ''fk_'' @ c @ ''_ref_abc_a''\<rparr>"
  have r: "resolveColFK_reference exampleCollaborators 1 c ''abc'' ''a'' '''' exampleWorld2 =
      (Inr (exampleColumn c k ColumnType_INT, 0, 1, ?ref c), exampleWorld2)"
    if "(c, k) \<in> {(''x'', 1), (''y'', 2), (''z'', 3)}" for c k
    using that
    by (auto simp: resolveColFK_reference_def load_def getTableDesc_def FindActiveColumnByName_def
        defaultTargetColName_def findTargetIndex_def example_defs)
  have l: "load exampleWorld2 1 = Inr xyz"
    by (simp add: load_def exampleWorld2_def)
  have cols: "\<forall>idx\<in>set (allIndexes xyz). idx_ColumnIDs idx \<noteq> []"
    by (simp add: allIndexes_def example_defs)
  have x: "leadsWith (col_ID (exampleColumn ''x'' 1 ColumnType_INT)) (tbl_PrimaryIndex xyz)"
    by (simp add: leadsWith_def example_defs)
  have y: "\<not> leadsWith (col_ID (exampleColumn ''y'' 2 ColumnType_INT)) (tbl_PrimaryIndex xyz) \<and>
           0 < length (tbl_Indexes xyz) \<and>
           leadsWith (col_ID (exampleColumn ''y'' 2 ColumnType_INT)) (tbl_Indexes xyz ! 0) \<and>
           (\<forall>j<0. \<not> leadsWith (col_ID (exampleColumn ''y'' 2 ColumnType_INT)) (tbl_Indexes xyz ! j))"
    by (simp add: leadsWith_def example_defs)
  have z: "\<forall>idx\<in>set (allIndexes xyz). \<not> leadsWith (col_ID (exampleColumn ''z'' 3 ColumnType_INT)) idx"
    by (simp add: leadsWith_def allIndexes_def example_defs)
  have ids: "idx_ID (tbl_PrimaryIndex xyz) = 1" "idx_ID (tbl_Indexes xyz ! 0) = 2"
            "col_Name (exampleColumn ''z'' 3 ColumnType_INT) = ''z''"
    by (simp_all add: example_defs)
  show ?thesis
    using resolveColFK_source_index [OF r [of "''x''" 1] l cols, where i = 0]
          resolveColFK_source_index [OF r [of "''y''" 2] l cols, where i = 0]
          resolveColFK_source_index [OF r [of "''z''" 3] l cols, where i = 0]
          x y z
    by (simp add: ids)
qed

text \<open>
  C6, as the code has it. The target table is the one the lookup found, or the table
  being created when the lookup found none and the name is its own; every index of the
  target has at least one column. When no target column is named and the target's
  primary index does not have exactly one column, \<^verbatim>\<open>resolveColFK\<close> fails with the error
  asking for a single unique column. Otherwise the target column is the named one, or
  the only column of the primary index; when it exists and has the kind of the source
  column, the referenced index is the primary index if that leads with the target
  column, else the first index in order that is unique and leads with the target
  column, whether or not later indexes qualify as well; and when neither the primary
  index nor any unique index leads with the target column, \<^verbatim>\<open>resolveColFK\<close> fails with
  the error asking for a unique index.
\<close>

theorem resolveColFK_target_index:
  assumes tbl: "load w tbl = Inr tblv"
      and src: "FindActiveColumnByName tblv fromCol = Inr src"
      and lookup: "getTableDesc env w targetTable = (Inr found, w1)"
      and target: "found = Some target \<or> (found = None \<and> targetTable = tbl_Name tblv \<and> target = tbl)"
      and tgt: "load w1 target = Inr targetv"
      and cols: "\<forall>idx\<in>set (allIndexes targetv). idx_ColumnIDs idx \<noteq> []"
  shows
    "(targetColName = '''' \<and> length (idx_ColumnNames (tbl_PrimaryIndex targetv)) \<noteq> 1 \<longrightarrow>
        resolveColFK env tbl fromCol targetTable targetColName constraintName w =
          (Inl (errMustSpecifySingleUniqueColumn targetTable), w1))
     \<and> ((targetColName = '''' \<longrightarrow> length (idx_ColumnNames (tbl_PrimaryIndex targetv)) = 1) \<and>
         FindActiveColumnByName targetv
           (if targetColName = '''' then idx_ColumnNames (tbl_PrimaryIndex targetv) ! 0
            else targetColName) = Inr targetCol \<and>
         ctype_Kind (col_Type src) = ctype_Kind (col_Type targetCol) \<longrightarrow>
           (leadsWith (col_ID targetCol) (tbl_PrimaryIndex targetv) \<longrightarrow>
              (\<exists>ref. resolveColFK_reference env tbl fromCol targetTable targetColName constraintName w =
                 (Inr (src, target, idx_ID (tbl_PrimaryIndex targetv), ref), w1)))
         \<and> (\<not> leadsWith (col_ID targetCol) (tbl_PrimaryIndex targetv) \<and>
              i < length (tbl_Indexes targetv) \<and>
              idx_Unique (tbl_Indexes targetv ! i) \<and>
              leadsWith (col_ID targetCol) (tbl_Indexes targetv ! i) \<and>
              (\<forall>j<i. \<not> (idx_Unique (tbl_Indexes targetv ! j) \<and>
                          leadsWith (col_ID targetCol) (tbl_Indexes targetv ! j))) \<longrightarrow>
              (\<exists>ref. resolveColFK_reference env tbl fromCol targetTable targetColName constraintName w =
                 (Inr (src, target, idx_ID (tbl_Indexes targetv ! i), ref), w1)))
         \<and> (\<not> leadsWith (col_ID targetCol) (tbl_PrimaryIndex targetv) \<and>
              (\<forall>idx\<in>set (tbl_Indexes targetv).
                  \<not> (idx_Unique idx \<and> leadsWith (col_ID targetCol) idx)) \<longrightarrow>
              resolveColFK env tbl fromCol targetTable targetColName constraintName w =
                (Inl (errRequiresUniqueIndex targetTable (col_Name targetCol)), w1)))"
proof -
  obtain c cs where pc: "idx_ColumnIDs (tbl_PrimaryIndex targetv) = c # cs"
    using cols by (cases "idx_ColumnIDs (tbl_PrimaryIndex targetv)") (auto simp: allIndexes_def)
  have found: "(case found of Some t \<Rightarrow> Inr t
                | None \<Rightarrow> if targetTable = tbl_Name tblv then Inr tbl
                          else Inl (errReferencedTableNotFound targetTable)) = Inr target"
    using target by auto
  note pre = tbl src lookup found tgt
  have a: "resolveColFK env tbl fromCol targetTable targetColName constraintName w =
          (Inl (errMustSpecifySingleUniqueColumn targetTable), w1)"
    if "targetColName = ''''" "length (idx_ColumnNames (tbl_PrimaryIndex targetv)) \<noteq> 1"
    using that pre
    by (simp add: resolveColFK_def resolveColFK_reference_def defaultTargetColName_def)
  have d: "defaultTargetColName targetv targetTable targetColName =
       Inr (if targetColName = '''' then idx_ColumnNames (tbl_PrimaryIndex targetv) ! 0
            else targetColName)"
    if "targetColName = '''' \<longrightarrow> length (idx_ColumnNames (tbl_PrimaryIndex targetv)) = 1"
    using that by (simp add: defaultTargetColName_def)
  have b1: "\<exists>ref. resolveColFK_reference env tbl fromCol targetTable targetColName constraintName w =
                 (Inr (src, target, idx_ID (tbl_PrimaryIndex targetv), ref), w1)"
    if "targetColName = '''' \<longrightarrow> length (idx_ColumnNames (tbl_PrimaryIndex targetv)) = 1"
       "FindActiveColumnByName targetv
           (if targetColName = '''' then idx_ColumnNames (tbl_PrimaryIndex targetv) ! 0
            else targetColName) = Inr targetCol"
       "ctype_Kind (col_Type src) = ctype_Kind (col_Type targetCol)"
       "leadsWith (col_ID targetCol) (tbl_PrimaryIndex targetv)"
    using that pre pc d
    by (simp add: resolveColFK_reference_def findTargetIndex_def leadsWith_def Let_def)
  have b2: "\<exists>ref. resolveColFK_reference env tbl fromCol targetTable targetColName constraintName w =
                 (Inr (src, target, idx_ID (tbl_Indexes targetv ! i), ref), w1)"
    if "targetColName = '''' \<longrightarrow> length (idx_ColumnNames (tbl_PrimaryIndex targetv)) = 1"
       "FindActiveColumnByName targetv
           (if targetColName = '''' then idx_ColumnNames (tbl_PrimaryIndex targetv) ! 0
            else targetColName) = Inr targetCol"
       "ctype_Kind (col_Type src) = ctype_Kind (col_Type targetCol)"
       "\<not> leadsWith (col_ID targetCol) (tbl_PrimaryIndex targetv)"
       "i < length (tbl_Indexes targetv)" "idx_Unique (tbl_Indexes targetv ! i)"
       "leadsWith (col_ID targetCol) (tbl_Indexes targetv ! i)"
       "\<forall>j<i. \<not> (idx_Unique (tbl_Indexes targetv ! j) \<and>
                          leadsWith (col_ID targetCol) (tbl_Indexes targetv ! j))"
  proof -
    have "\<forall>j<i. idx_ColumnIDs (tbl_Indexes targetv ! j) \<noteq> [] \<and>
              \<not> (idx_Unique (tbl_Indexes targetv ! j) \<and>
                 leadsWith (col_ID targetCol) (tbl_Indexes targetv ! j))"
      using that cols by (auto simp: allIndexes_def)
    then have "findUniqueIndex (tbl_Indexes targetv) (col_ID targetCol) =
        Inr (Some (idx_ID (tbl_Indexes targetv ! i)))"
      using that findUniqueIndex_first by blast
    then show ?thesis
      using that pre pc d
      by (simp add: resolveColFK_reference_def findTargetIndex_def leadsWith_def Let_def)
  qed
  have b3: "resolveColFK env tbl fromCol targetTable targetColName constraintName w =
                (Inl (errRequiresUniqueIndex targetTable (col_Name targetCol)), w1)"
    if "targetColName = '''' \<longrightarrow> length (idx_ColumnNames (tbl_PrimaryIndex targetv)) = 1"
       "FindActiveColumnByName targetv
           (if targetColName = '''' then idx_ColumnNames (tbl_PrimaryIndex targetv) ! 0
            else targetColName) = Inr targetCol"
       "ctype_Kind (col_Type src) = ctype_Kind (col_Type targetCol)"
       "\<not> leadsWith (col_ID targetCol) (tbl_PrimaryIndex targetv)"
       "\<forall>idx\<in>set (tbl_Indexes targetv). \<not> (idx_Unique idx \<and> leadsWith (col_ID targetCol) idx)"
  proof -
    have "findUniqueIndex (tbl_Indexes targetv) (col_ID targetCol) = Inr None"
      using that cols by (intro findUniqueIndex_none) (auto simp: allIndexes_def)
    then show ?thesis
      using that pre pc d
      by (simp add: resolveColFK_def resolveColFK_reference_def findTargetIndex_def leadsWith_def)
  qed
  from a b1 b2 b3 show ?thesis by blast
qed

text \<open>
  C6 as stated fails: \<open>abc\<close> has two unique indexes that lead with column \<open>b\<close> (IDs 2
  and 3), and the reference of \<open>xyz.y\<close> to \<open>abc (b)\<close> is resolved without error, to the
  first of them.
\<close>

theorem resolveColFK_two_unique_indexes_counterexample:
  "length (filter (\<lambda>idx. idx_Unique idx \<and> leadsWith 2 idx) (allIndexes abc)) = 2
   \<and> fst (resolveColFK exampleCollaborators 1 ''y'' ''abc'' ''b'' '''' exampleWorld2)
       = Inr \<lparr>ftu_srcIdx = 2, ftu_target = 0, ftu_targetIdx = 2\<rparr>"
  by (simp add: resolveColFK_def resolveColFK_reference_def load_def getTableDesc_def
      FindActiveColumnByName_def defaultTargetColName_def findTargetIndex_def
      attachForeignKey_def store_def leadsWith_def allIndexes_def example_defs)

theorem resolveColFK_target_index_witness:
  "resolveColFK exampleCollaborators 1 ''x'' ''abc'' '''' '''' exampleWorld3
     = (Inl (errMustSpecifySingleUniqueColumn ''abc''), exampleWorld3)
   \<and> (\<exists>ref. resolveColFK_reference exampleCollaborators 1 ''x'' ''abc'' '''' '''' exampleWorld2
         = (Inr (exampleColumn ''x'' 1 ColumnType_INT, 0, 1, ref), exampleWorld2))
   \<and> (\<exists>ref. resolveColFK_reference exampleCollaborators 1 ''x'' ''abc'' ''b'' '''' exampleWorld2
         = (Inr (exampleColumn ''x'' 1 ColumnType_INT, 0, 2, ref), exampleWorld2))
   \<and> resolveColFK exampleCollaborators 1 ''x'' ''abc'' ''c'' '''' exampleWorld2
     = (Inl (errRequiresUniqueIndex ''abc'' ''c''), exampleWorld2)"
proof -
  let ?x = "exampleColumn ''x'' 1 ColumnType_INT"
  have l2: "load exampleWorld2 1 = Inr xyz" "load exampleWorld2 0 = Inr abc"
    and l3: "load exampleWorld3 1 = Inr xyz" "load exampleWorld3 0 = Inr interleavedParent"
    by (simp_all add: load_def exampleWorld2_def exampleWorld3_def)
  have s: "FindActiveColumnByName xyz ''x'' = Inr ?x"
    by (simp add: FindActiveColumnByName_def example_defs)
  have g2: "getTableDesc exampleCollaborators exampleWorld2 ''abc'' = (Inr (Some 0), exampleWorld2)"
    and g3: "getTableDesc exampleCollaborators exampleWorld3 ''abc'' = (Inr (Some 0), exampleWorld3)"
    by (simp_all add: getTableDesc_def example_defs)
  have t: "Some (0::nat) = Some 0 \<or> (Some (0::nat) = None \<and> ''abc'' = tbl_Name xyz \<and> 0 = (1::nat))"
    by simp
  have c2: "\<forall>idx\<in>set (allIndexes abc). idx_ColumnIDs idx \<noteq> []"
    and c3: "\<forall>idx\<in>set (allIndexes interleavedParent). idx_ColumnIDs idx \<noteq> []"
    by (simp_all add: allIndexes_def example_defs)
  have a: "length (idx_ColumnNames (tbl_PrimaryIndex interleavedParent)) \<noteq> 1"
    by (simp add: example_defs)
  have pk: "length (idx_ColumnNames (tbl_PrimaryIndex abc)) = 1"
           "idx_ColumnNames (tbl_PrimaryIndex abc) ! 0 = ''a''"
           "idx_ID (tbl_PrimaryIndex abc) = 1" "idx_ID (tbl_Indexes abc ! 0) = 2"
    by (simp_all add: example_defs)
  have f: "FindActiveColumnByName abc ''a'' = Inr (exampleColumn ''a'' 1 ColumnType_INT)"
          "FindActiveColumnByName abc ''b'' = Inr (exampleColumn ''b'' 2 ColumnType_INT)"
          "FindActiveColumnByName abc ''c'' = Inr (exampleColumn ''c'' 3 ColumnType_INT)"
    by (simp_all add: FindActiveColumnByName_def example_defs)
  have k: "ctype_Kind (col_Type ?x) = ctype_Kind (col_Type (exampleColumn c n ColumnType_INT))" for c n
    by (simp add: example_defs)
  have la: "leadsWith (col_ID (exampleColumn ''a'' 1 ColumnType_INT)) (tbl_PrimaryIndex abc)"
    and lb: "\<not> leadsWith (col_ID (exampleColumn ''b'' 2 ColumnType_INT)) (tbl_PrimaryIndex abc) \<and>
             0 < length (tbl_Indexes abc) \<and> idx_Unique (tbl_Indexes abc ! 0) \<and>
             leadsWith (col_ID (exampleColumn ''b'' 2 ColumnType_INT)) (tbl_Indexes abc ! 0) \<and>
             (\<forall>j<0. \<not> (idx_Unique (tbl_Indexes abc ! j) \<and>
                leadsWith (col_ID (exampleColumn ''b'' 2 ColumnType_INT)) (tbl_Indexes abc ! j)))"
    and lc: "\<not> leadsWith (col_ID (exampleColumn ''c'' 3 ColumnType_INT)) (tbl_PrimaryIndex abc) \<and>
             (\<forall>idx\<in>set (tbl_Indexes abc).
                \<not> (idx_Unique idx \<and> leadsWith (col_ID (exampleColumn ''c'' 3 ColumnType_INT)) idx))"
    by (simp_all add: leadsWith_def example_defs)
  have n: "col_Name (exampleColumn ''c'' 3 ColumnType_INT) = ''c''"
    by (simp add: example_defs)
  have 1: "resolveColFK exampleCollaborators 1 ''x'' ''abc'' '''' '''' exampleWorld3
     = (Inl (errMustSpecifySingleUniqueColumn ''abc''), exampleWorld3)"
    using resolveColFK_target_index [OF l3(1) s g3 t l3(2) c3, where targetColName = "''''"
            and constraintName = "''''"] a
    by simp
  have 2: "\<exists>ref. resolveColFK_reference exampleCollaborators 1 ''x'' ''abc'' '''' '''' exampleWorld2
         = (Inr (?x, 0, 1, ref), exampleWorld2)"
    using resolveColFK_target_index [OF l2(1) s g2 t l2(2) c2, where targetColName = "''''"
            and constraintName = "''''" and targetCol = "exampleColumn ''a'' 1 ColumnType_INT"]
          pk f k la
    by simp
  have 3: "\<exists>ref. resolveColFK_reference exampleCollaborators 1 ''x'' ''abc'' ''b'' '''' exampleWorld2
         = (Inr (?x, 0, 2, ref), exampleWorld2)"
    using resolveColFK_target_index [OF l2(1) s g2 t l2(2) c2, where targetColName = "''b''"
            and constraintName = "''''" and targetCol = "exampleColumn ''b'' 2 ColumnType_INT"
            and i = 0]
          pk f k lb
    by simp
  have 4: "resolveColFK exampleCollaborators 1 ''x'' ''abc'' ''c'' '''' exampleWorld2
     = (Inl (errRequiresUniqueIndex ''abc'' ''c''), exampleWorld2)"
    using resolveColFK_target_index [OF l2(1) s g2 t l2(2) c2, where targetColName = "''c''"
            and constraintName = "''''" and targetCol = "exampleColumn ''c'' 3 ColumnType_INT"]
          pk f k lc n
    by simp
  from 1 2 3 4 show ?thesis by blast
qed


section \<open>Indexes of a descriptor as one list\<close>

lemma findIndexPos_Some:
  "findIndexPos idxs iid = Some i \<Longrightarrow>
   i < length idxs \<and> idx_ID (idxs ! i) = iid \<and> (\<forall>k<i. idx_ID (idxs ! k) \<noteq> iid)"
proof (induction idxs arbitrary: i)
  case Nil
  then show ?case by simp
next
  case (Cons a idxs)
  then show ?case
    by (auto split: if_splits option.splits simp: nth_Cons split: nat.splits)
qed

lemma FindIndexByID_pos:
  "FindIndexByID d iid = Inr r \<Longrightarrow>
   refPos r < length (allIndexes d) \<and> idx_ID (allIndexes d ! refPos r) = iid \<and>
   (\<forall>k<refPos r. idx_ID (allIndexes d ! k) \<noteq> iid)"
  by (auto simp: FindIndexByID_def allIndexes_def nth_Cons dest!: findIndexPos_Some
      split: if_splits option.splits nat.splits)

lemma indexAt_allIndexes: "indexAt d r = allIndexes d ! refPos r"
  by (cases r) (simp_all add: allIndexes_def)

lemma allIndexes_updateIndexAt:
  "refPos r < length (allIndexes d) \<Longrightarrow>
   allIndexes (updateIndexAt d r f) = (allIndexes d)[refPos r := f (allIndexes d ! refPos r)]"
  by (cases r) (simp_all add: allIndexes_def)

section \<open>How the operations change the descriptors in memory\<close>

lemma heapRel_iff:
  "heapRel Q w w' \<longleftrightarrow>
     length (heap w) \<le> length (heap w') \<and> (\<forall>p<length (heap w). Q (heap w ! p) (heap w' ! p))"
  by (auto simp: heapRel_def list_all2_conv_all_nth)

lemma heapRel_refl: "(\<And>d. Q d d) \<Longrightarrow> heap w' = heap w \<Longrightarrow> heapRel Q w w'"
  by (simp add: heapRel_iff)

lemma heapRel_trans:
  "(\<And>a b c. Q a b \<Longrightarrow> Q b c \<Longrightarrow> Q a c) \<Longrightarrow> heapRel Q w w' \<Longrightarrow> heapRel Q w' w'' \<Longrightarrow> heapRel Q w w''"
  by (fastforce simp: heapRel_iff)


lemma steps_refl: "heap w' = heap w \<Longrightarrow> steps w w'"
  by (simp add: heapRel_iff)

lemma steps_trans: "steps w w' \<Longrightarrow> steps w' w'' \<Longrightarrow> steps w w''"
  by (rule heapRel_trans [where Q = "descStep\<^sup>*\<^sup>*"]) auto

lemma steps_append: "heap w' = heap w @ objs \<Longrightarrow> steps w w'"
  by (simp add: heapRel_iff nth_append)

lemma steps_store:
  "p < length (heap w) \<Longrightarrow> descStep\<^sup>*\<^sup>* (heap w ! p) d \<Longrightarrow> heap w' = (heap w)[p := d] \<Longrightarrow> steps w w'"
  by (auto simp: heapRel_iff nth_list_update)

lemma forEach_steps:
  assumes "\<And>x w r w'. body x w = (r, w') \<Longrightarrow> steps w w'"
  shows "forEach body xs w = (r, w') \<Longrightarrow> steps w w'"
proof (induction xs arbitrary: w)
  case Nil
  then show ?case by (simp add: steps_refl)
next
  case (Cons x xs)
  obtain r1 w1 where b: "body x w = (r1, w1)" by (cases "body x w")
  with assms have s: "steps w w1" by blast
  show ?case
  proof (cases r1)
    case None
    with Cons b s show ?thesis by (auto intro: steps_trans)
  next
    case (Some e)
    with Cons.prems b s show ?thesis by simp
  qed
qed

lemma saveNonmutationAndNotify_heap:
  "saveNonmutationAndNotify env td w = (r, w') \<Longrightarrow>
   heap w' = heap w \<or>
   (td < length (heap w) \<and> heap w' = (heap w)[td := (heap w ! td)\<lparr>tbl_UpVersion := True\<rparr>])"
  by (auto simp: saveNonmutationAndNotify_def load_def store_def Let_def
      split: sum.splits option.splits if_splits)

lemma saveNonmutationAndNotify_steps:
  "saveNonmutationAndNotify env td w = (r, w') \<Longrightarrow> steps w w'"
  by (drule saveNonmutationAndNotify_heap)
     (auto intro: steps_refl steps_store [where p = td] descStep.upVersion)

lemma updateIndexAt_step:
  "refPos r < length (allIndexes d) \<Longrightarrow> indexStep (indexAt d r) (f (indexAt d r)) \<Longrightarrow>
   descStep d (updateIndexAt d r f)"
  by (cases r) (auto simp: allIndexes_def intro: descStep.primary descStep.secondary)

lemma load_Inr: "load w p = Inr d \<longleftrightarrow> p < length (heap w) \<and> d = heap w ! p"
  by (auto simp: load_def)

lemma store_steps:
  "p < length (heap w) \<Longrightarrow> descStep\<^sup>*\<^sup>* (heap w ! p) d \<Longrightarrow> steps w (store w p d)"
  by (rule steps_store [where p = p and d = d]) (simp_all add: store_def)

lemma FindIndexByID_update_steps:
  assumes "FindIndexByID d iid = Inr r" "indexStep (indexAt d r) (f (indexAt d r))"
  shows "descStep\<^sup>*\<^sup>* d (updateIndexAt d r f)"
proof -
  have "refPos r < length (allIndexes d)" using assms(1) FindIndexByID_pos by blast
  then have "descStep d (updateIndexAt d r f)" using assms(2) by (rule updateIndexAt_step)
  then show ?thesis by blast
qed

lemma finalizeFK_target_steps:
  assumes f: "finalizeFK_target env desc t w = (r, w')"
  shows "steps w w'"
proof (cases "load w (ftu_target t)")
  case (Inl e)
  with f show ?thesis by (auto simp: finalizeFK_target_def intro: steps_refl)
next
  case tv: (Inr targetv)
  show ?thesis
  proof (cases "FindIndexByID targetv (ftu_targetIdx t)")
    case (Inl e)
    with f tv show ?thesis by (auto simp: finalizeFK_target_def intro: steps_refl)
  next
    case ti: (Inr targetIdx)
    show ?thesis
    proof (cases "load w desc")
      case (Inl e)
      with f tv ti show ?thesis by (auto simp: finalizeFK_target_def intro: steps_refl)
    next
      case dv: (Inr descv)
      define w1 where "w1 = store w (ftu_target t)
                      (updateIndexAt targetv targetIdx
                         (\<lambda>i. i\<lparr>idx_ReferencedBy := idx_ReferencedBy i @
                            [\<lparr>fk_Table = tbl_ID descv, fk_Index = ftu_srcIdx t, fk_Name = ''''\<rparr>]\<rparr>))"
      have "descStep\<^sup>*\<^sup>* targetv (updateIndexAt targetv targetIdx
                         (\<lambda>i. i\<lparr>idx_ReferencedBy := idx_ReferencedBy i @
                            [\<lparr>fk_Table = tbl_ID descv, fk_Index = ftu_srcIdx t, fk_Name = ''''\<rparr>]\<rparr>))"
        using ti by (rule FindIndexByID_update_steps) (simp add: indexStep.referencedBy)
      then have A: "steps w w1"
        unfolding w1_def using tv by (intro store_steps) (auto simp: load_Inr)
      show ?thesis
      proof (cases "ftu_target t = desc")
        case False
        with f tv ti dv have "saveNonmutationAndNotify env (ftu_target t) w1 = (r, w')"
          by (simp add: finalizeFK_target_def w1_def)
        then show ?thesis using A saveNonmutationAndNotify_steps steps_trans by blast
      next
        case True
        show ?thesis
        proof (cases "load w1 desc")
          case (Inl e)
          with f tv ti dv True have "w' = w1" by (simp add: finalizeFK_target_def w1_def)
          with A show ?thesis by simp
        next
          case d1: (Inr descv1)
          show ?thesis
          proof (cases "FindIndexByID descv1 (ftu_srcIdx t)")
            case (Inl e)
            with f tv ti dv True d1 have "w' = w1" by (simp add: finalizeFK_target_def w1_def)
            with A show ?thesis by simp
          next
            case si: (Inr srcIdx)
            show ?thesis
            proof (cases "idx_ForeignKey (indexAt descv1 srcIdx)")
              case None
              with f tv ti dv True d1 si have "w' = w1" by (simp add: finalizeFK_target_def w1_def)
              with A show ?thesis by simp
            next
              case (Some fk)
              with f tv ti dv True d1 si have w': "w' = store w1 desc
                        (updateIndexAt descv1 srcIdx
                           (\<lambda>i. i\<lparr>idx_ForeignKey := Some (fk\<lparr>fk_Table := tbl_ID descv1\<rparr>)\<rparr>))"
                by (simp add: finalizeFK_target_def w1_def)
              have "descStep\<^sup>*\<^sup>* descv1 (updateIndexAt descv1 srcIdx
                           (\<lambda>i. i\<lparr>idx_ForeignKey := Some (fk\<lparr>fk_Table := tbl_ID descv1\<rparr>)\<rparr>))"
                using si by (rule FindIndexByID_update_steps) (simp add: indexStep.foreignKey)
              then have "steps w1 w'"
                unfolding w' using d1 by (intro store_steps) (auto simp: load_Inr)
              with A show ?thesis using steps_trans by blast
            qed
          qed
        qed
      qed
    qed
  qed
qed

lemma finalizeFKs_steps:
  assumes f: "finalizeFKs env desc fkTargets w = (r, w')"
  shows "steps w w'"
proof -
  obtain r1 w1 where l: "forEach (finalizeFK_target env desc) fkTargets w = (r1, w1)"
    by (cases "forEach (finalizeFK_target env desc) fkTargets w")
  then have s1: "steps w w1"
    by (rule forEach_steps [rotated]) (rule finalizeFK_target_steps)
  show ?thesis
  proof (cases r1)
    case (Some e)
    with f l have "w' = w1" by (simp add: finalizeFKs_def)
    with s1 show ?thesis by simp
  next
    case None
    show ?thesis
    proof (cases "load w1 desc")
      case (Inl e)
      with f l None have "w' = w1" by (simp add: finalizeFKs_def)
      with s1 show ?thesis by simp
    next
      case (Inr descv)
      show ?thesis
      proof (cases "tbl_State descv = TableDescriptor_ADD")
        case False
        with f l None Inr have "w' = w1" by (simp add: finalizeFKs_def)
        with s1 show ?thesis by simp
      next
        case True
        have C: "steps w1 (store w1 desc (descv\<lparr>tbl_State := TableDescriptor_PUBLIC\<rparr>))"
          using Inr by (intro store_steps) (auto simp: load_Inr intro: descStep.state)
        from f l None Inr True have "saveNonmutationAndNotify env desc
              (store w1 desc (descv\<lparr>tbl_State := TableDescriptor_PUBLIC\<rparr>)) = (r, w')"
          by (simp add: finalizeFKs_def)
        then show ?thesis using s1 C saveNonmutationAndNotify_steps steps_trans by blast
      qed
    qed
  qed
qed

lemma getTableDesc_heap:
  "getTableDesc env w name = (r, w') \<Longrightarrow> \<exists>objs. heap w' = heap w @ objs"
  by (auto simp: getTableDesc_def split: prod.splits)

lemma mustGetTableDesc_heap:
  "mustGetTableDesc env w name = (r, w') \<Longrightarrow> \<exists>objs. heap w' = heap w @ objs"
  by (auto simp: mustGetTableDesc_def split: prod.splits)

lemma getTableDescFromID_heap:
  "getTableDescFromID env w tid = (r, w') \<Longrightarrow> \<exists>objs. heap w' = heap w @ objs"
  by (auto simp: getTableDescFromID_def split: prod.splits)

lemma attachToIndexes_Some:
  "attachToIndexes idxs sid ref = Inr (Some (idxs', iid)) \<Longrightarrow>
   \<exists>k<length idxs. idxs' = idxs[k := (idxs ! k)\<lparr>idx_ForeignKey := Some ref\<rparr>] \<and>
      idx_ID (idxs ! k) = iid \<and> leadsWith sid (idxs ! k) \<and> (\<forall>j<k. \<not> leadsWith sid (idxs ! j))"
proof (induction idxs arbitrary: idxs')
  case Nil
  then show ?case by simp
next
  case (Cons a idxs)
  obtain c cs where c: "idx_ColumnIDs a = c # cs"
    using Cons.prems by (cases "idx_ColumnIDs a") auto
  show ?case
  proof (cases "c = sid")
    case True
    with Cons.prems c have "idxs' = a\<lparr>idx_ForeignKey := Some ref\<rparr> # idxs" "idx_ID a = iid"
      by auto
    moreover have "leadsWith sid a" using c True by (simp add: leadsWith_def)
    ultimately show ?thesis by (intro exI [of _ 0]) simp
  next
    case False
    with Cons.prems c obtain rest' where
      r: "attachToIndexes idxs sid ref = Inr (Some (rest', iid))" and i: "idxs' = a # rest'"
      by (auto split: sum.splits option.splits)
    from Cons.IH [OF r] obtain k where k: "k < length idxs"
      "rest' = idxs[k := (idxs ! k)\<lparr>idx_ForeignKey := Some ref\<rparr>]"
      "idx_ID (idxs ! k) = iid" "leadsWith sid (idxs ! k)" "\<forall>j<k. \<not> leadsWith sid (idxs ! j)"
      by blast
    have "\<not> leadsWith sid a" using c False by (simp add: leadsWith_def)
    with k i show ?thesis
      by (intro exI [of _ "Suc k"]) (auto simp: nth_Cons split: nat.splits)
  qed
qed

lemma attachForeignKey_Some:
  assumes "attachForeignKey d sid ref = Inr (Some (d', iid))"
  shows "\<exists>r. refPos r < length (allIndexes d) \<and>
           d' = updateIndexAt d r (\<lambda>i. i\<lparr>idx_ForeignKey := Some ref\<rparr>) \<and>
           idx_ID (indexAt d r) = iid \<and> leadsWith sid (indexAt d r) \<and>
           (\<forall>j<refPos r. \<not> leadsWith sid (allIndexes d ! j))"
proof -
  obtain c cs where c: "idx_ColumnIDs (tbl_PrimaryIndex d) = c # cs"
    using assms by (cases "idx_ColumnIDs (tbl_PrimaryIndex d)") (auto simp: attachForeignKey_def)
  show ?thesis
  proof (cases "c = sid")
    case True
    with assms c show ?thesis
      by (intro exI [of _ PrimaryIndexRef])
         (auto simp: attachForeignKey_def allIndexes_def leadsWith_def)
  next
    case False
    with assms c obtain idxs' where
      a: "attachToIndexes (tbl_Indexes d) sid ref = Inr (Some (idxs', iid))"
      and d': "d' = d\<lparr>tbl_Indexes := idxs'\<rparr>"
      by (auto simp: attachForeignKey_def split: sum.splits option.splits)
    from attachToIndexes_Some [OF a] obtain k where k: "k < length (tbl_Indexes d)"
      "idxs' = (tbl_Indexes d)[k := (tbl_Indexes d ! k)\<lparr>idx_ForeignKey := Some ref\<rparr>]"
      "idx_ID (tbl_Indexes d ! k) = iid" "leadsWith sid (tbl_Indexes d ! k)"
      "\<forall>j<k. \<not> leadsWith sid (tbl_Indexes d ! j)"
      by blast
    have "\<not> leadsWith sid (tbl_PrimaryIndex d)" using c False by (simp add: leadsWith_def)
    with k d' show ?thesis
      by (intro exI [of _ "SecondaryIndexRef k"])
         (auto simp: allIndexes_def nth_Cons split: nat.splits)
  qed
qed

lemma resolveColFK_reference_heap:
  assumes "resolveColFK_reference env tbl fromCol targetTable targetColName constraintName w = (r, w')"
  shows "\<exists>objs. heap w' = heap w @ objs"
proof -
  obtain r0 w1 where g: "getTableDesc env w targetTable = (r0, w1)"
    by (cases "getTableDesc env w targetTable")
  have "w' = w \<or> w' = w1"
    using assms g
    by (auto simp: resolveColFK_reference_def Let_def
        split: sum.splits option.splits if_splits prod.splits)
  with g show ?thesis using getTableDesc_heap by fastforce
qed

lemma resolveColFK_steps:
  assumes f: "resolveColFK env tbl fromCol targetTable targetColName constraintName w = (r, w')"
  shows "steps w w'"
proof -
  obtain r1 w1 where rf:
    "resolveColFK_reference env tbl fromCol targetTable targetColName constraintName w = (r1, w1)"
    by (cases "resolveColFK_reference env tbl fromCol targetTable targetColName constraintName w")
  then have s1: "steps w w1" using resolveColFK_reference_heap steps_append by blast
  show ?thesis
  proof (cases r1)
    case (Inl e)
    with f rf have "w' = w1" by (simp add: resolveColFK_def)
    with s1 show ?thesis by simp
  next
    case (Inr x)
    obtain src target targetIdx ref where x: "x = (src, target, targetIdx, ref)" by (cases x)
    show ?thesis
    proof (cases "load w1 tbl")
      case (Inl e)
      with f rf Inr x have "w' = w1" by (simp add: resolveColFK_def)
      with s1 show ?thesis by simp
    next
      case tv: (Inr tblv)
      show ?thesis
      proof (cases "attachForeignKey tblv (col_ID src) ref")
        case (Inl e)
        with f rf Inr x tv have "w' = w1" by (simp add: resolveColFK_def)
        with s1 show ?thesis by simp
      next
        case a: (Inr res)
        show ?thesis
        proof (cases res)
          case None
          with f rf Inr x tv a have "w' = w1" by (simp add: resolveColFK_def)
          with s1 show ?thesis by simp
        next
          case (Some p)
          obtain tblv1 srcIdx where p: "p = (tblv1, srcIdx)" by (cases p)
          with f rf Inr x tv a Some have w': "w' = store w1 tbl (tblv1\<lparr>tbl_State := TableDescriptor_ADD\<rparr>)"
            by (simp add: resolveColFK_def)
          from a Some p obtain r where r: "refPos r < length (allIndexes tblv)"
            "tblv1 = updateIndexAt tblv r (\<lambda>i. i\<lparr>idx_ForeignKey := Some ref\<rparr>)"
            using attachForeignKey_Some by blast
          have "descStep tblv tblv1"
            unfolding r(2) using r(1) by (rule updateIndexAt_step) (simp add: indexStep.foreignKey)
          then have "descStep\<^sup>*\<^sup>* tblv (tblv1\<lparr>tbl_State := TableDescriptor_ADD\<rparr>)"
            using descStep.state [of tblv1 TableDescriptor_ADD] by auto
          then have "steps w1 w'"
            unfolding w' using tv by (intro store_steps) (auto simp: load_Inr)
          with s1 show ?thesis using steps_trans by blast
        qed
      qed
    qed
  qed
qed

lemma Start_resolveFKs_steps:
  "Start_resolveFKs env desc defs w = (r, w') \<Longrightarrow> steps w w'"
proof (induction defs arbitrary: w r w')
  case Nil
  then show ?case by (simp add: steps_refl)
next
  case (Cons d defs)
  show ?case
  proof (cases d)
    case (ColumnDef col)
    show ?thesis
    proof (cases "ctd_References_Table col")
      case None
      with Cons ColumnDef show ?thesis by simp
    next
      case (Some targetTable)
      obtain r1 w1 where rc: "resolveColFK env desc (ctd_Name col) targetTable (ctd_References_Col col)
                    (ctd_References_ConstraintName col) w = (r1, w1)"
        by (cases "resolveColFK env desc (ctd_Name col) targetTable (ctd_References_Col col)
                    (ctd_References_ConstraintName col) w")
      then have s1: "steps w w1" by (rule resolveColFK_steps)
      show ?thesis
      proof (cases r1)
        case (Inl e)
        with Cons.prems ColumnDef Some rc have "w' = w1" by simp
        with s1 show ?thesis by simp
      next
        case (Inr modified)
        obtain r2 w2 where rest: "Start_resolveFKs env desc defs w1 = (r2, w2)"
          by (cases "Start_resolveFKs env desc defs w1")
        then have "steps w1 w2" by (rule Cons.IH)
        moreover from Cons.prems ColumnDef Some rc Inr rest have "w' = w2"
          by (auto split: sum.splits)
        ultimately show ?thesis using s1 steps_trans by blast
      qed
    qed
  next
    case (IndexDef x)
    with Cons show ?thesis by simp
  next
    case (UniqueConstraintDef x y)
    with Cons show ?thesis by simp
  next
    case (CheckConstraintDef x)
    with Cons show ?thesis by simp
  qed
qed

lemma addInterleave_heap:
  assumes "addInterleave env desc index interleave w = (r, w')"
  shows "\<exists>objs. heap w' = heap w @ objs"
proof -
  obtain r0 w1 where g: "mustGetTableDesc env w (ild_Parent interleave) = (r0, w1)"
    by (cases "mustGetTableDesc env w (ild_Parent interleave)")
  have "w' = w \<or> w' = w1"
    using assms g
    by (auto simp: addInterleave_def Let_def split: sum.splits option.splits if_splits prod.splits)
  with g show ?thesis using mustGetTableDesc_heap by fastforce
qed

lemma Start_tableInterleave_steps:
  assumes f: "Start_tableInterleave env node desc w = (r, w')"
  shows "steps w w'"
proof (cases "ct_Interleave (ctn_n node)")
  case None
  with f show ?thesis by (simp add: Start_tableInterleave_def steps_refl)
next
  case (Some interleave)
  show ?thesis
  proof (cases "load w desc")
    case (Inl e)
    with f Some show ?thesis by (simp add: Start_tableInterleave_def steps_refl)
  next
    case dv: (Inr descv)
    obtain r1 w1 where a: "addInterleave env descv (tbl_PrimaryIndex descv) interleave w = (r1, w1)"
      by (cases "addInterleave env descv (tbl_PrimaryIndex descv) interleave w")
    then obtain objs where h: "heap w1 = heap w @ objs" using addInterleave_heap by blast
    then have s1: "steps w w1" by (rule steps_append)
    show ?thesis
    proof (cases r1)
      case (Inl e)
      with f Some dv a have "w' = w1" by (simp add: Start_tableInterleave_def)
      with s1 show ?thesis by simp
    next
      case (Inr index1)
      with f Some dv a have w': "w' = store w1 desc (descv\<lparr>tbl_PrimaryIndex := index1\<rparr>)"
        by (simp add: Start_tableInterleave_def)
      from a Inr have "\<exists>anc. index1 = (tbl_PrimaryIndex descv)\<lparr>idx_Interleave := anc\<rparr>"
        by (auto simp: addInterleave_def Let_def split: sum.splits option.splits if_splits prod.splits)
      then have "descStep descv (descv\<lparr>tbl_PrimaryIndex := index1\<rparr>)"
        by (auto intro!: descStep.primary indexStep.interleave)
      moreover have "desc < length (heap w1)" "heap w1 ! desc = descv"
        using dv h by (auto simp: load_Inr nth_append)
      ultimately have "steps w1 w'"
        unfolding w' by (intro store_steps) auto
      with s1 show ?thesis using steps_trans by blast
    qed
  qed
qed

lemma finalizeInterleave_ancestor_steps:
  assumes f: "finalizeInterleave_ancestor env desc indexID ancestor w = (r, w')"
  shows "steps w w'"
proof -
  obtain r1 w1 where g: "getTableDescFromID env w (anc_TableID ancestor) = (r1, w1)"
    by (cases "getTableDescFromID env w (anc_TableID ancestor)")
  then have s1: "steps w w1" using getTableDescFromID_heap steps_append by blast
  show ?thesis
  proof (cases r1)
    case (Inl e)
    with f g have "w' = w1" by (simp add: finalizeInterleave_ancestor_def)
    with s1 show ?thesis by simp
  next
    case p: (Inr p)
    show ?thesis
    proof (cases "load w1 p")
      case (Inl e)
      with f g p have "w' = w1" by (simp add: finalizeInterleave_ancestor_def)
      with s1 show ?thesis by simp
    next
      case at: (Inr ancestorTable)
      show ?thesis
      proof (cases "FindIndexByID ancestorTable (anc_IndexID ancestor)")
        case (Inl e)
        with f g p at have "w' = w1" by (simp add: finalizeInterleave_ancestor_def)
        with s1 show ?thesis by simp
      next
        case ai: (Inr ancestorIndex)
        show ?thesis
        proof (cases "load w1 desc")
          case (Inl e)
          with f g p at ai have "w' = w1" by (simp add: finalizeInterleave_ancestor_def)
          with s1 show ?thesis by simp
        next
          case dv: (Inr descv)
          define w2 where "w2 = store w1 p
               (updateIndexAt ancestorTable ancestorIndex
                  (\<lambda>i. i\<lparr>idx_InterleavedBy := idx_InterleavedBy i @
                          [\<lparr>fk_Table = tbl_ID descv, fk_Index = indexID, fk_Name = ''''\<rparr>]\<rparr>))"
          have "descStep\<^sup>*\<^sup>* ancestorTable (updateIndexAt ancestorTable ancestorIndex
                  (\<lambda>i. i\<lparr>idx_InterleavedBy := idx_InterleavedBy i @
                          [\<lparr>fk_Table = tbl_ID descv, fk_Index = indexID, fk_Name = ''''\<rparr>]\<rparr>))"
            using ai by (rule FindIndexByID_update_steps) (simp add: indexStep.interleavedBy)
          then have s2: "steps w1 w2"
            unfolding w2_def using at by (intro store_steps) (auto simp: load_Inr)
          from f g p at ai dv have "saveNonmutationAndNotify env p w2 = (r, w')"
            by (simp add: finalizeInterleave_ancestor_def w2_def)
          then have "steps w2 w'" by (rule saveNonmutationAndNotify_steps)
          with s1 s2 show ?thesis using steps_trans by blast
        qed
      qed
    qed
  qed
qed

lemma finalizeInterleave_steps:
  assumes "finalizeInterleave env desc index w = (r, w')"
  shows "steps w w'"
proof -
  from assms have "forEach (finalizeInterleave_ancestor env desc (idx_ID index))
      (idx_Interleave index) w = (r, w')"
    by (simp add: finalizeInterleave_def)
  then show ?thesis
    by (rule forEach_steps [rotated]) (rule finalizeInterleave_ancestor_steps)
qed

lemma Start_finalizeInterleaves_steps:
  assumes f: "Start_finalizeInterleaves env desc w = (r, w')"
  shows "steps w w'"
proof (cases "load w desc")
  case (Inl e)
  with f show ?thesis by (simp add: Start_finalizeInterleaves_def steps_refl)
next
  case (Inr descv)
  with f have "forEach (\<lambda>index w'. if length (idx_Interleave index) > 0
                              then finalizeInterleave env desc index w'
                              else (None, w'))
            (AllNonDropIndexes descv) w = (r, w')"
    by (simp add: Start_finalizeInterleaves_def)
  then show ?thesis
    by (rule forEach_steps [rotated])
       (auto split: if_splits intro: finalizeInterleave_steps steps_refl)
qed

lemma createTableNode_Start_steps:
  assumes f: "createTableNode_Start env maxReservedDescID node w = (r, w')"
  shows "(\<exists>e. Start_newDescriptor env node = Inl e \<and> r = Some e \<and> w' = w) \<or>
         (\<exists>desc0. Start_newDescriptor env node = Inr desc0 \<and>
            steps (w\<lparr>heap := heap w @ [desc0]\<rparr>) w')"
proof (cases "Start_newDescriptor env node")
  case (Inl e)
  with f show ?thesis by (simp add: createTableNode_Start_def)
next
  case nd: (Inr desc0)
  define desc where "desc = length (heap w)"
  define n where "n = hoistConstraints (ctn_n node)"
  define w0 where "w0 = w\<lparr>heap := heap w @ [desc0]\<rparr>"
  obtain r1 w1 where p1: "Start_tableInterleave env node desc w0 = (r1, w1)"
    by (cases "Start_tableInterleave env node desc w0")
  then have s1: "steps w0 w1" by (rule Start_tableInterleave_steps)
  obtain r2 w2 where p2: "Start_resolveFKs env desc (ct_Defs n) w1 = (r2, w2)"
    by (cases "Start_resolveFKs env desc (ct_Defs n) w1")
  then have s2: "steps w1 w2" by (rule Start_resolveFKs_steps)
  have s02: "steps w0 w2" using s1 s2 steps_trans by blast
  have "steps w0 w'"
  proof (cases r1)
    case (Some e)
    with f nd p1 have "w' = w1"
      by (simp add: createTableNode_Start_def Let_def desc_def w0_def)
    with s1 show ?thesis by simp
  next
    case r1: None
    show ?thesis
    proof (cases r2)
      case (Inl e)
      with f nd p1 p2 r1 have "w' = w2"
        by (simp add: createTableNode_Start_def Let_def desc_def w0_def n_def)
      with s02 show ?thesis by simp
    next
      case r2: (Inr fkTargets)
      show ?thesis
      proof (cases "load w2 desc")
        case (Inl e)
        with f nd p1 p2 r1 r2 have "w' = w2"
          by (simp add: createTableNode_Start_def Let_def desc_def w0_def n_def)
        with s02 show ?thesis by simp
      next
        case d1: (Inr desc1)
        show ?thesis
        proof (cases "Start_validate env maxReservedDescID desc1")
          case (Some e)
          with f nd p1 p2 r1 r2 d1 have "w' = w2"
            by (simp add: createTableNode_Start_def Let_def desc_def w0_def n_def)
          with s02 show ?thesis by simp
        next
          case v: None
          show ?thesis
          proof (cases "c_createDescriptor env w2 (db_ID (ctn_dbDesc node), ct_Table n) desc1
                          (ct_IfNotExists n)")
            case (Inl e)
            with f nd p1 p2 r1 r2 d1 v have "w' = w2"
              by (simp add: createTableNode_Start_def Let_def desc_def w0_def n_def)
            with s02 show ?thesis by simp
          next
            case c: (Inr created)
            define w3 where "w3 = (case created of
                       None \<Rightarrow> w2
                     | Some newID \<Rightarrow> store w2 desc (desc1\<lparr>tbl_ID := newID\<rparr>))"
            have s3: "steps w2 w3"
            proof (cases created)
              case None
              then show ?thesis by (simp add: w3_def steps_refl)
            next
              case (Some newID)
              have "steps w2 (store w2 desc (desc1\<lparr>tbl_ID := newID\<rparr>))"
                using d1 by (intro store_steps) (auto simp: load_Inr intro: descStep.newID)
              with Some show ?thesis by (simp add: w3_def)
            qed
            obtain r4 w4 where p4: "finalizeFKs env desc fkTargets w3 = (r4, w4)"
              by (cases "finalizeFKs env desc fkTargets w3")
            then have s4: "steps w3 w4" by (rule finalizeFKs_steps)
            obtain r5 w5 where p5: "Start_finalizeInterleaves env desc w4 = (r5, w5)"
              by (cases "Start_finalizeInterleaves env desc w4")
            then have s5: "steps w4 w5" by (rule Start_finalizeInterleaves_steps)
            have s04: "steps w0 w4" using s02 s3 s4 steps_trans by blast
            have s05: "steps w0 w5" using s04 s5 steps_trans by blast
            have "w' = w4 \<or> heap w' = heap w5"
              using f nd p1 p2 r1 r2 d1 v c p4 p5
              by (auto simp: createTableNode_Start_def Let_def desc_def [symmetric]
                  w0_def [symmetric] n_def [symmetric] w3_def [symmetric]
                  split: option.splits sum.splits if_splits)
            then show ?thesis
            proof
              assume "w' = w4"
              with s04 show ?thesis by simp
            next
              assume "heap w' = heap w5"
              then have "steps w5 w'" by (rule steps_refl)
              with s05 show ?thesis using steps_trans by blast
            qed
          qed
        qed
      qed
    qed
  qed
  with nd show ?thesis by (simp add: w0_def)
qed

section \<open>The table of a CREATE TABLE without primary key\<close>

lemma indexStep_shape:
  "indexStep i i' \<Longrightarrow>
   idx_ID i' = idx_ID i \<and> idx_Name i' = idx_Name i \<and> idx_Unique i' = idx_Unique i \<and>
   idx_ColumnNames i' = idx_ColumnNames i \<and> idx_ColumnDirections i' = idx_ColumnDirections i \<and>
   idx_ColumnIDs i' = idx_ColumnIDs i \<and> idx_StoreColumnNames i' = idx_StoreColumnNames i"
  by (induction rule: indexStep.induct) simp_all

lemma descStep_primary_shape:
  "descStep d d' \<Longrightarrow>
   tbl_Columns d' = tbl_Columns d \<and> tbl_Name d' = tbl_Name d \<and>
   idx_Unique (tbl_PrimaryIndex d') = idx_Unique (tbl_PrimaryIndex d) \<and>
   idx_ColumnNames (tbl_PrimaryIndex d') = idx_ColumnNames (tbl_PrimaryIndex d) \<and>
   idx_ColumnDirections (tbl_PrimaryIndex d') = idx_ColumnDirections (tbl_PrimaryIndex d)"
  by (induction rule: descStep.induct) (auto dest: indexStep_shape)

lemma descSteps_primary_shape:
  "descStep\<^sup>*\<^sup>* d d' \<Longrightarrow>
   tbl_Columns d' = tbl_Columns d \<and> tbl_Name d' = tbl_Name d \<and>
   idx_Unique (tbl_PrimaryIndex d') = idx_Unique (tbl_PrimaryIndex d) \<and>
   idx_ColumnNames (tbl_PrimaryIndex d') = idx_ColumnNames (tbl_PrimaryIndex d) \<and>
   idx_ColumnDirections (tbl_PrimaryIndex d') = idx_ColumnDirections (tbl_PrimaryIndex d)"
  by (induction rule: rtranclp_induct) (auto dest: descStep_primary_shape)

lemma filter_Hidden_columnShape:
  "map columnShape (filter col_Hidden cs) = filter col_Hidden (map columnShape cs)"
  by (induction cs) (simp_all add: columnShape_def)

text \<open>
  C4. A CREATE TABLE whose \<^verbatim>\<open>Start\<close> succeeds and whose descriptor, as built from the
  statement, has no primary-key column. The descriptor builder and the ID allocator are
  collaborators: the builder makes no hidden column, and ID allocation changes no
  column but in its ID and keeps uniqueness, column names and directions of the primary
  index. Then the new table's descriptor (the object \<^verbatim>\<open>Start\<close> adds to the heap) has
  exactly one hidden column: it is named \<open>rowid\<close>, of kind INT, not nullable, with the
  default expression \<open>unique_rowid()\<close>; and its primary index is unique, over the single
  column \<open>rowid\<close>, ascending.
\<close>

theorem createTableNode_Start_rowid:
  assumes start: "createTableNode_Start env maxReservedDescID node w = (None, w')"
      and mk: "c_MakeTableDesc env (hoistConstraints (ctn_n node)) (db_ID (ctn_dbDesc node)) = Inr made"
      and nopk: "idx_ColumnNames (tbl_PrimaryIndex made) = []"
      and visible: "\<forall>c\<in>set (tbl_Columns made). \<not> col_Hidden c"
      and alloc: "\<forall>d d'. c_AllocateIDs env d = (None, d') \<longrightarrow>
                    map columnShape (tbl_Columns d') = map columnShape (tbl_Columns d) \<and>
                    idx_Unique (tbl_PrimaryIndex d') = idx_Unique (tbl_PrimaryIndex d) \<and>
                    idx_ColumnNames (tbl_PrimaryIndex d') = idx_ColumnNames (tbl_PrimaryIndex d) \<and>
                    idx_ColumnDirections (tbl_PrimaryIndex d') = idx_ColumnDirections (tbl_PrimaryIndex d)"
  shows "length (heap w) < length (heap w') \<and>
         map columnShape (filter col_Hidden (tbl_Columns (heap w' ! length (heap w)))) =
           [\<lparr>col_Name = ''rowid'', col_ID = 0,
             col_Type = \<lparr>ctype_Kind = ColumnType_INT, ctype_Width = 0, ctype_Precision = 0\<rparr>,
             col_Nullable = False, col_DefaultExpr = Some ''unique_rowid()'', col_Hidden = True\<rparr>] \<and>
         idx_Unique (tbl_PrimaryIndex (heap w' ! length (heap w))) \<and>
         idx_ColumnNames (tbl_PrimaryIndex (heap w' ! length (heap w))) = [''rowid''] \<and>
         idx_ColumnDirections (tbl_PrimaryIndex (heap w' ! length (heap w))) = [IndexDescriptor_ASC]"
proof -
  let ?rowid = "\<lparr>col_Name = ''rowid'', col_ID = 0,
             col_Type = \<lparr>ctype_Kind = ColumnType_INT, ctype_Width = 0, ctype_Precision = 0\<rparr>,
             col_Nullable = False, col_DefaultExpr = Some ''unique_rowid()'', col_Hidden = True\<rparr>"
  from createTableNode_Start_steps [OF start] obtain desc0 where
    nd: "Start_newDescriptor env node = Inr desc0"
    and st: "steps (w\<lparr>heap := heap w @ [desc0]\<rparr>) w'"
    by auto
  from st have len: "length (heap w) < length (heap w')"
    and "descStep\<^sup>*\<^sup>* desc0 (heap w' ! length (heap w))"
    by (auto simp: heapRel_iff nth_append dest: spec [of _ "length (heap w)"])
  then have fin: "tbl_Columns (heap w' ! length (heap w)) = tbl_Columns desc0"
    "idx_Unique (tbl_PrimaryIndex (heap w' ! length (heap w))) = idx_Unique (tbl_PrimaryIndex desc0)"
    "idx_ColumnNames (tbl_PrimaryIndex (heap w' ! length (heap w))) = idx_ColumnNames (tbl_PrimaryIndex desc0)"
    "idx_ColumnDirections (tbl_PrimaryIndex (heap w' ! length (heap w))) =
       idx_ColumnDirections (tbl_PrimaryIndex desc0)"
    using descSteps_primary_shape by blast+
  define d1 where "d1 = (made\<lparr>tbl_Privileges := db_Privileges (ctn_dbDesc node)\<rparr>)
      \<lparr>tbl_Columns := tbl_Columns made @ [?rowid],
       tbl_PrimaryIndex := \<lparr>idx_Name = '''', idx_ID = 0, idx_Unique = True,
                    idx_ColumnNames = [''rowid''],
                    idx_ColumnDirections = [IndexDescriptor_ASC], idx_StoreColumnNames = [],
                    idx_ColumnIDs = [], idx_ForeignKey = None, idx_ReferencedBy = [],
                    idx_Interleave = [], idx_InterleavedBy = []\<rparr>\<rparr>"
  have e: "Start_ensurePrimaryKey (made\<lparr>tbl_Privileges := db_Privileges (ctn_dbDesc node)\<rparr>) = Inr d1"
    using nopk by (simp add: Start_ensurePrimaryKey_def AddColumn_def AddIndex_def d1_def)
  from nd mk e have a: "c_AllocateIDs env d1 = (None, desc0)"
    by (auto simp: Start_newDescriptor_def split: prod.splits option.splits)
  with alloc have sh: "map columnShape (tbl_Columns desc0) = map columnShape (tbl_Columns d1)"
    "idx_Unique (tbl_PrimaryIndex desc0) = idx_Unique (tbl_PrimaryIndex d1)"
    "idx_ColumnNames (tbl_PrimaryIndex desc0) = idx_ColumnNames (tbl_PrimaryIndex d1)"
    "idx_ColumnDirections (tbl_PrimaryIndex desc0) = idx_ColumnDirections (tbl_PrimaryIndex d1)"
    by blast+
  have "filter col_Hidden (map columnShape (tbl_Columns made)) = []"
    using visible by (auto simp: filter_empty_conv columnShape_def)
  then have "filter col_Hidden (map columnShape (tbl_Columns d1)) = [?rowid]"
    by (simp add: d1_def columnShape_def)
  then have "map columnShape (filter col_Hidden (tbl_Columns desc0)) = [?rowid]"
    by (simp add: filter_Hidden_columnShape sh)
  with len fin sh show ?thesis by (simp add: d1_def)
qed

lemma exampleNumberColumns_shape:
  "map columnShape (exampleNumberColumns k cs) = map columnShape cs"
  by (induction cs arbitrary: k) (simp_all add: columnShape_def)

lemma exampleAllocateIDs_keeps:
  "exampleAllocateIDs d = (None, d') \<Longrightarrow>
     map columnShape (tbl_Columns d') = map columnShape (tbl_Columns d) \<and>
     idx_Unique (tbl_PrimaryIndex d') = idx_Unique (tbl_PrimaryIndex d) \<and>
     idx_ColumnNames (tbl_PrimaryIndex d') = idx_ColumnNames (tbl_PrimaryIndex d) \<and>
     idx_ColumnDirections (tbl_PrimaryIndex d') = idx_ColumnDirections (tbl_PrimaryIndex d)"
  by (auto simp: exampleAllocateIDs_def Let_def exampleNumberColumns_shape)

theorem createTableNode_Start_rowid_witness:
  "fst (createTableNode_Start exampleCollaborators 49
          (exampleCreateTable [exampleColumnDef ''y'' False True None '''']) exampleWorld) = None
   \<and> map columnShape (filter col_Hidden (tbl_Columns
        (heap (snd (createTableNode_Start exampleCollaborators 49
          (exampleCreateTable [exampleColumnDef ''y'' False True None '''']) exampleWorld)) ! 1))) =
           [\<lparr>col_Name = ''rowid'', col_ID = 0,
             col_Type = \<lparr>ctype_Kind = ColumnType_INT, ctype_Width = 0, ctype_Precision = 0\<rparr>,
             col_Nullable = False, col_DefaultExpr = Some ''unique_rowid()'', col_Hidden = True\<rparr>]
   \<and> idx_ColumnNames (tbl_PrimaryIndex
        (heap (snd (createTableNode_Start exampleCollaborators 49
          (exampleCreateTable [exampleColumnDef ''y'' False True None '''']) exampleWorld)) ! 1))
       = [''rowid'']"
proof -
  let ?node = "exampleCreateTable [exampleColumnDef ''y'' False True None '''']"
  let ?res = "createTableNode_Start exampleCollaborators 49 ?node exampleWorld"
  have "fst ?res = None"
    by code_simp
  then have start: "?res = (None, snd ?res)"
    by (metis prod.collapse)
  have mk: "c_MakeTableDesc exampleCollaborators (hoistConstraints (ctn_n ?node)) (db_ID (ctn_dbDesc ?node))
      = Inr ((exampleTable ''xyz'' 0 [exampleColumn ''y'' 0 ColumnType_INT]
               (exampleIndex ''primary'' 0 True [] [])
               [exampleIndex ''y_key'' 0 True [''y''] []])\<lparr>tbl_ParentID := 50\<rparr>)"
    by (simp add: exampleCollaborators_def exampleMakeTableDesc_def exampleCreateTable_def
        exampleColumnDef_def hoistConstraints_def exampleColumn_def)
  have nopk: "idx_ColumnNames (tbl_PrimaryIndex ((exampleTable ''xyz'' 0 [exampleColumn ''y'' 0 ColumnType_INT]
               (exampleIndex ''primary'' 0 True [] [])
               [exampleIndex ''y_key'' 0 True [''y''] []])\<lparr>tbl_ParentID := 50\<rparr>)) = []"
    by (simp add: example_defs)
  have visible: "\<forall>c\<in>set (tbl_Columns ((exampleTable ''xyz'' 0 [exampleColumn ''y'' 0 ColumnType_INT]
               (exampleIndex ''primary'' 0 True [] [])
               [exampleIndex ''y_key'' 0 True [''y''] []])\<lparr>tbl_ParentID := 50\<rparr>)). \<not> col_Hidden c"
    by (simp add: example_defs)
  have alloc: "\<forall>d d'. c_AllocateIDs exampleCollaborators d = (None, d') \<longrightarrow>
                    map columnShape (tbl_Columns d') = map columnShape (tbl_Columns d) \<and>
                    idx_Unique (tbl_PrimaryIndex d') = idx_Unique (tbl_PrimaryIndex d) \<and>
                    idx_ColumnNames (tbl_PrimaryIndex d') = idx_ColumnNames (tbl_PrimaryIndex d) \<and>
                    idx_ColumnDirections (tbl_PrimaryIndex d') = idx_ColumnDirections (tbl_PrimaryIndex d)"
    using exampleAllocateIDs_keeps by (simp add: exampleCollaborators_def)
  have len: "length (heap exampleWorld) = 1" by (simp add: example_defs)
  show ?thesis
    using createTableNode_Start_rowid [OF start mk nopk visible alloc] \<open>fst ?res = None\<close>
    by (simp add: len)
qed

section \<open>Saving the referenced tables\<close>

text \<open>
  C5 does not hold of the code. \<open>CREATE TABLE xyz (x INT PRIMARY KEY REFERENCES abc (a),
  y INT UNIQUE REFERENCES abc (b))\<close> declares two foreign keys into \<open>abc\<close> (ID 51).
  \<^verbatim>\<open>Start\<close> succeeds, and \<^verbatim>\<open>finalizeFKs\<close> has saved \<open>abc\<close> once per foreign key: the
  descriptors written are \<open>abc\<close>, \<open>abc\<close> again and the new table (ID 52), and the schema
  change of table 51 is notified twice.
\<close>

theorem createTableNode_Start_saves_target_per_foreign_key:
  "fst (createTableNode_Start exampleCollaborators 49
          (exampleCreateTable [exampleColumnDef ''x'' True False (Some ''abc'') ''a'',
                               exampleColumnDef ''y'' False True (Some ''abc'') ''b''])
          exampleWorld) = None
   \<and> map tbl_ID (written (snd (createTableNode_Start exampleCollaborators 49
          (exampleCreateTable [exampleColumnDef ''x'' True False (Some ''abc'') ''a'',
                               exampleColumnDef ''y'' False True (Some ''abc'') ''b''])
          exampleWorld))) = [51, 51, 52]
   \<and> notified (snd (createTableNode_Start exampleCollaborators 49
          (exampleCreateTable [exampleColumnDef ''x'' True False (Some ''abc'') ''a'',
                               exampleColumnDef ''y'' False True (Some ''abc'') ''b''])
          exampleWorld)) = [(51, 0), (51, 0), (52, 0)]"
  by code_simp

section \<open>The names of forward and back references\<close>











lemma resolveColFK_Inr:
  assumes f: "resolveColFK env tbl fromCol targetTable targetColName constraintName w = (Inr t, w')"
  shows "\<exists>src target targetIdx ref w1 tblv r.
      resolveColFK_reference env tbl fromCol targetTable targetColName constraintName w =
        (Inr (src, target, targetIdx, ref), w1) \<and>
      load w1 tbl = Inr tblv \<and> refPos r < length (allIndexes tblv) \<and>
      idx_ID (indexAt tblv r) = ftu_srcIdx t \<and> leadsWith (col_ID src) (indexAt tblv r) \<and>
      (\<forall>j<refPos r. \<not> leadsWith (col_ID src) (allIndexes tblv ! j)) \<and>
      ftu_target t = target \<and> ftu_targetIdx t = targetIdx \<and>
      w' = store w1 tbl
             ((updateIndexAt tblv r (\<lambda>i. i\<lparr>idx_ForeignKey := Some ref\<rparr>))
                \<lparr>tbl_State := TableDescriptor_ADD\<rparr>)"
proof -
  obtain r1 w1 where rf:
    "resolveColFK_reference env tbl fromCol targetTable targetColName constraintName w = (r1, w1)"
    by (cases "resolveColFK_reference env tbl fromCol targetTable targetColName constraintName w")
  from f rf obtain x where r1: "r1 = Inr x" by (cases r1) (auto simp: resolveColFK_def)
  obtain src target targetIdx ref where x: "x = (src, target, targetIdx, ref)" by (cases x)
  from f rf r1 x obtain tblv where tv: "load w1 tbl = Inr tblv"
    by (cases "load w1 tbl") (auto simp: resolveColFK_def)
  from f rf r1 x tv obtain tblv1 srcIdx where
    a: "attachForeignKey tblv (col_ID src) ref = Inr (Some (tblv1, srcIdx))"
    by (auto simp: resolveColFK_def split: sum.splits option.splits)
  with f rf r1 x tv have t: "t = \<lparr>ftu_srcIdx = srcIdx, ftu_target = target, ftu_targetIdx = targetIdx\<rparr>"
    and w': "w' = store w1 tbl (tblv1\<lparr>tbl_State := TableDescriptor_ADD\<rparr>)"
    by (auto simp: resolveColFK_def)
  from attachForeignKey_Some [OF a] obtain r where r: "refPos r < length (allIndexes tblv)"
    "tblv1 = updateIndexAt tblv r (\<lambda>i. i\<lparr>idx_ForeignKey := Some ref\<rparr>)"
    "idx_ID (indexAt tblv r) = srcIdx" "leadsWith (col_ID src) (indexAt tblv r)"
    "\<forall>j<refPos r. \<not> leadsWith (col_ID src) (allIndexes tblv ! j)"
    by blast
  show ?thesis
    using rf r1 x tv r t w' by (intro exI [of _ src] exI [of _ target] exI [of _ targetIdx]
        exI [of _ ref] exI [of _ w1] exI [of _ tblv] exI [of _ r]) simp
qed

lemma allIndexes_State: "allIndexes (d\<lparr>tbl_State := s\<rparr>) = allIndexes d"
  by (simp add: allIndexes_def)

lemma allIndexes_UpVersion: "allIndexes (d\<lparr>tbl_UpVersion := s\<rparr>) = allIndexes d"
  by (simp add: allIndexes_def)

lemma allIndexes_ID: "allIndexes (d\<lparr>tbl_ID := s\<rparr>) = allIndexes d"
  by (simp add: allIndexes_def)





section \<open>Forward and back references of the foreign keys\<close>

lemma distinctIndexIDs_iff:
  "distinctIndexIDs w \<longleftrightarrow> (\<forall>p<length (heap w). distinct (map idx_ID (allIndexes (heap w ! p))))"
  by (auto simp: distinctIndexIDs_def list_all_length)

lemma distinct_ID_nth:
  "distinct (map idx_ID xs) \<Longrightarrow> k < length xs \<Longrightarrow> m < length xs \<Longrightarrow>
   idx_ID (xs ! m) = idx_ID (xs ! k) \<longleftrightarrow> m = k"
  using nth_eq_iff_index_eq [of "map idx_ID xs" m k] by auto

lemma finalizedIndex_Nil: "finalizedIndex n [] desc p i i"
  by (simp add: finalizedIndex_def)

lemma finalizedWorld_same_indexes:
  assumes "length (heap w') = length (heap w)"
    "\<forall>p<length (heap w). tbl_ID (heap w' ! p) = tbl_ID (heap w ! p) \<and>
        allIndexes (heap w' ! p) = allIndexes (heap w ! p)"
  shows "finalizedWorld n [] desc w w'"
  using assms by (simp add: finalizedWorld_def list_all2_refl finalizedIndex_Nil)

lemma finalizedIndex_append:
  assumes "finalizedIndex n ts desc p a b" "finalizedIndex n ts' desc p b c"
  shows "finalizedIndex n (ts @ ts') desc p a c"
  using assms
  by (cases "idx_ForeignKey a")
     (auto simp: finalizedIndex_def list_ex_iff option.map_comp comp_def)

lemma finalizedWorld_append:
  assumes "finalizedWorld n ts desc w w'" "finalizedWorld n ts' desc w' w''"
  shows "finalizedWorld n (ts @ ts') desc w w''"
proof -
  have "list_all2 (finalizedIndex n (ts @ ts') desc p)
          (allIndexes (heap w ! p)) (allIndexes (heap w'' ! p))" if "p < length (heap w)" for p
  proof -
    from that assms have
      a: "list_all2 (finalizedIndex n ts desc p) (allIndexes (heap w ! p)) (allIndexes (heap w' ! p))"
      and b: "list_all2 (finalizedIndex n ts' desc p) (allIndexes (heap w' ! p)) (allIndexes (heap w'' ! p))"
      by (auto simp: finalizedWorld_def)
    from a b show ?thesis
      by (rule list_all2_trans [rotated]) (rule finalizedIndex_append)
  qed
  with assms show ?thesis by (auto simp: finalizedWorld_def)
qed

lemma finalizedIndex_other: "ftu_target t \<noteq> p \<Longrightarrow> finalizedIndex n [t] desc p i i"
  by (auto simp: finalizedIndex_def)

lemma finalizedIndex_lists:
  assumes "distinct (map idx_ID xs)" "kT < length xs" "idx_ID (xs ! kT) = ftu_targetIdx t"
      and "ftu_target t = p" "length ys = length xs"
      and "\<forall>m<length xs.
             idx_ID (ys ! m) = idx_ID (xs ! m) \<and>
             idx_ReferencedBy (ys ! m) =
               (if m = kT then idx_ReferencedBy (xs ! m) @
                                 [\<lparr>fk_Table = n, fk_Index = ftu_srcIdx t, fk_Name = ''''\<rparr>]
                else idx_ReferencedBy (xs ! m)) \<and>
             idx_ForeignKey (ys ! m) =
               (if p = desc \<and> idx_ID (xs ! m) = ftu_srcIdx t
                then map_option (\<lambda>fk. fk\<lparr>fk_Table := n\<rparr>) (idx_ForeignKey (xs ! m))
                else idx_ForeignKey (xs ! m))"
  shows "list_all2 (finalizedIndex n [t] desc p) xs ys"
proof -
  have k: "idx_ID (xs ! m) = ftu_targetIdx t \<longleftrightarrow> m = kT" if "m < length xs" for m
    using distinct_ID_nth [OF assms(1) assms(2) that] assms(3) by simp
  have "finalizedIndex n [t] desc p (xs ! m) (ys ! m)" if "m < length xs" for m
    using assms(4) assms(6) [rule_format, OF that] k [OF that]
    by (cases "m = kT") (auto simp: finalizedIndex_def)
  with assms(5) show ?thesis by (simp add: list_all2_conv_all_nth)
qed

lemma tbl_ID_updateIndexAt: "tbl_ID (updateIndexAt d r f) = tbl_ID d"
  by (cases r) simp_all

lemma finalizeFK_target_finalized:
  assumes f: "finalizeFK_target env desc t w = (None, w')"
      and dist: "distinctIndexIDs w"
      and d: "load w desc = Inr descv"
  shows "finalizedWorld (tbl_ID descv) [t] desc w w'"
proof -
  let ?n = "tbl_ID descv"
  let ?b = "\<lparr>fk_Table = ?n, fk_Index = ftu_srcIdx t, fk_Name = ''''\<rparr>"
  from f obtain targetv where tv: "load w (ftu_target t) = Inr targetv"
    by (cases "load w (ftu_target t)") (auto simp: finalizeFK_target_def)
  from f tv obtain targetIdx where ti: "FindIndexByID targetv (ftu_targetIdx t) = Inr targetIdx"
    by (cases "FindIndexByID targetv (ftu_targetIdx t)") (auto simp: finalizeFK_target_def)
  define T1 where "T1 = updateIndexAt targetv targetIdx
                         (\<lambda>i. i\<lparr>idx_ReferencedBy := idx_ReferencedBy i @ [?b]\<rparr>)"
  define w1 where "w1 = store w (ftu_target t) T1"
  let ?xs = "allIndexes targetv"
  let ?kT = "refPos targetIdx"
  from FindIndexByID_pos [OF ti] have kT: "?kT < length ?xs" "idx_ID (?xs ! ?kT) = ftu_targetIdx t"
    by auto
  have tp: "ftu_target t < length (heap w)" "heap w ! ftu_target t = targetv"
    using tv by (auto simp: load_Inr)
  have dp: "desc < length (heap w)" "heap w ! desc = descv"
    using d by (auto simp: load_Inr)
  have dT: "distinct (map idx_ID ?xs)"
    using dist tp by (auto simp: distinctIndexIDs_iff)
  have a1: "allIndexes T1 = ?xs[?kT := (?xs ! ?kT)\<lparr>idx_ReferencedBy := idx_ReferencedBy (?xs ! ?kT) @ [?b]\<rparr>]"
    unfolding T1_def using kT(1) by (rule allIndexes_updateIndexAt)
  have id1: "tbl_ID T1 = tbl_ID targetv" by (simp add: T1_def tbl_ID_updateIndexAt)
  have others: "finalizedWorld ?n [t] desc w w'"
    if len: "length (heap w') = length (heap w)"
      and same: "\<forall>p<length (heap w). p \<noteq> ftu_target t \<longrightarrow> heap w' ! p = heap w ! p"
      and tid: "tbl_ID (heap w' ! ftu_target t) = tbl_ID targetv"
      and tidx: "list_all2 (finalizedIndex ?n [t] desc (ftu_target t)) ?xs
                   (allIndexes (heap w' ! ftu_target t))"
  proof -
    have "tbl_ID (heap w' ! p) = tbl_ID (heap w ! p) \<and>
          list_all2 (finalizedIndex ?n [t] desc p) (allIndexes (heap w ! p)) (allIndexes (heap w' ! p))"
      if "p < length (heap w)" for p
    proof (cases "p = ftu_target t")
      case True
      with tid tidx tp show ?thesis by simp
    next
      case False
      with same that have "heap w' ! p = heap w ! p" by simp
      with False show ?thesis
        by (simp add: list_all2_refl finalizedIndex_other)
    qed
    with len show ?thesis by (simp add: finalizedWorld_def)
  qed
  show ?thesis
  proof (cases "ftu_target t = desc")
    case False
    with f tv ti d have s: "saveNonmutationAndNotify env (ftu_target t) w1 = (None, w')"
      by (simp add: finalizeFK_target_def w1_def T1_def)
    have h1: "heap w1 = (heap w)[ftu_target t := T1]" by (simp add: w1_def store_def)
    from saveNonmutationAndNotify_heap [OF s] have
      h': "heap w' = (heap w)[ftu_target t := T1] \<or>
           heap w' = (heap w)[ftu_target t := T1\<lparr>tbl_UpVersion := True\<rparr>]"
      using tp by (auto simp: h1)
    then have len: "length (heap w') = length (heap w)" by auto
    from h' have same: "\<forall>p<length (heap w). p \<noteq> ftu_target t \<longrightarrow> heap w' ! p = heap w ! p"
      by auto
    from h' tp have fin: "tbl_ID (heap w' ! ftu_target t) = tbl_ID targetv"
      "allIndexes (heap w' ! ftu_target t) = allIndexes T1"
      by (auto simp: id1 allIndexes_UpVersion)
    have "list_all2 (finalizedIndex ?n [t] desc (ftu_target t)) ?xs (allIndexes T1)"
      using dT kT False
      by (intro finalizedIndex_lists [where kT = ?kT]) (auto simp: a1 nth_list_update)
    with len same fin show ?thesis by (intro others) simp_all
  next
    case True
    then have tvd: "targetv = descv" using tp dp by simp
    have l1: "load w1 desc = Inr T1"
      using True tp by (simp add: w1_def load_def store_def)
    from f tv ti d True l1 obtain srcIdx where
      si: "FindIndexByID T1 (ftu_srcIdx t) = Inr srcIdx"
      by (cases "FindIndexByID T1 (ftu_srcIdx t)")
         (auto simp: finalizeFK_target_def w1_def T1_def tvd)
    from f tv ti d True l1 si obtain fk where
      fk: "idx_ForeignKey (indexAt T1 srcIdx) = Some fk"
      by (cases "idx_ForeignKey (indexAt T1 srcIdx)")
         (auto simp: finalizeFK_target_def w1_def T1_def tvd)
    define T2 where "T2 = updateIndexAt T1 srcIdx
                           (\<lambda>i. i\<lparr>idx_ForeignKey := Some (fk\<lparr>fk_Table := tbl_ID T1\<rparr>)\<rparr>)"
    from f tv ti d True l1 si fk have w': "w' = store w1 desc T2"
      by (simp add: finalizeFK_target_def w1_def T1_def T2_def tvd)
    let ?kS = "refPos srcIdx"
    from FindIndexByID_pos [OF si] have kS: "?kS < length (allIndexes T1)"
      "idx_ID (allIndexes T1 ! ?kS) = ftu_srcIdx t"
      by auto
    have a2: "allIndexes T2 = (allIndexes T1)[?kS :=
                (allIndexes T1 ! ?kS)\<lparr>idx_ForeignKey := Some (fk\<lparr>fk_Table := tbl_ID T1\<rparr>)\<rparr>]"
      unfolding T2_def using kS(1) by (rule allIndexes_updateIndexAt)
    have fk1: "idx_ForeignKey (allIndexes T1 ! ?kS) = Some fk"
      using fk by (simp add: indexAt_allIndexes)
    have h': "heap w' = (heap w)[desc := T2]"
      using True by (simp add: w' w1_def store_def)
    have len: "length (heap w') = length (heap w)" by (simp add: h')
    have same: "\<forall>p<length (heap w). p \<noteq> ftu_target t \<longrightarrow> heap w' ! p = heap w ! p"
      using True by (simp add: h')
    have fin: "heap w' ! ftu_target t = T2" using True dp by (simp add: h')
    have id2: "tbl_ID T2 = tbl_ID targetv" by (simp add: T2_def tbl_ID_updateIndexAt id1)
    have kS': "?kS < length ?xs" using kS(1) by (simp add: a1)
    have idS: "idx_ID (?xs ! ?kS) = ftu_srcIdx t"
      using kS(2) kS' kT(1) by (cases "?kS = ?kT") (auto simp: a1)
    have "list_all2 (finalizedIndex ?n [t] desc (ftu_target t)) ?xs (allIndexes T2)"
    proof (intro finalizedIndex_lists [where kT = ?kT] dT kT refl allI impI)
      show "length (allIndexes T2) = length ?xs" by (simp add: a2 a1)
    next
      fix m assume m: "m < length ?xs"
      have "idx_ID (?xs ! m) = ftu_srcIdx t \<longleftrightarrow> m = ?kS"
        using distinct_ID_nth [OF dT kS' m] idS by simp
      then show "idx_ID (allIndexes T2 ! m) = idx_ID (?xs ! m) \<and>
             idx_ReferencedBy (allIndexes T2 ! m) =
               (if m = ?kT then idx_ReferencedBy (?xs ! m) @ [?b]
                else idx_ReferencedBy (?xs ! m)) \<and>
             idx_ForeignKey (allIndexes T2 ! m) =
               (if ftu_target t = desc \<and> idx_ID (?xs ! m) = ftu_srcIdx t
                then map_option (\<lambda>fk. fk\<lparr>fk_Table := ?n\<rparr>) (idx_ForeignKey (?xs ! m))
                else idx_ForeignKey (?xs ! m))"
        using m kT(1) kS' fk1 True id1 tvd
        by (cases "m = ?kT"; cases "m = ?kS") (auto simp: a2 a1 nth_list_update)
    qed
    with len same fin id2 show ?thesis by (intro others) simp_all
  qed
qed

lemma finalizedWorld_IDs:
  assumes "finalizedWorld n ts desc w w'" "p < length (heap w)"
  shows "map idx_ID (allIndexes (heap w' ! p)) = map idx_ID (allIndexes (heap w ! p))"
proof -
  from assms have "list_all2 (finalizedIndex n ts desc p)
      (allIndexes (heap w ! p)) (allIndexes (heap w' ! p))"
    by (simp add: finalizedWorld_def)
  then have "list_all2 (\<lambda>a b. idx_ID b = idx_ID a) (allIndexes (heap w ! p)) (allIndexes (heap w' ! p))"
    by (rule list_all2_mono) (simp add: finalizedIndex_def)
  then show ?thesis
    by (auto simp: list_all2_conv_all_nth intro: nth_equalityI)
qed

lemma finalizedWorld_distinct:
  assumes "finalizedWorld n ts desc w w'" "distinctIndexIDs w"
  shows "distinctIndexIDs w'"
proof -
  have "distinct (map idx_ID (allIndexes (heap w' ! p)))" if "p < length (heap w')" for p
  proof -
    from that assms(1) have p: "p < length (heap w)" by (simp add: finalizedWorld_def)
    with assms(2) have "distinct (map idx_ID (allIndexes (heap w ! p)))"
      by (simp add: distinctIndexIDs_iff)
    with finalizedWorld_IDs [OF assms(1) p] show ?thesis by simp
  qed
  then show ?thesis by (simp add: distinctIndexIDs_iff)
qed

lemma finalizedWorld_load:
  "finalizedWorld n ts desc w w' \<Longrightarrow> load w p = Inr d \<Longrightarrow>
   \<exists>d'. load w' p = Inr d' \<and> tbl_ID d' = tbl_ID d"
  by (auto simp: finalizedWorld_def load_Inr)

lemma forEach_finalizeFK_target_finalized:
  "forEach (finalizeFK_target env desc) ts w = (None, w') \<Longrightarrow> distinctIndexIDs w \<Longrightarrow>
   load w desc = Inr descv \<Longrightarrow> finalizedWorld (tbl_ID descv) ts desc w w'"
proof (induction ts arbitrary: w descv)
  case Nil
  then show ?case by (simp add: finalizedWorld_same_indexes)
next
  case (Cons t ts)
  obtain r1 w1 where b: "finalizeFK_target env desc t w = (r1, w1)"
    by (cases "finalizeFK_target env desc t w")
  with Cons.prems(1) have r1: "r1 = None" and rest: "forEach (finalizeFK_target env desc) ts w1 = (None, w')"
    by (auto split: option.splits)
  from b r1 Cons.prems have f1: "finalizedWorld (tbl_ID descv) [t] desc w w1"
    by (intro finalizeFK_target_finalized) simp_all
  then have d1: "distinctIndexIDs w1" using Cons.prems(2) by (rule finalizedWorld_distinct)
  from finalizedWorld_load [OF f1 Cons.prems(3)] obtain descv1 where
    l1: "load w1 desc = Inr descv1" "tbl_ID descv1 = tbl_ID descv"
    by blast
  from Cons.IH [OF rest d1 l1(1)] have "finalizedWorld (tbl_ID descv) ts desc w1 w'"
    by (simp add: l1(2))
  with f1 have "finalizedWorld (tbl_ID descv) ([t] @ ts) desc w w'"
    by (rule finalizedWorld_append)
  then show ?case by simp
qed

lemma finalizeFKs_finalized:
  assumes f: "finalizeFKs env desc ts w = (None, w')"
      and dist: "distinctIndexIDs w"
      and d: "load w desc = Inr descv"
  shows "finalizedWorld (tbl_ID descv) ts desc w w'"
proof -
  obtain r1 w1 where l: "forEach (finalizeFK_target env desc) ts w = (r1, w1)"
    by (cases "forEach (finalizeFK_target env desc) ts w")
  with f have r1: "r1 = None" by (cases r1) (auto simp: finalizeFKs_def)
  with l dist d have f1: "finalizedWorld (tbl_ID descv) ts desc w w1"
    by (intro forEach_finalizeFK_target_finalized) simp_all
  from finalizedWorld_load [OF f1 d] obtain descv1 where
    l1: "load w1 desc = Inr descv1" "tbl_ID descv1 = tbl_ID descv"
    by blast
  have "finalizedWorld (tbl_ID descv) [] desc w1 w'"
  proof (cases "tbl_State descv1 = TableDescriptor_ADD")
    case False
    with f l r1 l1 have "w' = w1" by (simp add: finalizeFKs_def)
    then show ?thesis by (simp add: finalizedWorld_same_indexes)
  next
    case True
    define w2 where "w2 = store w1 desc (descv1\<lparr>tbl_State := TableDescriptor_PUBLIC\<rparr>)"
    from f l r1 l1 True have s: "saveNonmutationAndNotify env desc w2 = (None, w')"
      by (simp add: finalizeFKs_def w2_def)
    have dp: "desc < length (heap w1)" "heap w1 ! desc = descv1"
      using l1(1) by (auto simp: load_Inr)
    have h2: "heap w2 = (heap w1)[desc := descv1\<lparr>tbl_State := TableDescriptor_PUBLIC\<rparr>]"
      by (simp add: w2_def store_def)
    from saveNonmutationAndNotify_heap [OF s] dp have
      "heap w' = (heap w1)[desc := descv1\<lparr>tbl_State := TableDescriptor_PUBLIC\<rparr>] \<or>
       heap w' = (heap w1)[desc := descv1\<lparr>tbl_State := TableDescriptor_PUBLIC, tbl_UpVersion := True\<rparr>]"
      by (auto simp: h2)
    then show ?thesis
      using dp
      by (intro finalizedWorld_same_indexes)
         (auto simp: nth_list_update allIndexes_def)
  qed
  with f1 have "finalizedWorld (tbl_ID descv) (ts @ []) desc w w'"
    by (rule finalizedWorld_append)
  then show ?thesis by simp
qed

lemma resolveColFK_reference_Inr:
  assumes "resolveColFK_reference env tbl fromCol targetTable targetColName constraintName w =
             (Inr (src, target, targetIdx, ref), w1)"
  shows "\<exists>tblv targetv. load w tbl = Inr tblv \<and> FindActiveColumnByName tblv fromCol = Inr src \<and>
           load w1 target = Inr targetv \<and> fk_Table ref = tbl_ID targetv \<and> fk_Index ref = targetIdx"
  using assms
  by (auto simp: resolveColFK_reference_def Let_def
      split: sum.splits option.splits if_splits prod.splits)

lemma resolveColFK_resolved:
  assumes f: "resolveColFK env desc fromCol targetTable targetColName constraintName w = (Inr t, w')"
      and d: "load w desc = Inr descv"
      and dist: "distinct (map idx_ID (allIndexes descv))"
  shows "resolvedWorld desc [t] w w'"
proof -
  from resolveColFK_Inr [OF f] obtain src target targetIdx ref w1 tblv r where
    rf: "resolveColFK_reference env desc fromCol targetTable targetColName constraintName w =
        (Inr (src, target, targetIdx, ref), w1)"
    and tv: "load w1 desc = Inr tblv" and r: "refPos r < length (allIndexes tblv)"
    and id: "idx_ID (indexAt tblv r) = ftu_srcIdx t"
    and tt: "ftu_target t = target" "ftu_targetIdx t = targetIdx"
    and w': "w' = store w1 desc
             ((updateIndexAt tblv r (\<lambda>i. i\<lparr>idx_ForeignKey := Some ref\<rparr>))
                \<lparr>tbl_State := TableDescriptor_ADD\<rparr>)"
    by blast
  from resolveColFK_reference_heap [OF rf] obtain objs where h1: "heap w1 = heap w @ objs"
    by blast
  have dp: "desc < length (heap w)" "heap w ! desc = descv"
    using d by (auto simp: load_Inr)
  then have tblv: "tblv = descv" using tv h1 by (auto simp: load_Inr nth_append)
  from resolveColFK_reference_Inr [OF rf] obtain targetv where
    tg: "load w1 target = Inr targetv" "fk_Table ref = tbl_ID targetv" "fk_Index ref = targetIdx"
    by blast
  let ?D' = "(updateIndexAt descv r (\<lambda>i. i\<lparr>idx_ForeignKey := Some ref\<rparr>))
                \<lparr>tbl_State := TableDescriptor_ADD\<rparr>"
  let ?A = "allIndexes descv"
  let ?k = "refPos r"
  have h': "heap w' = (heap w @ objs)[desc := ?D']"
    by (simp add: w' store_def h1 tblv)
  have a': "allIndexes ?D' = ?A[?k := (?A ! ?k)\<lparr>idx_ForeignKey := Some ref\<rparr>]"
    using r by (simp add: allIndexes_State allIndexes_updateIndexAt tblv)
  have k: "?k < length ?A" "idx_ID (?A ! ?k) = ftu_srcIdx t"
    using r id by (simp_all add: tblv indexAt_allIndexes)
  have tl: "target < length (heap w @ objs)" "(heap w @ objs) ! target = targetv"
    using tg(1) h1 by (auto simp: load_Inr)
  have tid: "tbl_ID (heap w' ! target) = tbl_ID targetv"
  proof (cases "target = desc")
    case True
    with tl dp have "targetv = descv" by (simp add: nth_append)
    with True dp show ?thesis by (simp add: h' tbl_ID_updateIndexAt)
  next
    case False
    with tl show ?thesis by (simp add: h')
  qed
  have "resolvedIndex [t] w' (?A ! m) (allIndexes ?D' ! m)" if "m < length ?A" for m
  proof (cases "m = ?k")
    case True
    with k tid tg tt show ?thesis
      by (simp add: resolvedIndex_def a')
  next
    case False
    with distinct_ID_nth [OF dist k(1) that] k(2) have "idx_ID (?A ! m) \<noteq> ftu_srcIdx t" by simp
    with False show ?thesis by (auto simp: resolvedIndex_def a')
  qed
  then have l: "list_all2 (resolvedIndex [t] w') ?A (allIndexes ?D')"
    by (simp add: list_all2_conv_all_nth a')
  have "ftu_srcIdx t \<in> idx_ID ` set ?A"
    using k by (metis imageI nth_mem)
  with dp l tl tt show ?thesis
    by (auto simp: resolvedWorld_def h' nth_append nth_list_update tbl_ID_updateIndexAt)
qed

lemma resolvedWorld_Nil: "desc < length (heap w) \<Longrightarrow> resolvedWorld desc [] w w"
  by (simp add: resolvedWorld_def resolvedIndex_def list_all2_refl)

lemma resolvedWorld_Cons:
  assumes a: "resolvedWorld desc [t] w w1" and b: "resolvedWorld desc ts w1 w'"
  shows "resolvedWorld desc (t # ts) w w'"
proof -
  let ?A0 = "allIndexes (heap w ! desc)"
  let ?A1 = "allIndexes (heap w1 ! desc)"
  let ?A2 = "allIndexes (heap w' ! desc)"
  from a have a1: "desc < length (heap w)" "length (heap w) \<le> length (heap w1)"
    "\<forall>p<length (heap w). p \<noteq> desc \<longrightarrow> heap w1 ! p = heap w ! p"
    "tbl_ID (heap w1 ! desc) = tbl_ID (heap w ! desc)"
    "list_all2 (resolvedIndex [t] w1) ?A0 ?A1"
    "ftu_target t < length (heap w1)" "ftu_srcIdx t \<in> idx_ID ` set ?A0"
    by (simp_all add: resolvedWorld_def)
  from b have b1: "length (heap w1) \<le> length (heap w')"
    "\<forall>p<length (heap w1). p \<noteq> desc \<longrightarrow> heap w' ! p = heap w1 ! p"
    "tbl_ID (heap w' ! desc) = tbl_ID (heap w1 ! desc)"
    "list_all2 (resolvedIndex ts w') ?A1 ?A2"
    "list_all (\<lambda>t. ftu_target t < length (heap w') \<and> ftu_srcIdx t \<in> idx_ID ` set ?A1) ts"
    by (simp_all add: resolvedWorld_def)
  have ids: "tbl_ID (heap w' ! p) = tbl_ID (heap w1 ! p)" if "p < length (heap w1)" for p
    using that b1(2,3) by (cases "p = desc") auto
  have len: "length ?A1 = length ?A0" "length ?A2 = length ?A0"
    using list_all2_lengthD [OF a1(5)] list_all2_lengthD [OF b1(4)] by simp_all
  have step: "resolvedIndex (t # ts) w' (?A0 ! m) (?A2 ! m)" if m: "m < length ?A0" for m
  proof -
    from a1(5) m have x: "resolvedIndex [t] w1 (?A0 ! m) (?A1 ! m)"
      by (simp add: list_all2_conv_all_nth)
    from b1(4) m len have y: "resolvedIndex ts w' (?A1 ! m) (?A2 ! m)"
      by (simp add: list_all2_conv_all_nth)
    from x have i1: "idx_ID (?A1 ! m) = idx_ID (?A0 ! m)" by (simp add: resolvedIndex_def)
    show ?thesis
    proof (cases "rev (filter (\<lambda>t. ftu_srcIdx t = idx_ID (?A0 ! m)) ts)")
      case (Cons t' earlier)
      with y i1 x show ?thesis
        by (auto simp: resolvedIndex_def split: option.splits)
    next
      case Nil
      show ?thesis
      proof (cases "ftu_srcIdx t = idx_ID (?A0 ! m)")
        case False
        with Nil x y i1 show ?thesis by (auto simp: resolvedIndex_def)
      next
        case True
        with x obtain fk where fk: "idx_ForeignKey (?A1 ! m) = Some fk"
          "fk_Table fk = tbl_ID (heap w1 ! ftu_target t)" "fk_Index fk = ftu_targetIdx t"
          by (auto simp: resolvedIndex_def split: option.splits)
        with Nil True x y i1 ids [OF a1(6)] show ?thesis
          by (auto simp: resolvedIndex_def)
      qed
    qed
  qed
  then have l: "list_all2 (resolvedIndex (t # ts) w') ?A0 ?A2"
    using len by (simp add: list_all2_conv_all_nth)
  have "map idx_ID ?A1 = map idx_ID ?A0"
    using a1(5) by (auto simp: list_all2_conv_all_nth resolvedIndex_def intro: nth_equalityI)
  then have s: "idx_ID ` set ?A1 = idx_ID ` set ?A0"
    by (metis set_map)
  have "\<forall>p<length (heap w). p \<noteq> desc \<longrightarrow> heap w' ! p = heap w ! p"
    using a1(2,3) b1(2) by auto
  with a1 b1 l s show ?thesis
    by (auto simp: resolvedWorld_def list_all_iff)
qed

lemma resolvedWorld_IDs:
  assumes "resolvedWorld desc ts w w'"
  shows "map idx_ID (allIndexes (heap w' ! desc)) = map idx_ID (allIndexes (heap w ! desc))"
proof -
  from assms have "list_all2 (resolvedIndex ts w')
      (allIndexes (heap w ! desc)) (allIndexes (heap w' ! desc))"
    by (simp add: resolvedWorld_def)
  then show ?thesis
    by (auto simp: list_all2_conv_all_nth resolvedIndex_def intro: nth_equalityI)
qed

lemma Start_resolveFKs_resolved:
  "Start_resolveFKs env desc defs w = (Inr ts, w') \<Longrightarrow> load w desc = Inr descv \<Longrightarrow>
   distinct (map idx_ID (allIndexes descv)) \<Longrightarrow> resolvedWorld desc ts w w'"
proof (induction defs arbitrary: w w' ts descv)
  case Nil
  then show ?case by (auto simp: resolvedWorld_Nil load_Inr)
next
  case (Cons d defs)
  show ?case
  proof (cases d)
    case (ColumnDef col)
    show ?thesis
    proof (cases "ctd_References_Table col")
      case None
      with Cons ColumnDef show ?thesis by simp
    next
      case (Some targetTable)
      obtain r1 w1 where rc: "resolveColFK env desc (ctd_Name col) targetTable (ctd_References_Col col)
                    (ctd_References_ConstraintName col) w = (r1, w1)"
        by (cases "resolveColFK env desc (ctd_Name col) targetTable (ctd_References_Col col)
                    (ctd_References_ConstraintName col) w")
      from Cons.prems(1) ColumnDef Some rc obtain modified where r1: "r1 = Inr modified"
        by (cases r1) auto
      obtain r2 w2 where rest: "Start_resolveFKs env desc defs w1 = (r2, w2)"
        by (cases "Start_resolveFKs env desc defs w1")
      from Cons.prems(1) ColumnDef Some rc r1 rest obtain ts' where
        r2: "r2 = Inr ts'" and ts: "ts = modified # ts'" and w': "w' = w2"
        by (cases r2) auto
      from rc r1 Cons.prems(2,3) have a: "resolvedWorld desc [modified] w w1"
        by (intro resolveColFK_resolved) simp_all
      then have l1: "load w1 desc = Inr (heap w1 ! desc)"
        by (simp add: resolvedWorld_def load_def)
      have d1: "distinct (map idx_ID (allIndexes (heap w1 ! desc)))"
        using resolvedWorld_IDs [OF a] Cons.prems(2,3) by (simp add: load_Inr)
      from rest r2 have "Start_resolveFKs env desc defs w1 = (Inr ts', w2)" by simp
      from Cons.IH [OF this l1 d1] have "resolvedWorld desc ts' w1 w2" .
      with a show ?thesis unfolding ts w' by (rule resolvedWorld_Cons)
    qed
  next
    case (IndexDef x)
    with Cons show ?thesis by simp
  next
    case (UniqueConstraintDef x y)
    with Cons show ?thesis by simp
  next
    case (CheckConstraintDef x)
    with Cons show ?thesis by simp
  qed
qed

end
